(* ===== verification/Prelude.thy ===== *)
theory Prelude
  imports Complex_Main "HOL-Library.AList" "HOL-Library.List_Lexorder" "HOL-Library.Char_ord"
begin

text \<open>
  Shared vocabulary of the development: results with an error value (a Python function that may
  raise), Python's insertion-ordered dictionaries as association lists, ordered lists of guarded
  raises (the shape of every validator of the program), the character classes of the identifier
  patterns, and the generic lemmas the components use about them.

  Strings are \<^typ>\<open>string\<close>: the UTF-8 bytes of the Python text. Byte order on UTF-8 is code point
  order, so sorting strings here is Python's sorting of them. Python floats that the program
  requires to be finite are rational numbers, carried as \<^typ>\<open>rat\<close>; the comparisons the program makes
  on them are exact.
\<close>

section \<open>Collections of facts\<close>

named_theorems valid_defs \<open>definitions of the well-formedness predicates of the program's models\<close>
named_theorems result_simps \<open>rewriting of results with an error value\<close>
named_theorems dict_simps \<open>rewriting of dictionaries\<close>

type_synonym digest = string
type_synonym 'v dict = "(string \<times> 'v) list"

section \<open>Results: the value or the exception\<close>

definition bind_result :: "'e + 'a \<Rightarrow> ('a \<Rightarrow> 'e + 'b) \<Rightarrow> 'e + 'b" where
  "bind_result m f = (case m of Inl e \<Rightarrow> Inl e | Inr x \<Rightarrow> f x)"

lemma bind_result_Inl [simp]: "bind_result (Inl e) f = Inl e"
  by (simp add: bind_result_def)

lemma bind_result_Inr [simp]: "bind_result (Inr x) f = f x"
  by (simp add: bind_result_def)

lemma bind_result_eq_Inr [result_simps]:
  "bind_result m f = Inr y \<longleftrightarrow> (\<exists>x. m = Inr x \<and> f x = Inr y)"
  by (cases m) auto

lemma bind_result_cong [fundef_cong]:
  "m = m' \<Longrightarrow> (\<And>x. m' = Inr x \<Longrightarrow> f x = f' x) \<Longrightarrow> bind_result m f = bind_result m' f'"
  by (cases m') auto

text \<open>\<open>if p: raise e\<close> followed by the rest of the function.\<close>

definition raise_if :: "bool \<Rightarrow> 'e \<Rightarrow> 'e + 'a \<Rightarrow> 'e + 'a" where
  "raise_if p e rest = (if p then Inl e else rest)"

lemma raise_if_eq_Inr [result_simps]: "raise_if p e m = Inr y \<longleftrightarrow> \<not> p \<and> m = Inr y"
  by (simp add: raise_if_def)

lemma raise_if_False [simp]: "raise_if False e m = m"
  by (simp add: raise_if_def)

lemma raise_if_True [simp]: "raise_if True e m = Inl e"
  by (simp add: raise_if_def)

lemma raise_if_cong [fundef_cong]:
  "p = p' \<Longrightarrow> e = e' \<Longrightarrow> (\<not> p' \<Longrightarrow> m = m') \<Longrightarrow> raise_if p e m = raise_if p' e' m'"
  by (simp add: raise_if_def)

text \<open>A loop that threads a state and may raise.\<close>

fun fold_result :: "('s \<Rightarrow> 'a \<Rightarrow> 'e + 's) \<Rightarrow> 's \<Rightarrow> 'a list \<Rightarrow> 'e + 's" where
  "fold_result f s [] = Inr s"
| "fold_result f s (x # xs) = bind_result (f s x) (\<lambda>s'. fold_result f s' xs)"

lemma fold_result_append:
  "fold_result f s (xs @ ys) = bind_result (fold_result f s xs) (\<lambda>s'. fold_result f s' ys)"
proof (induction xs arbitrary: s)
  case (Cons x xs)
  then show ?case by (cases "f s x") simp_all
qed simp

lemma fold_result_invariant:
  assumes "fold_result f s xs = Inr t" and "P s"
    and "\<And>s x t. x \<in> set xs \<Longrightarrow> P s \<Longrightarrow> f s x = Inr t \<Longrightarrow> P t"
  shows "P t"
  using assms
proof (induction xs arbitrary: s)
  case (Cons x xs)
  from Cons.prems(1) obtain s' where s': "f s x = Inr s'" "fold_result f s' xs = Inr t"
    by (auto simp: result_simps)
  with Cons.prems(2,3) have "P s'" by auto
  with s' Cons.prems(3) show ?case by (auto intro: Cons.IH)
qed simp

lemma fold_result_unit: "(\<And>x. x \<in> set xs \<Longrightarrow> f () x = Inr ()) \<Longrightarrow> fold_result f () xs = Inr ()"
  by (induction xs) simp_all

text \<open>A comprehension whose element expression may raise.\<close>

fun map_result :: "('a \<Rightarrow> 'e + 'b) \<Rightarrow> 'a list \<Rightarrow> 'e + 'b list" where
  "map_result f [] = Inr []"
| "map_result f (x # xs) =
     bind_result (f x) (\<lambda>y. bind_result (map_result f xs) (\<lambda>ys. Inr (y # ys)))"

lemma map_result_Inr_iff:
  "map_result f xs = Inr ys \<longleftrightarrow> list_all2 (\<lambda>x y. f x = Inr y) xs ys"
proof (induction xs arbitrary: ys)
  case (Cons x xs)
  then show ?case by (cases ys) (auto simp: result_simps)
qed auto

section \<open>Validators: an ordered list of guarded raises\<close>

text \<open>
  A validator method is a sequence of \<open>if condition: raise ValueError(message)\<close>. It is the list of
  its conditions with their messages; the first condition that holds decides the error.
\<close>

type_synonym checks = "(bool \<times> string) list"

fun first_error :: "checks \<Rightarrow> string option" where
  "first_error [] = None"
| "first_error ((p, e) # cs) = (if p then Some e else first_error cs)"

definition passes :: "checks \<Rightarrow> bool" where
  "passes cs \<longleftrightarrow> first_error cs = None"

definition validate :: "checks \<Rightarrow> 'a \<Rightarrow> string + 'a" where
  "validate cs x = (case first_error cs of None \<Rightarrow> Inr x | Some e \<Rightarrow> Inl e)"

lemma first_error_None: "first_error cs = None \<longleftrightarrow> (\<forall>c \<in> set cs. \<not> fst c)"
  by (induction cs rule: first_error.induct) auto

lemma passes_Nil [simp]: "passes []"
  by (simp add: passes_def)

lemma passes_Cons [simp]: "passes ((p, e) # cs) \<longleftrightarrow> \<not> p \<and> passes cs"
  by (simp add: passes_def)

lemma passes_append [simp]: "passes (cs @ ds) \<longleftrightarrow> passes cs \<and> passes ds"
  by (auto simp: passes_def first_error_None)

lemma validate_eq_Inr: "validate cs x = Inr y \<longleftrightarrow> passes cs \<and> y = x"
  by (auto simp: validate_def passes_def split: option.splits)

lemma validate_eq_Inl: "validate cs x = Inl e \<longleftrightarrow> first_error cs = Some e"
  by (auto simp: validate_def split: option.splits)

section \<open>Dictionaries\<close>

text \<open>
  A Python dictionary keeps insertion order, and storing under a present key keeps its position:
  this is \<^const>\<open>AList.update\<close> on association lists.
\<close>

abbreviation dict_put :: "'k \<Rightarrow> 'v \<Rightarrow> ('k \<times> 'v) list \<Rightarrow> ('k \<times> 'v) list" where
  "dict_put \<equiv> AList.update"

abbreviation keys :: "('k \<times> 'v) list \<Rightarrow> 'k list" where
  "keys d \<equiv> map fst d"

abbreviation dict_values :: "('k \<times> 'v) list \<Rightarrow> 'v list" where
  "dict_values d \<equiv> map snd d"

text \<open>Lookups stay lookups: the library would turn them into membership under distinct keys.\<close>

declare map_of_eq_Some_iff [simp del] Some_eq_map_of_iff [simp del]

definition has_key :: "('k \<times> 'v) list \<Rightarrow> 'k \<Rightarrow> bool" where
  "has_key d k \<longleftrightarrow> map_of d k \<noteq> None"

lemma has_key_iff [dict_simps]: "has_key d k \<longleftrightarrow> k \<in> set (keys d)"
  by (simp add: has_key_def map_of_eq_None_iff)

lemma map_of_put [dict_simps]: "map_of (dict_put k v d) k' = (if k' = k then Some v else map_of d k')"
  by (simp add: update_conv')

lemma keys_put [dict_simps]: "set (keys (dict_put k v d)) = insert k (set (keys d))"
  by (induction d) auto

lemma keys_put_order: "keys (dict_put k v d) = (if k \<in> set (keys d) then keys d else keys d @ [k])"
  by (induction d) auto

lemma distinct_keys_put [intro]: "distinct (keys d) \<Longrightarrow> distinct (keys (dict_put k v d))"
  by (auto simp: keys_put_order)

lemma put_same [simp]: "map_of d k = Some v \<Longrightarrow> dict_put k v d = d"
  by (induction d) auto

lemma in_dict_iff:
  "distinct (keys d) \<Longrightarrow> (k, v) \<in> set d \<longleftrightarrow> map_of d k = Some v"
  by (auto dest: map_of_SomeD)

lemma values_iff:
  "distinct (keys d) \<Longrightarrow> v \<in> set (dict_values d) \<longleftrightarrow> (\<exists>k. map_of d k = Some v)"
  by (force simp: in_dict_iff [symmetric])

lemma map_of_in_keys: "map_of d k = Some v \<Longrightarrow> k \<in> set (keys d)"
  by (force dest: map_of_SomeD)

lemma keys_lookup: "k \<in> set (keys d) \<Longrightarrow> \<exists>v. map_of d k = Some v"
  by (metis domD dom_map_of_conv_image_fst image_set)

text \<open>\<open>{f(x): x for x in xs}\<close>\<close>

definition dict_of :: "('a \<Rightarrow> 'k) \<Rightarrow> 'a list \<Rightarrow> ('k \<times> 'a) list" where
  "dict_of f xs = foldl (\<lambda>d x. dict_put (f x) x d) [] xs"

lemma dict_of_snoc: "dict_of f (xs @ [x]) = dict_put (f x) x (dict_of f xs)"
  by (simp add: dict_of_def)

lemma keys_dict_of: "distinct (keys (dict_of f xs)) \<and> set (keys (dict_of f xs)) = f ` set xs"
  by (induction xs rule: rev_induct) (auto simp: dict_of_snoc keys_put_order dict_of_def)

lemma put_new: "k \<notin> set (keys d) \<Longrightarrow> dict_put k v d = d @ [(k, v)]"
  by (induction d) auto

lemma dict_of_distinct: "distinct (map f xs) \<Longrightarrow> dict_of f xs = map (\<lambda>x. (f x, x)) xs"
  by (induction xs rule: rev_induct) (simp_all add: dict_of_def [of f "[]"] dict_of_snoc put_new comp_def)

lemma map_of_dict_of:
  assumes "distinct (map f xs)"
  shows "map_of (dict_of f xs) k = Some x \<longleftrightarrow> x \<in> set xs \<and> f x = k"
proof -
  have "distinct (keys (map (\<lambda>x. (f x, x)) xs))" using assms by (simp add: comp_def)
  from in_dict_iff [OF this, of k x] show ?thesis by (auto simp: dict_of_distinct [OF assms])
qed

text \<open>\<open>d.setdefault(k, []).append(v)\<close>\<close>

definition dict_append :: "'k \<Rightarrow> 'v \<Rightarrow> ('k \<times> 'v list) list \<Rightarrow> ('k \<times> 'v list) list" where
  "dict_append k v d = dict_put k ((case map_of d k of None \<Rightarrow> [] | Some vs \<Rightarrow> vs) @ [v]) d"

definition group_by :: "('a \<Rightarrow> 'k) \<Rightarrow> ('a \<Rightarrow> 'v) \<Rightarrow> 'a list \<Rightarrow> ('k \<times> 'v list) list" where
  "group_by f g xs = foldl (\<lambda>d x. dict_append (f x) (g x) d) [] xs"

lemma group_by_snoc: "group_by f g (xs @ [x]) = dict_append (f x) (g x) (group_by f g xs)"
  by (simp add: group_by_def)

lemma map_of_group_by:
  "map_of (group_by f g xs) k
     = (let vs = map g (filter (\<lambda>x. f x = k) xs) in if vs = [] then None else Some vs)"
  by (induction xs rule: rev_induct)
    (auto simp: group_by_snoc dict_append_def dict_simps Let_def group_by_def)

lemma keys_group_by:
  "distinct (keys (group_by f g xs)) \<and> set (keys (group_by f g xs)) = f ` set xs"
  by (induction xs rule: rev_induct) (auto simp: group_by_snoc dict_append_def keys_put_order group_by_def)

lemma in_group_by:
  "(k, vs) \<in> set (group_by f g xs) \<longleftrightarrow> vs = map g (filter (\<lambda>x. f x = k) xs) \<and> vs \<noteq> []"
  using keys_group_by [of f g xs] by (auto simp: in_dict_iff map_of_group_by Let_def)

text \<open>\<open>dict.fromkeys(xs)\<close>: the values without repetition, in order of first occurrence.\<close>

definition from_keys :: "'a list \<Rightarrow> 'a list" where
  "from_keys xs = rev (remdups (rev xs))"

lemma from_keys_set [simp]: "set (from_keys xs) = set xs" "distinct (from_keys xs)"
  by (simp_all add: from_keys_def)

lemma from_keys_distinct: "distinct xs \<Longrightarrow> from_keys xs = xs"
  by (simp add: from_keys_def distinct_remdups_id)

text \<open>A nullable field whose value, when present, satisfies a predicate.\<close>

definition option_all :: "('a \<Rightarrow> bool) \<Rightarrow> 'a option \<Rightarrow> bool" where
  "option_all p x \<longleftrightarrow> (case x of None \<Rightarrow> True | Some y \<Rightarrow> p y)"

lemma option_all_simps [simp]: "option_all p None" "option_all p (Some y) = p y"
  by (simp_all add: option_all_def)

section \<open>Text patterns\<close>

definition is_lower_hex :: "char \<Rightarrow> bool" where
  "is_lower_hex c \<longleftrightarrow> c \<in> set ''0123456789abcdef''"

definition is_alnum :: "char \<Rightarrow> bool" where
  "is_alnum c \<longleftrightarrow>
     c \<in> set ''ABCDEFGHIJKLMNOPQRSTUVWXYZabcdefghijklmnopqrstuvwxyz0123456789''"

definition is_space :: "char \<Rightarrow> bool" where
  "is_space c \<longleftrightarrow> c \<in> set [CHR '' '', CHR 0x09, CHR 0x0A, CHR 0x0B, CHR 0x0C, CHR 0x0D]"

text \<open>Python's \<open>len\<close> of a text counts code points: the bytes that do not continue a UTF-8 sequence.\<close>

definition code_points :: "string \<Rightarrow> int" where
  "code_points s =
     int (length (filter (\<lambda>c. (of_char c :: int) < 128 \<or> 192 \<le> (of_char c :: int)) s))"

definition starts_with :: "string \<Rightarrow> string \<Rightarrow> bool" where
  "starts_with p s \<longleftrightarrow> take (length p) s = p"

text \<open>\<open>sep.join(texts)\<close>\<close>

fun join_text :: "string \<Rightarrow> string list \<Rightarrow> string" where
  "join_text sep [] = []"
| "join_text sep [x] = x"
| "join_text sep (x # y # zs) = x @ sep @ join_text sep (y # zs)"

lemma join_text_Cons: "xs \<noteq> [] \<Longrightarrow> join_text sep (x # xs) = x @ sep @ join_text sep xs"
  by (cases xs) simp_all

lemma starts_with_iff: "starts_with p s \<longleftrightarrow> (\<exists>r. s = p @ r)"
  by (metis append_eq_conv_conj append_take_drop_id starts_with_def)

lemma starts_with_append [simp]: "starts_with p (p @ r)"
  by (simp add: starts_with_def)

section \<open>Lists\<close>

lemma distinct_map_inj: "distinct (map f xs) \<Longrightarrow> x \<in> set xs \<Longrightarrow> y \<in> set xs \<Longrightarrow> f x = f y \<Longrightarrow> x = y"
  by (induction xs) (auto simp: image_iff)

lemma last_in_set_snoc [simp]: "xs \<noteq> [] \<Longrightarrow> last xs \<in> set xs"
  by simp

end
