(* ===== verification/Contracts.thy ===== *)
theory Contracts
  imports Prelude
begin

text \<open>
  The strict records of \<^verbatim>\<open>contracts/models.py\<close> that the services exchange: text patterns, enums,
  artifact references, receipts, costs and operation results. A pydantic model is a record; its
  field constraints are the predicate \<open>valid_x\<close>, its validator method the list \<open>x_checks\<close> of guarded
  raises in the order of the source, and \<open>valid_x\<close> requires both. Timestamps are carried in their
  UTC text form, because nothing here computes with them.
\<close>

section \<open>Constrained text\<close>

definition is_text :: "string \<Rightarrow> bool" where
  "is_text s \<longleftrightarrow> s \<noteq> [] \<and> list_ex (\<lambda>c. \<not> is_space c) s"

definition is_digest :: "string \<Rightarrow> bool" where
  "is_digest s \<longleftrightarrow> length s = 64 \<and> list_all is_lower_hex s"

definition is_revision :: "string \<Rightarrow> bool" where
  "is_revision s \<longleftrightarrow> (length s = 40 \<or> length s = 64) \<and> list_all is_lower_hex s"

definition is_ident_char :: "char \<Rightarrow> bool" where
  "is_ident_char c \<longleftrightarrow> is_alnum c \<or> c \<in> set ''_.-''"

definition is_identifier :: "string \<Rightarrow> bool" where
  "is_identifier s \<longleftrightarrow> (case s of [] \<Rightarrow> False | c # cs \<Rightarrow> is_alnum c \<and> list_all is_ident_char cs)"

type_synonym utc_datetime = string

section \<open>Enumerations\<close>

datatype visibility = V_PUBLIC | V_AUTHORING | V_PRIVATE | V_TRAINING | V_EVALUATION | V_INTERNAL

fun visibility_value :: "visibility \<Rightarrow> string" where
  "visibility_value V_PUBLIC = ''public''"
| "visibility_value V_AUTHORING = ''authoring''"
| "visibility_value V_PRIVATE = ''private''"
| "visibility_value V_TRAINING = ''training''"
| "visibility_value V_EVALUATION = ''evaluation''"
| "visibility_value V_INTERNAL = ''internal''"

lemma visibility_value_inject [simp]: "visibility_value a = visibility_value b \<longleftrightarrow> a = b"
  by (cases a; cases b) simp_all

datatype actor_role = R_SOLVER | R_AUTHOR | R_CONTROLLER | R_TRAINER | R_EVALUATOR | R_REVIEWER

datatype partition = P_TRAIN | P_DEVELOPMENT | P_LOCKED_TEST | P_UNASSIGNED

fun partition_value :: "partition \<Rightarrow> string" where
  "partition_value P_TRAIN = ''train''"
| "partition_value P_DEVELOPMENT = ''development''"
| "partition_value P_LOCKED_TEST = ''locked_test''"
| "partition_value P_UNASSIGNED = ''unassigned''"

lemma partition_value_inject [simp]: "partition_value a = partition_value b \<longleftrightarrow> a = b"
  by (cases a; cases b) simp_all

datatype disposition = D_SUCCESS | D_REJECTED | D_UNSUPPORTED | D_INVALID | D_INFRASTRUCTURE
  | D_BLOCKED | D_PROVISIONAL

fun disposition_value :: "disposition \<Rightarrow> string" where
  "disposition_value D_SUCCESS = ''success''"
| "disposition_value D_REJECTED = ''candidate_rejection''"
| "disposition_value D_UNSUPPORTED = ''unsupported_semantics''"
| "disposition_value D_INVALID = ''invalid_measurement''"
| "disposition_value D_INFRASTRUCTURE = ''infrastructure_failure''"
| "disposition_value D_BLOCKED = ''blocked_dependency''"
| "disposition_value D_PROVISIONAL = ''provisional''"

lemma disposition_value_inject [simp]: "disposition_value a = disposition_value b \<longleftrightarrow> a = b"
  by (cases a; cases b) simp_all

datatype task_state = T_DISCOVERED | T_SCREENED | T_RECONSTRUCTED | T_BUILT | T_QUALIFIED
  | T_CALIBRATED | T_RELEASED | T_QUARANTINED | T_REJECTED

datatype stop_reason = S_SUBMITTED | S_TOKEN_LIMIT | S_TOOL_LIMIT | S_TIME_LIMIT
  | S_MALFORMED_ACTION | S_CANDIDATE_FAILURE | S_INFRASTRUCTURE_FAILURE | S_INVALID_TRAJECTORY

section \<open>Artifact references\<close>

datatype encoding = Enc_json | Enc_bytes

record artifact_ref =
  ref_sha256 :: digest
  ref_kind :: string
  ref_schema_version :: int
  ref_visibility :: visibility
  ref_encoding :: encoding

definition valid_ref :: "artifact_ref \<Rightarrow> bool" where
  "valid_ref r \<longleftrightarrow> is_digest (ref_sha256 r) \<and> is_identifier (ref_kind r)
     \<and> 1 \<le> ref_schema_version r \<and> ref_schema_version r \<le> 2"

text \<open>The registered artifact kinds and their schema versions.\<close>

definition ARTIFACT_TYPES :: "string list" where
  "ARTIFACT_TYPES =
     [''CandidateRecord'', ''SourcePair'', ''RequirementContract'', ''EnvironmentRecipe'',
      ''VerifierBundle'', ''TaskBundle'', ''QualificationReport'', ''RolloutRecord'',
      ''TrainingCheckpoint'', ''EvaluationReport'']"

definition ARTIFACT_SCHEMA_VERSIONS :: "string \<Rightarrow> int option" where
  "ARTIFACT_SCHEMA_VERSIONS kind =
     (if kind \<in> set ARTIFACT_TYPES
      then Some (if kind \<in> set [''CandidateRecord'', ''SourcePair'', ''VerifierBundle'',
                                ''QualificationReport''] then 2 else 1)
      else None)"

definition require_ref_checks :: "artifact_ref \<Rightarrow> string \<Rightarrow> checks" where
  "require_ref_checks r kind =
     [(ref_kind r \<noteq> kind \<or> ref_encoding r \<noteq> Enc_json, ''expected JSON reference''),
      (Some (ref_schema_version r) \<noteq> ARTIFACT_SCHEMA_VERSIONS kind,
       ''unsupported schema version; revalidate and republish'')]"

definition unique_checks :: "'a list \<Rightarrow> string \<Rightarrow> checks" where
  "unique_checks values label = [(\<not> distinct values, ''duplicate '' @ label)]"

lemma passes_require_ref:
  "passes (require_ref_checks r k) \<longleftrightarrow> ref_kind r = k \<and> ref_encoding r = Enc_json
     \<and> Some (ref_schema_version r) = ARTIFACT_SCHEMA_VERSIONS k"
  by (auto simp: require_ref_checks_def)

lemma passes_unique [simp]: "passes (unique_checks vs l) \<longleftrightarrow> distinct vs"
  by (simp add: unique_checks_def)

section \<open>Receipts and costs\<close>

datatype evidence_scope = Scope_real_integration | Scope_unit_diagnostic | Scope_source_inspection
  | Scope_human_review

record evidence_record =
  ev_producer :: string
  ev_command :: "string list"
  ev_recorded_at :: utc_datetime
  ev_exit_status :: int
  ev_artifacts :: "artifact_ref list"
  ev_revision :: string
  ev_scope :: evidence_scope

definition valid_evidence_record :: "evidence_record \<Rightarrow> bool" where
  "valid_evidence_record e \<longleftrightarrow> is_text (ev_producer e)
     \<and> ev_command e \<noteq> [] \<and> list_all is_text (ev_command e)
     \<and> ev_artifacts e \<noteq> [] \<and> list_all valid_ref (ev_artifacts e)
     \<and> is_revision (ev_revision e)"

definition valid_evidence :: "evidence_record list \<Rightarrow> bool" where
  "valid_evidence es \<longleftrightarrow> es \<noteq> [] \<and> list_all valid_evidence_record es"

datatype cost_category = C_discovery | C_authoring | C_construction | C_rejection | C_repair
  | C_reference | C_alternative | C_verifier | C_human_review | C_rollout | C_training
  | C_execution | C_storage | C_evaluation

datatype measurement = M_measured | M_partial | M_unknown

record cost_record =
  cost_category :: cost_category
  cost_wall_seconds :: "rat option"
  cost_cpu_seconds :: "rat option"
  cost_gpu_seconds :: "rat option"
  cost_input_tokens :: "int option"
  cost_output_tokens :: "int option"
  cost_human_minutes :: "rat option"
  cost_usd :: "rat option"
  cost_measurement :: measurement
  cost_note :: string

text \<open>
  \<open>getattr(cost, field)\<close> over the seven measured fields, in the order both the model and the
  registry enumerate them; a token count is compared as the number it is.
\<close>

definition cost_values :: "cost_record \<Rightarrow> rat option list" where
  "cost_values c =
     [cost_wall_seconds c, cost_cpu_seconds c, cost_gpu_seconds c,
      map_option rat_of_int (cost_input_tokens c), map_option rat_of_int (cost_output_tokens c),
      cost_human_minutes c, cost_usd c]"

definition cost_checks :: "cost_record \<Rightarrow> checks" where
  "cost_checks c =
     [(cost_measurement c = M_unknown \<and> list_ex (\<lambda>v. v \<noteq> None) (cost_values c),
       ''unknown cost must contain null measurements''),
      (cost_measurement c = M_measured \<and> list_ex (\<lambda>v. v = None) (cost_values c),
       ''measured cost requires all measurements; use partial otherwise''),
      (cost_measurement c = M_partial \<and> \<not> list_ex (\<lambda>v. v \<noteq> None) (cost_values c),
       ''partial cost requires at least one measurement'')]"

definition nonneg_option :: "rat option \<Rightarrow> bool" where
  "nonneg_option v \<longleftrightarrow> (case v of None \<Rightarrow> True | Some x \<Rightarrow> 0 \<le> x)"

definition valid_cost :: "cost_record \<Rightarrow> bool" where
  "valid_cost c \<longleftrightarrow> list_all nonneg_option (cost_values c) \<and> is_text (cost_note c)
     \<and> passes (cost_checks c)"

definition valid_costs :: "cost_record list \<Rightarrow> bool" where
  "valid_costs cs \<longleftrightarrow> cs \<noteq> [] \<and> list_all valid_cost cs"

record provenance =
  prov_producer :: string
  prov_producer_version :: string
  prov_created_at :: utc_datetime
  prov_inputs :: "artifact_ref list"
  prov_evidence :: "evidence_record list"

definition valid_provenance :: "provenance \<Rightarrow> bool" where
  "valid_provenance p \<longleftrightarrow> is_text (prov_producer p) \<and> is_text (prov_producer_version p)
     \<and> list_all valid_ref (prov_inputs p) \<and> valid_evidence (prov_evidence p)"

section \<open>Policies and limits\<close>

record resource_limits =
  rl_wall_seconds :: rat
  rl_cpu_seconds :: rat
  rl_memory_bytes :: int
  rl_pids :: int
  rl_output_bytes :: int
  rl_disk_bytes :: int
  rl_tool_calls :: int
  rl_input_tokens :: int
  rl_output_tokens :: int

definition valid_resource_limits :: "resource_limits \<Rightarrow> bool" where
  "valid_resource_limits l \<longleftrightarrow> 0 < rl_wall_seconds l \<and> 0 < rl_cpu_seconds l
     \<and> list_all (\<lambda>n. 0 < n)
         [rl_memory_bytes l, rl_pids l, rl_output_bytes l, rl_disk_bytes l, rl_tool_calls l,
          rl_input_tokens l, rl_output_tokens l]"

record seed_policy =
  sp_algorithm :: string
  sp_seeds :: "int list"
  sp_same_cases_within_group :: bool

definition valid_seed_policy :: "seed_policy \<Rightarrow> bool" where
  "valid_seed_policy p \<longleftrightarrow> is_text (sp_algorithm p) \<and> sp_seeds p \<noteq> []
     \<and> list_all (\<lambda>s. 0 \<le> s) (sp_seeds p)"

record model_identity =
  mi_provider :: string
  mi_model :: string
  mi_revision :: string
  mi_weights :: "artifact_ref option"
  mi_tokenizer_digest :: "digest option"

definition valid_model_identity :: "model_identity \<Rightarrow> bool" where
  "valid_model_identity m \<longleftrightarrow> is_text (mi_provider m) \<and> is_text (mi_model m)
     \<and> is_text (mi_revision m) \<and> option_all valid_ref (mi_weights m)
     \<and> option_all is_digest (mi_tokenizer_digest m)"

record policy_config =
  pc_identity :: model_identity
  pc_policy_version :: string
  pc_temperature :: rat
  pc_top_p :: rat
  pc_seed :: int
  pc_system_prompt :: artifact_ref
  pc_harness_version :: string
  pc_require_token_probabilities :: bool

definition valid_policy_config :: "policy_config \<Rightarrow> bool" where
  "valid_policy_config p \<longleftrightarrow> valid_model_identity (pc_identity p)
     \<and> is_identifier (pc_policy_version p) \<and> 0 \<le> pc_temperature p
     \<and> 0 \<le> pc_top_p p \<and> pc_top_p p \<le> 1 \<and> 0 \<le> pc_seed p
     \<and> valid_ref (pc_system_prompt p) \<and> is_text (pc_harness_version p)"

record training_config =
  tc_initial_policy :: policy_config
  tc_reference_checkpoint :: artifact_ref
  tc_tasks :: "artifact_ref list"
  tc_limits :: resource_limits
  tc_seeds :: seed_policy
  tc_group_size :: int
  tc_max_updates :: int
  tc_learning_rate :: rat
  tc_framework :: string
  tc_framework_version :: string
  tc_backend_version :: string
  tc_budget_usd :: "rat option"

definition valid_training_config :: "training_config \<Rightarrow> bool" where
  "valid_training_config t \<longleftrightarrow> valid_policy_config (tc_initial_policy t)
     \<and> valid_ref (tc_reference_checkpoint t) \<and> tc_tasks t \<noteq> [] \<and> list_all valid_ref (tc_tasks t)
     \<and> valid_resource_limits (tc_limits t) \<and> valid_seed_policy (tc_seeds t)
     \<and> 2 \<le> tc_group_size t \<and> 0 < tc_max_updates t \<and> 0 < tc_learning_rate t
     \<and> list_all is_text [tc_framework t, tc_framework_version t, tc_backend_version t]
     \<and> nonneg_option (tc_budget_usd t)"

datatype arm_name = Arm_base | Arm_feature_grpo
datatype metric_name = Metric_pass_at_1 | Metric_best_of_k

record evaluation_arm =
  ea_arm :: arm_name
  ea_policy :: policy_config
  ea_checkpoint :: artifact_ref
  ea_training_config :: "artifact_ref option"

definition valid_evaluation_arm :: "evaluation_arm \<Rightarrow> bool" where
  "valid_evaluation_arm a \<longleftrightarrow> valid_policy_config (ea_policy a) \<and> valid_ref (ea_checkpoint a)
     \<and> option_all valid_ref (ea_training_config a)"

record evaluation_config =
  ec_tasks :: "artifact_ref list"
  ec_arms :: "evaluation_arm list"
  ec_limits :: resource_limits
  ec_seeds :: seed_policy
  ec_partition :: partition
  ec_harness_version :: string
  ec_checkpoint_selection_rule :: string
  ec_invalid_trial_rule :: string
  ec_metric :: metric_name
  ec_episodes_per_trial :: int
  ec_frozen_roster :: artifact_ref
  ec_preregistration :: artifact_ref

definition metric_contract_checks :: "evaluation_config \<Rightarrow> checks" where
  "metric_contract_checks c =
     [(ec_metric c = Metric_pass_at_1 \<and> ec_episodes_per_trial c \<noteq> 1,
       ''pass_at_1 permits exactly one episode''),
      (\<not> distinct (map ea_arm (ec_arms c)), ''duplicate evaluation arm'')]"

definition valid_evaluation_config :: "evaluation_config \<Rightarrow> bool" where
  "valid_evaluation_config c \<longleftrightarrow> ec_tasks c \<noteq> [] \<and> list_all valid_ref (ec_tasks c)
     \<and> ec_arms c \<noteq> [] \<and> list_all valid_evaluation_arm (ec_arms c)
     \<and> valid_resource_limits (ec_limits c) \<and> valid_seed_policy (ec_seeds c)
     \<and> list_all is_text [ec_harness_version c, ec_checkpoint_selection_rule c, ec_invalid_trial_rule c]
     \<and> 0 < ec_episodes_per_trial c \<and> valid_ref (ec_frozen_roster c)
     \<and> valid_ref (ec_preregistration c) \<and> passes (metric_contract_checks c)"

section \<open>Operation results\<close>

datatype operation = Op_construct | Op_qualify | Op_release | Op_run | Op_grade | Op_audit
  | Op_train | Op_evaluate

fun operation_value :: "operation \<Rightarrow> string" where
  "operation_value Op_construct = ''construct''"
| "operation_value Op_qualify = ''qualify''"
| "operation_value Op_release = ''release''"
| "operation_value Op_run = ''run''"
| "operation_value Op_grade = ''grade''"
| "operation_value Op_audit = ''audit''"
| "operation_value Op_train = ''train''"
| "operation_value Op_evaluate = ''evaluate''"

lemma operation_value_inject [simp]: "operation_value a = operation_value b \<longleftrightarrow> a = b"
  by (cases a; cases b) simp_all

record operation_result =
  or_operation :: operation
  or_disposition :: disposition
  or_artifacts :: "artifact_ref list"
  or_evidence :: "evidence_record list"
  or_costs :: "cost_record list"
  or_reason :: string

definition successful_evidence_checks :: "operation_result \<Rightarrow> checks" where
  "successful_evidence_checks r =
     [(or_disposition r = D_SUCCESS \<and> (or_evidence r = [] \<or> or_artifacts r = []),
       ''success requires output artifacts and evidence''),
      (or_disposition r = D_SUCCESS \<and> \<not> list_ex (\<lambda>e. ev_exit_status e = 0) (or_evidence r),
       ''success requires a successful producer receipt'')]"

definition valid_operation_result :: "operation_result \<Rightarrow> bool" where
  "valid_operation_result r \<longleftrightarrow> list_all valid_ref (or_artifacts r)
     \<and> list_all valid_evidence_record (or_evidence r) \<and> valid_costs (or_costs r)
     \<and> is_text (or_reason r) \<and> passes (successful_evidence_checks r)"

lemmas [valid_defs] =
  valid_ref_def valid_evidence_record_def valid_evidence_def valid_cost_def valid_costs_def
  valid_provenance_def valid_resource_limits_def valid_seed_policy_def valid_model_identity_def
  valid_policy_config_def valid_training_config_def valid_evaluation_arm_def
  valid_evaluation_config_def valid_operation_result_def

end
