(* ===== verification/Json.thy ===== *)
theory Json
  imports Contracts
begin

text \<open>
  \<^verbatim>\<open>canonical_json\<close> of \<^verbatim>\<open>artifacts/store.py\<close>: sorted keys, compact separators, UTF-8. The byte string of
  a value determines the value up to the order of its keys (\<open>canonical_json_inject\<close>), which is what
  makes content identities meaningful, and never contains a raw newline
  (\<open>canonical_json_no_newline\<close>), which is what makes the registry's line journal readable.
  \<open>identity\<close> is the SHA-256 of the canonical bytes; the digest function and Python's rendering of
  floats are the fields of \<open>runtime\<close>.
\<close>

section \<open>JSON values\<close>

datatype json =
    JNull
  | JBool bool
  | JInt int
  | JFloat rat
  | JStr string
  | JArr "json list"
  | JObj "(string \<times> json) list"

text \<open>
  What the development takes from outside the repository: \<open>hashlib.sha256(data).hexdigest()\<close> and
  \<open>float.__repr__\<close>.
\<close>

record runtime =
  sha256 :: "string \<Rightarrow> digest"
  float_repr :: "rat \<Rightarrow> string"

section \<open>Rendering\<close>

definition hex_digit :: "nat \<Rightarrow> char" where
  "hex_digit n = ''0123456789abcdef'' ! n"

text \<open>\<open>json.dumps\<close> with \<open>ensure_ascii=False\<close> escapes the quote, the backslash and control characters.\<close>

definition escape_char :: "char \<Rightarrow> string" where
  "escape_char c =
     (if c = CHR 0x22 then [CHR 0x5C, CHR 0x22]
      else if c = CHR 0x5C then [CHR 0x5C, CHR 0x5C]
      else if c = CHR 0x08 then [CHR 0x5C, CHR ''b'']
      else if c = CHR 0x0C then [CHR 0x5C, CHR ''f'']
      else if c = CHR 0x0A then [CHR 0x5C, CHR ''n'']
      else if c = CHR 0x0D then [CHR 0x5C, CHR ''r'']
      else if c = CHR 0x09 then [CHR 0x5C, CHR ''t'']
      else if (of_char c :: nat) < 32
      then [CHR 0x5C, CHR ''u'', CHR ''0'', CHR ''0'',
            hex_digit (of_char c div 16), hex_digit (of_char c mod 16)]
      else [c])"

definition dump_string :: "string \<Rightarrow> string" where
  "dump_string s = CHR 0x22 # concat (map escape_char s) @ [CHR 0x22]"

fun nat_digits :: "nat \<Rightarrow> string" where
  "nat_digits n =
     (if n < 10 then [hex_digit n] else nat_digits (n div 10) @ [hex_digit (n mod 10)])"

declare nat_digits.simps [simp del]

definition int_repr :: "int \<Rightarrow> string" where
  "int_repr i = (if i < 0 then CHR ''-'' # nat_digits (nat (- i)) else nat_digits (nat i))"

fun commas :: "string list \<Rightarrow> string" where
  "commas [] = []"
| "commas [x] = x"
| "commas (x # y # zs) = x @ CHR '','' # commas (y # zs)"

fun canonical_json :: "runtime \<Rightarrow> json \<Rightarrow> string" where
  "canonical_json rt JNull = ''null''"
| "canonical_json rt (JBool b) = (if b then ''true'' else ''false'')"
| "canonical_json rt (JInt i) = int_repr i"
| "canonical_json rt (JFloat x) = float_repr rt x"
| "canonical_json rt (JStr s) = dump_string s"
| "canonical_json rt (JArr xs) = CHR ''['' # commas (map (canonical_json rt) xs) @ '']''"
| "canonical_json rt (JObj kvs) =
     CHR ''{'' # commas (map (\<lambda>(k, t). dump_string k @ CHR '':'' # t)
       (sort_key fst (map (\<lambda>kv. (fst kv, canonical_json rt (snd kv))) kvs))) @ ''}''"

definition identity :: "runtime \<Rightarrow> json \<Rightarrow> digest" where
  "identity rt v = sha256 rt (canonical_json rt v)"

section \<open>The value up to key order\<close>

fun sorted_json :: "json \<Rightarrow> json" where
  "sorted_json (JArr xs) = JArr (map sorted_json xs)"
| "sorted_json (JObj kvs) = JObj (sort_key fst (map (\<lambda>kv. (fst kv, sorted_json (snd kv))) kvs))"
| "sorted_json j = j"

definition same_json :: "json \<Rightarrow> json \<Rightarrow> bool" where
  "same_json a b \<longleftrightarrow> sorted_json a = sorted_json b"

text \<open>Rendering without sorting, the auxiliary printer of the proofs.\<close>

fun plain_json :: "runtime \<Rightarrow> json \<Rightarrow> string" where
  "plain_json rt JNull = ''null''"
| "plain_json rt (JBool b) = (if b then ''true'' else ''false'')"
| "plain_json rt (JInt i) = int_repr i"
| "plain_json rt (JFloat x) = float_repr rt x"
| "plain_json rt (JStr s) = dump_string s"
| "plain_json rt (JArr xs) = CHR ''['' # commas (map (plain_json rt) xs) @ '']''"
| "plain_json rt (JObj kvs) =
     CHR ''{'' # commas (map (\<lambda>kv. dump_string (fst kv) @ CHR '':'' # plain_json rt (snd kv)) kvs) @ ''}''"

lemma sort_key_map_snd:
  "sort_key fst (map (\<lambda>kv. (fst kv, f (snd kv))) kvs) = map (\<lambda>kv. (fst kv, f (snd kv))) (sort_key fst kvs)"
proof (induction kvs)
  case (Cons p kvs)
  have "insort_key fst (fst p, f (snd p)) (map (\<lambda>kv. (fst kv, f (snd kv))) ys)
      = map (\<lambda>kv. (fst kv, f (snd kv))) (insort_key fst p ys)" for ys
    by (induction ys) auto
  with Cons show ?case by simp
qed simp

lemma sort_key_idem: "sort_key fst (sort_key fst kvs) = sort_key fst kvs"
  by (rule sort_key_id_if_sorted) simp

lemma canonical_is_plain_sorted: "canonical_json rt j = plain_json rt (sorted_json j)"
proof (induction j)
  case (JArr xs)
  then have "map (canonical_json rt) xs = map (plain_json rt) (map sorted_json xs)"
    by (induction xs) auto
  then show ?case by (simp only: canonical_json.simps sorted_json.simps plain_json.simps)
next
  case (JObj kvs)
  then have "map (\<lambda>kv. (fst kv, canonical_json rt (snd kv))) kvs
      = map (\<lambda>kv. (fst kv, plain_json rt (snd kv))) (map (\<lambda>kv. (fst kv, sorted_json (snd kv))) kvs)"
    by (auto simp: snds.simps)
  then show ?case
    by (simp only: canonical_json.simps sorted_json.simps plain_json.simps sort_key_map_snd)
      (simp add: comp_def case_prod_unfold)
qed auto

section \<open>The canonical bytes determine the value\<close>

text \<open>What may follow a rendered value inside a document: nothing, a comma or a closing bracket.\<close>

definition is_stop :: "char \<Rightarrow> bool" where
  "is_stop c \<longleftrightarrow> c \<in> set '',]}''"

definition stops :: "string \<Rightarrow> bool" where
  "stops r \<longleftrightarrow> (case r of [] \<Rightarrow> True | c # _ \<Rightarrow> is_stop c)"

lemma stops_simps [simp]: "stops []" "stops (c # r) \<longleftrightarrow> is_stop c"
  by (simp_all add: stops_def)

definition number_char :: "char \<Rightarrow> bool" where
  "number_char c \<longleftrightarrow> c \<in> set ''0123456789+-.e''"

text \<open>
  What the renderings of finite floats satisfy: different floats render differently, the text
  consists of digits, signs, a point and an exponent mark, and at least one of the last two occurs.
\<close>

definition float_text_ok :: "runtime \<Rightarrow> bool" where
  "float_text_ok rt \<longleftrightarrow> inj (float_repr rt)
     \<and> (\<forall>x. list_all number_char (float_repr rt x) \<and> list_ex (\<lambda>c. c \<in> set ''.e'') (float_repr rt x))"

lemma takeWhile_until_stop:
  "list_all (\<lambda>c. \<not> is_stop c) x \<Longrightarrow> stops r \<Longrightarrow> takeWhile (\<lambda>c. \<not> is_stop c) (x @ r) = x"
  by (induction x) (auto simp: stops_def split: list.splits)

lemma token_inject:
  assumes "x @ r = y @ s" "list_all (\<lambda>c. \<not> is_stop c) x" "list_all (\<lambda>c. \<not> is_stop c) y"
    "stops r" "stops s"
  shows "x = y \<and> r = s"
proof -
  have "x = y" using assms by (metis takeWhile_until_stop)
  with assms(1) show ?thesis by simp
qed

lemma less_10_cases: "(n::nat) < 10 \<Longrightarrow> n \<in> {0, 1, 2, 3, 4, 5, 6, 7, 8, 9}"
  by auto

lemma hex_digit_small: "n < 10 \<Longrightarrow> hex_digit n \<in> set ''0123456789'' \<and> (of_char (hex_digit n) :: nat) = 48 + n"
  by (drule less_10_cases) (auto simp: hex_digit_def)

lemma hex_digit_inject: "m < 16 \<Longrightarrow> n < 16 \<Longrightarrow> hex_digit m = hex_digit n \<Longrightarrow> m = n"
  unfolding hex_digit_def by (subst (asm) nth_eq_iff_index_eq) auto

lemma nat_digits_chars: "set (nat_digits n) \<subseteq> set ''0123456789'' \<and> nat_digits n \<noteq> []"
proof (induction n rule: nat_digits.induct)
  case (1 n)
  show ?case
  proof (cases "n < 10")
    case True
    then show ?thesis using hex_digit_small [of n] by (subst (1 2) nat_digits.simps) simp
  next
    case False
    then show ?thesis using 1 hex_digit_small [of "n mod 10"]
      by (subst (1 2) nat_digits.simps) simp
  qed
qed

definition digits_value :: "string \<Rightarrow> nat" where
  "digits_value s = foldl (\<lambda>a c. 10 * a + (of_char c - 48)) 0 s"

lemma digits_value_nat_digits: "digits_value (nat_digits n) = n"
proof (induction n rule: nat_digits.induct)
  case (1 n)
  show ?case
  proof (cases "n < 10")
    case True
    then show ?thesis
      using hex_digit_small [of n] by (subst nat_digits.simps) (simp add: digits_value_def)
  next
    case False
    with 1 have "digits_value (nat_digits (n div 10)) = n div 10" by simp
    with False show ?thesis
      using hex_digit_small [of "n mod 10"] by (subst nat_digits.simps) (simp add: digits_value_def)
  qed
qed

lemma nat_digits_inject [simp]: "nat_digits m = nat_digits n \<longleftrightarrow> m = n"
  by (metis digits_value_nat_digits)

lemma int_repr_chars:
  "set (int_repr i) \<subseteq> set ''-0123456789'' \<and> int_repr i \<noteq> []"
proof -
  have "set (nat_digits n) \<subseteq> set ''-0123456789''" for n
    using nat_digits_chars [of n] by (rule conjunct1 [THEN subset_trans]) simp
  then show ?thesis using nat_digits_chars by (simp add: int_repr_def)
qed

lemma nat_digits_no_sign: "nat_digits n \<noteq> CHR ''-'' # t"
  using nat_digits_chars [of n] by auto

lemma int_repr_inject [simp]: "int_repr i = int_repr j \<longleftrightarrow> i = j"
  using nat_digits_no_sign [of "nat i"] nat_digits_no_sign [of "nat j"]
  by (auto simp: int_repr_def split: if_splits) (metis nat_digits_no_sign)+

subsection \<open>Strings\<close>

lemma escape_char_head:
  "\<exists>t. escape_char c = (if c = CHR 0x22 \<or> c = CHR 0x5C \<or> (of_char c :: nat) < 32
                        then CHR 0x5C # t else [c])"
  by (auto simp: escape_char_def)

lemma control_inject:
  assumes "(of_char c :: nat) < 32" "(of_char d :: nat) < 32"
    and "hex_digit (of_char c div 16) = hex_digit (of_char d div 16)"
    and "hex_digit (of_char c mod 16) = hex_digit (of_char d mod 16)"
  shows "c = d"
proof -
  have "(of_char c :: nat) div 16 = of_char d div 16"
    using assms(1,2,3) by (intro hex_digit_inject) auto
  moreover have "(of_char c :: nat) mod 16 = of_char d mod 16"
    using assms(4) by (intro hex_digit_inject) auto
  ultimately have "(of_char c :: nat) = of_char d" by (metis div_mult_mod_eq)
  then show ?thesis by simp
qed

lemma escape_char_prefix:
  "escape_char c @ x = escape_char d @ y \<Longrightarrow> c = d \<and> x = y"
  unfolding escape_char_def by (auto split: if_splits dest: control_inject)

lemma escape_char_not_quote: "escape_char c @ x \<noteq> CHR 0x22 # y"
  unfolding escape_char_def by auto

lemma concat_escape_inject:
  "concat (map escape_char a) @ CHR 0x22 # r = concat (map escape_char b) @ CHR 0x22 # s
     \<Longrightarrow> a = b \<and> r = s"
proof (induction a arbitrary: b)
  case Nil
  then show ?case
    by (cases b) (auto dest: sym [of "CHR 0x22 # _"] simp: escape_char_not_quote)
next
  case (Cons c a)
  show ?case
  proof (cases b)
    case Nil
    with Cons.prems show ?thesis by (simp add: escape_char_not_quote)
  next
    case (Cons d b')
    with Cons.prems have "escape_char c @ concat (map escape_char a) @ CHR 0x22 # r
        = escape_char d @ concat (map escape_char b') @ CHR 0x22 # s"
      by simp
    from escape_char_prefix [OF this] Cons.IH [of b'] Cons show ?thesis by auto
  qed
qed

lemma dump_string_prefix: "dump_string a @ r = dump_string b @ s \<Longrightarrow> a = b \<and> r = s"
  using concat_escape_inject [of a r b s] by (simp add: dump_string_def)

lemma dump_string_inject [simp]: "dump_string a = dump_string b \<longleftrightarrow> a = b"
  using dump_string_prefix [of a "[]" b "[]"] by auto

subsection \<open>Values\<close>

text \<open>The characters a rendered value can start with tell its constructor, numbers apart.\<close>

fun lead :: "json \<Rightarrow> char set" where
  "lead JNull = {CHR ''n''}"
| "lead (JBool b) = {if b then CHR ''t'' else CHR ''f''}"
| "lead (JInt i) = Collect number_char"
| "lead (JFloat x) = Collect number_char"
| "lead (JStr t) = {CHR 0x22}"
| "lead (JArr xs) = {CHR ''[''}"
| "lead (JObj kvs) = {CHR ''{''}"

lemma number_char_literals [simp]:
  "\<not> number_char CHR ''n''" "\<not> number_char CHR ''t''" "\<not> number_char CHR ''f''"
  "\<not> number_char CHR 0x22" "\<not> number_char CHR ''[''" "\<not> number_char CHR ''{''"
  by (simp_all add: number_char_def)

lemma int_repr_number: "list_all number_char (int_repr i)"
proof -
  have "set ''-0123456789'' \<subseteq> Collect number_char" by (simp add: number_char_def)
  with int_repr_chars [of i] have "set (int_repr i) \<subseteq> Collect number_char"
    by (rule subset_trans [OF conjunct1])
  then show ?thesis by (auto simp: list_all_iff)
qed

lemma number_not_stop: "number_char c \<Longrightarrow> \<not> is_stop c"
  by (auto simp: number_char_def is_stop_def)

lemma number_token_not_stop: "list_all number_char x \<Longrightarrow> list_all (\<lambda>c. \<not> is_stop c) x"
  by (auto simp: list_all_iff number_not_stop)

lemma float_reprD:
  assumes "float_text_ok rt"
  shows "list_all number_char (float_repr rt x)" "float_repr rt x \<noteq> []"
    "float_repr rt x \<noteq> int_repr i" "float_repr rt x = float_repr rt y \<longleftrightarrow> x = y"
proof -
  have *: "list_ex (\<lambda>c. c \<in> set ''.e'') (float_repr rt x)"
    using assms by (simp add: float_text_ok_def)
  then show "float_repr rt x \<noteq> []" by auto
  show "list_all number_char (float_repr rt x)" using assms by (simp add: float_text_ok_def)
  show "float_repr rt x \<noteq> int_repr i"
    using * int_repr_chars [of i] by (auto simp: list_ex_iff)
  show "float_repr rt x = float_repr rt y \<longleftrightarrow> x = y"
    using assms by (auto simp: float_text_ok_def dest: injD)
qed

lemma hd_in_lead:
  assumes "float_text_ok rt"
  shows "plain_json rt j \<noteq> [] \<and> hd (plain_json rt j) \<in> lead j"
proof (cases j)
  case (JInt i)
  then show ?thesis
    using int_repr_number [of i] int_repr_chars [of i] by (cases "int_repr i") auto
next
  case (JFloat x)
  then show ?thesis
    using float_reprD [OF assms, of x] by (cases "float_repr rt x") auto
qed (auto simp: dump_string_def)

lemma lead_not_stop: "c \<in> lead j \<Longrightarrow> \<not> is_stop c"
  by (cases j) (auto simp: number_char_def is_stop_def split: if_splits)

text \<open>Comma-separated sequences of self-delimiting pieces are self-delimiting.\<close>

lemma commas_prefix:
  assumes piece: "\<And>x y r s. x \<in> set xs \<Longrightarrow> f x @ r = f y @ s \<Longrightarrow> stops r \<Longrightarrow> stops s \<Longrightarrow> x = y \<and> r = s"
    and start: "\<And>x r. \<not> stops (f x @ r)" and stop: "is_stop q" "q \<noteq> CHR '',''"
    and eq: "commas (map f xs) @ q # r = commas (map f ys) @ q # s"
  shows "xs = ys \<and> r = s"
  using piece eq
proof (induction xs arbitrary: ys)
  case Nil
  then show ?case
  proof (cases ys)
    case (Cons y ys')
    have "\<not> stops (commas (map f ys) @ q # s)"
      using start [of y] Cons by (cases ys') auto
    with Nil stop show ?thesis by (metis commas.simps(1) list.simps(8) append_Nil stops_simps(2))
  qed simp
next
  case (Cons x xs)
  have IH: "commas (map f xs) @ q # r = commas (map f ys') @ q # s \<Longrightarrow> xs = ys' \<and> r = s" for ys'
    by (rule Cons.IH) (use Cons.prems(1) in auto)
  show ?case
  proof (cases ys)
    case Nil
    have "\<not> stops (commas (map f (x # xs)) @ q # r)"
      using start [of x] by (cases xs) auto
    with Nil Cons.prems(2) stop show ?thesis by simp
  next
    case ys: (Cons y ys')
    let ?r = "case xs of [] \<Rightarrow> q # r | _ \<Rightarrow> CHR '','' # commas (map f xs) @ q # r"
    let ?s = "case ys' of [] \<Rightarrow> q # s | _ \<Rightarrow> CHR '','' # commas (map f ys') @ q # s"
    have "f x @ ?r = f y @ ?s"
      using Cons.prems(2) ys by (cases xs; cases ys') auto
    moreover have "stops ?r" "stops ?s"
      using stop(1) by (auto simp: is_stop_def split: list.splits)
    ultimately have "x = y" and rest: "?r = ?s" using Cons.prems(1) [of x ?r y ?s] by simp_all
    have "xs = ys' \<and> r = s"
    proof (cases "xs = [] \<or> ys' = []")
      case True
      with rest stop(2) show ?thesis by (auto split: list.splits)
    next
      case False
      with rest have "commas (map f xs) @ q # r = commas (map f ys') @ q # s"
        by (auto split: list.splits)
      then show ?thesis by (rule IH)
    qed
    with ys \<open>x = y\<close> show ?thesis by simp
  qed
qed

lemma same_lead:
  assumes "float_text_ok rt" and "plain_json rt a @ r = plain_json rt b @ s"
  shows "\<exists>c. c \<in> lead a \<and> c \<in> lead b"
  using hd_in_lead [OF assms(1), of a] hd_in_lead [OF assms(1), of b] assms(2)
  by (cases "plain_json rt a"; cases "plain_json rt b") auto

lemma number_prefix:
  assumes "x @ r = y @ s" "list_all number_char x" "list_all number_char y" "stops r" "stops s"
  shows "x = y \<and> r = s"
  by (rule token_inject [OF assms(1) number_token_not_stop [OF assms(2)]
        number_token_not_stop [OF assms(3)] assms(4,5)])

theorem plain_json_prefix:
  assumes ok: "float_text_ok rt"
  shows "plain_json rt a @ r = plain_json rt b @ s \<Longrightarrow> stops r \<Longrightarrow> stops s \<Longrightarrow> a = b \<and> r = s"
proof (induction a arbitrary: b r s)
  case (JArr xs)
  from same_lead [OF ok JArr.prems(1)] obtain ys where b: "b = JArr ys"
    by (cases b) (auto split: if_splits)
  have start: "\<not> stops (plain_json rt x @ t)" for x t
    using hd_in_lead [OF ok, of x] lead_not_stop by (cases "plain_json rt x") auto
  have "xs = ys \<and> r = s"
    by (rule commas_prefix [of xs "plain_json rt" "CHR '']''", OF JArr.IH start])
      (use JArr.prems b in \<open>simp_all add: is_stop_def\<close>)
  with b show ?case by simp
next
  case (JObj kvs)
  from same_lead [OF ok JObj.prems(1)] obtain lvs where b: "b = JObj lvs"
    by (cases b) (auto split: if_splits)
  let ?f = "\<lambda>kv. dump_string (fst kv) @ CHR '':'' # plain_json rt (snd kv)"
  have "p = p' \<and> t = t'" if "p \<in> set kvs" "?f p @ t = ?f p' @ t'" "stops t" "stops t'" for p p' t t'
  proof -
    from that(2) have "fst p = fst p'" "plain_json rt (snd p) @ t = plain_json rt (snd p') @ t'"
      using dump_string_prefix [of "fst p" "CHR '':'' # plain_json rt (snd p) @ t"
        "fst p'" "CHR '':'' # plain_json rt (snd p') @ t'"] by auto
    with JObj.IH [of p "snd p"] that show ?thesis by (metis prod_eqI snds.intros)
  qed
  moreover have "\<not> stops (?f p @ t)" for p t
    by (simp add: dump_string_def is_stop_def)
  ultimately have "kvs = lvs \<and> r = s"
    by (rule commas_prefix [of kvs ?f "CHR ''}''"])
      (use JObj.prems b in \<open>simp_all add: is_stop_def\<close>)
  with b show ?case by simp
next
  case (JInt i)
  from same_lead [OF ok JInt.prems(1)] have "(\<exists>j. b = JInt j) \<or> (\<exists>x. b = JFloat x)"
    by (cases b) (auto split: if_splits)
  then show ?case
  proof
    assume "\<exists>j. b = JInt j"
    then obtain j where b: "b = JInt j" ..
    have "int_repr i = int_repr j \<and> r = s"
      by (rule number_prefix [OF _ int_repr_number int_repr_number])
        (use JInt.prems b in simp_all)
    with b show ?case by simp
  next
    assume "\<exists>x. b = JFloat x"
    then obtain x where b: "b = JFloat x" ..
    have "int_repr i = float_repr rt x \<and> r = s"
      by (rule number_prefix [OF _ int_repr_number float_reprD(1) [OF ok]])
        (use JInt.prems b in simp_all)
    then show ?case using float_reprD(3) [OF ok, of x i] by simp
  qed
next
  case (JFloat x)
  from same_lead [OF ok JFloat.prems(1)] have "(\<exists>j. b = JInt j) \<or> (\<exists>x. b = JFloat x)"
    by (cases b) (auto split: if_splits)
  then show ?case
  proof
    assume "\<exists>j. b = JInt j"
    then obtain j where b: "b = JInt j" ..
    have "float_repr rt x = int_repr j \<and> r = s"
      by (rule number_prefix [OF _ float_reprD(1) [OF ok] int_repr_number])
        (use JFloat.prems b in simp_all)
    then show ?case using float_reprD(3) [OF ok] by simp
  next
    assume "\<exists>y. b = JFloat y"
    then obtain y where b: "b = JFloat y" ..
    have "float_repr rt x = float_repr rt y \<and> r = s"
      by (rule number_prefix [OF _ float_reprD(1) [OF ok] float_reprD(1) [OF ok]])
        (use JFloat.prems b in simp_all)
    with b show ?case using float_reprD(4) [OF ok] by simp
  qed
next
  case (JStr t)
  from same_lead [OF ok JStr.prems(1)] obtain u where b: "b = JStr u"
    by (cases b) (auto split: if_splits)
  have "t = u \<and> r = s" by (rule dump_string_prefix) (use JStr.prems b in simp)
  with b show ?case by simp
next
  case JNull
  from same_lead [OF ok JNull.prems(1)] have "b = JNull"
    by (cases b) (auto split: if_splits)
  with JNull show ?case by simp
next
  case (JBool x)
  from same_lead [OF ok JBool.prems(1)] have "b = JBool x"
    by (cases b) (auto split: if_splits)
  with JBool show ?case by simp
qed

lemma canonical_json_eq_iff:
  assumes "float_text_ok rt"
  shows "canonical_json rt a = canonical_json rt b \<longleftrightarrow> same_json a b"
  using plain_json_prefix [OF assms, of "sorted_json a" "[]" "sorted_json b" "[]"]
  by (auto simp: canonical_is_plain_sorted same_json_def)

section \<open>No raw newline\<close>

text \<open>A newline is escaped inside strings and occurs nowhere else.\<close>

definition newline_free :: "string \<Rightarrow> bool" where
  "newline_free s \<longleftrightarrow> CHR 0x0A \<notin> set s"

lemma newline_free_simps [simp]:
  "newline_free []"
  "newline_free (c # s) \<longleftrightarrow> c \<noteq> CHR 0x0A \<and> newline_free s"
  "newline_free (s @ t) \<longleftrightarrow> newline_free s \<and> newline_free t"
  by (auto simp: newline_free_def)

lemma number_newline_free: "list_all number_char s \<Longrightarrow> newline_free s"
  by (induction s) (auto simp: number_char_def)

lemma hex_digit_not_newline: "n < 16 \<Longrightarrow> hex_digit n \<noteq> CHR 0x0A"
proof -
  assume "n < 16"
  then have "hex_digit n \<in> set ''0123456789abcdef''"
    unfolding hex_digit_def by (intro nth_mem) simp
  then show ?thesis by auto
qed

lemma escape_char_newline_free: "newline_free (escape_char c)"
  using hex_digit_not_newline [of "of_char c div 16"] hex_digit_not_newline [of "of_char c mod 16"]
  by (auto simp: escape_char_def)

lemma dump_string_newline_free: "newline_free (dump_string s)"
proof -
  have "newline_free (concat (map escape_char s))"
    by (induction s) (simp_all add: escape_char_newline_free)
  then show ?thesis by (simp add: dump_string_def)
qed

lemma commas_newline_free: "\<forall>x \<in> set xs. newline_free x \<Longrightarrow> newline_free (commas xs)"
  by (induction xs rule: commas.induct) auto

lemma plain_json_newline_free:
  assumes "float_text_ok rt"
  shows "newline_free (plain_json rt j)"
proof (induction j)
  case (JArr xs)
  then show ?case by (simp add: commas_newline_free)
next
  case (JObj kvs)
  then have "newline_free (plain_json rt (snd kv))" if "kv \<in> set kvs" for kv
    using that by (metis snds.intros)
  then show ?case by (auto intro!: commas_newline_free simp: dump_string_newline_free)
qed (simp_all add: dump_string_newline_free number_newline_free int_repr_number
       float_reprD(1) [OF assms])

lemma canonical_json_no_newline:
  "float_text_ok rt \<Longrightarrow> newline_free (canonical_json rt j)"
  by (simp add: canonical_is_plain_sorted plain_json_newline_free)

section \<open>Comparing documents field by field\<close>

named_theorems same_json_simps \<open>deciding \<open>same_json\<close> on rendered models\<close>

lemma same_json_atoms [same_json_simps, simp]:
  "same_json JNull b \<longleftrightarrow> b = JNull"
  "same_json a JNull \<longleftrightarrow> a = JNull"
  "same_json (JBool p) (JBool q) \<longleftrightarrow> p = q"
  "same_json (JInt i) (JInt j) \<longleftrightarrow> i = j"
  "same_json (JFloat x) (JFloat y) \<longleftrightarrow> x = y"
  "same_json (JStr s) (JStr t) \<longleftrightarrow> s = t"
  by (cases a; cases b; simp add: same_json_def)+

lemma same_json_arr [same_json_simps]:
  "same_json (JArr xs) (JArr ys) \<longleftrightarrow> list_all2 same_json xs ys"
  by (auto simp: same_json_def list_eq_iff_nth_eq list_all2_conv_all_nth)

lemma same_json_refl [simp]: "same_json a a"
  by (simp add: same_json_def)

lemma map_of_sort_key:
  assumes "distinct (map fst xs)"
  shows "map_of (sort_key fst xs) = map_of xs"
proof
  fix k
  have d: "distinct (map fst (sort_key fst xs))"
    using assms by (simp add: distinct_map)
  have "map_of (sort_key fst xs) k = Some v \<longleftrightarrow> map_of xs k = Some v" for v
    using in_dict_iff [OF d, of k v] in_dict_iff [OF assms, of k v] by simp
  then show "map_of (sort_key fst xs) k = map_of xs k"
    by (metis not_None_eq)
qed

lemma same_json_obj [same_json_simps]:
  assumes k: "map fst xs = map fst ys" and d: "distinct (map fst xs)"
  shows "same_json (JObj xs) (JObj ys) \<longleftrightarrow> list_all2 same_json (map snd xs) (map snd ys)"
proof
  let ?s = "\<lambda>kv. (fst kv, sorted_json (snd kv))"
  assume "same_json (JObj xs) (JObj ys)"
  then have "map_of (sort_key fst (map ?s xs)) = map_of (sort_key fst (map ?s ys))"
    by (simp add: same_json_def)
  then have eq: "map_of (map ?s xs) = map_of (map ?s ys)"
    using d k by (simp add: map_of_sort_key comp_def)
  have len: "length xs = length ys" using k by (metis length_map)
  have "sorted_json (snd (xs ! i)) = sorted_json (snd (ys ! i))" if i: "i < length xs" for i
  proof -
    have "fst (xs ! i) = fst (ys ! i)" using k i len by (metis nth_map)
    moreover have "map_of (map ?s xs) (fst (xs ! i)) = Some (sorted_json (snd (xs ! i)))"
      using d i by (intro map_of_is_SomeI) (auto simp: comp_def image_iff)
    moreover have "map_of (map ?s ys) (fst (ys ! i)) = Some (sorted_json (snd (ys ! i)))"
      using d k i len by (intro map_of_is_SomeI) (auto simp: comp_def image_iff)
    ultimately show ?thesis using eq by simp
  qed
  then show "list_all2 same_json (map snd xs) (map snd ys)"
    using len by (simp add: list_all2_conv_all_nth same_json_def)
next
  assume "list_all2 same_json (map snd xs) (map snd ys)"
  then have "map (\<lambda>kv. (fst kv, sorted_json (snd kv))) xs = map (\<lambda>kv. (fst kv, sorted_json (snd kv))) ys"
    using k by (auto simp: list_eq_iff_nth_eq list_all2_conv_all_nth same_json_def)
  then show "same_json (JObj xs) (JObj ys)" by (simp add: same_json_def)
qed

lemma same_json_map:
  "(\<And>x y. same_json (f x) (f y) \<longleftrightarrow> x = y) \<Longrightarrow> list_all2 same_json (map f xs) (map f ys) \<longleftrightarrow> xs = ys"
  by (simp add: list_all2_map1 list_all2_map2 list.rel_eq)

text \<open>A nullable field.\<close>

definition doc_option :: "('a \<Rightarrow> json) \<Rightarrow> 'a option \<Rightarrow> json" where
  "doc_option f x = (case x of None \<Rightarrow> JNull | Some y \<Rightarrow> f y)"

lemma same_json_option:
  "(\<And>x y. same_json (f x) (f y) \<longleftrightarrow> x = y) \<Longrightarrow> (\<And>x. f x \<noteq> JNull)
     \<Longrightarrow> same_json (doc_option f a) (doc_option f b) \<longleftrightarrow> a = b"
  by (auto simp: doc_option_def split: option.splits)

lemmas same_json_option_atoms [same_json_simps] =
  same_json_option [of JStr, simplified] same_json_option [of JInt, simplified]
  same_json_option [of JFloat, simplified]

lemma same_json_strings [same_json_simps]:
  "list_all2 same_json (map JStr xs) (map JStr ys) \<longleftrightarrow> xs = ys"
  by (rule same_json_map) simp

text \<open>
  Identities are the injective image of the documents of a set in which SHA-256 has no collision.
  No hash function is injective on all texts: the theorems name the documents they need.
\<close>

definition collision_free :: "runtime \<Rightarrow> json set \<Rightarrow> bool" where
  "collision_free rt U \<longleftrightarrow> float_text_ok rt \<and> inj_on (sha256 rt) (canonical_json rt ` U)"

lemma identity_eq_iff:
  "collision_free rt U \<Longrightarrow> a \<in> U \<Longrightarrow> b \<in> U \<Longrightarrow> identity rt a = identity rt b \<longleftrightarrow> same_json a b"
  unfolding collision_free_def identity_def
  using canonical_json_eq_iff [of rt a b] inj_on_eq_iff [of "sha256 rt" "canonical_json rt ` U"] by blast

lemma collision_free_subset: "collision_free rt U \<Longrightarrow> V \<subseteq> U \<Longrightarrow> collision_free rt V"
  by (auto simp: collision_free_def intro: inj_on_subset)

end
