(* ===== verification/RegistryModels.thy ===== *)
theory RegistryModels
  imports Json
begin

text \<open>
  \<^verbatim>\<open>registry/models.py\<close>: the controller-side registry values, the exception hierarchy, the limits
  with their capacity-expansion rule, jobs, attempts, accounting snapshots, quarantine notices and
  events; and \<^verbatim>\<open>document\<close> of \<^verbatim>\<open>registry/state.py\<close>, the JSON form of each value, which the content
  identities and the journal are computed from. Rendering is injective on every model an identity
  is taken of (the \<open>same_json\<close> lemmas).
\<close>

section \<open>Errors\<close>

text \<open>
  \<open>ArtifactError\<close> stands for an exception of the object store that passes through the registry
  unchanged; it carries the name of its class.
\<close>

datatype registry_error =
    RegistryIntegrityError string
  | RegistryIOError string
  | RegistryConflict string
  | RegistryLimit string
  | Backpressure string
  | AttemptLimit string
  | ClaimConflict string
  | StaleClaim string
  | QuarantinedError string
  | UnknownIdentity string
  | ValidationError string
  | KeyError string
  | ArtifactError string

text \<open>\<open>isinstance(e, RegistryConflict)\<close> and \<open>isinstance(e, RegistryLimit)\<close> along the class hierarchy.\<close>

fun is_conflict :: "registry_error \<Rightarrow> bool" where
  "is_conflict (RegistryConflict m) = True"
| "is_conflict (ClaimConflict m) = True"
| "is_conflict (StaleClaim m) = True"
| "is_conflict (QuarantinedError m) = True"
| "is_conflict _ = False"

fun is_limit :: "registry_error \<Rightarrow> bool" where
  "is_limit (RegistryLimit m) = True"
| "is_limit (Backpressure m) = True"
| "is_limit (AttemptLimit m) = True"
| "is_limit _ = False"

section \<open>Constrained fields\<close>

definition is_name_char :: "char \<Rightarrow> bool" where
  "is_name_char c \<longleftrightarrow> is_alnum c \<or> c \<in> set ''_.:-''"

definition is_name :: "string \<Rightarrow> bool" where
  "is_name s \<longleftrightarrow> int (length s) \<le> 200 \<and>
     (case s of [] \<Rightarrow> False | c # cs \<Rightarrow> is_alnum c \<and> list_all is_name_char cs)"

definition is_reason :: "string \<Rightarrow> bool" where
  "is_reason s \<longleftrightarrow> code_points s \<le> 4096 \<and> is_text s"

definition valid_refs :: "artifact_ref list \<Rightarrow> bool" where
  "valid_refs rs \<longleftrightarrow> int (length rs) \<le> 10000 \<and> list_all valid_ref rs"

section \<open>Limits\<close>

record registry_limits =
  max_active_jobs :: int
  max_jobs :: int
  max_attempts_per_job :: int
  max_artifacts :: int
  max_closure_artifacts :: int
  max_graph_edges :: int
  max_event_bytes :: int
  max_events :: int
  max_journal_bytes :: int
  max_database_bytes :: int
  max_artifact_envelope_bytes :: int
  max_artifact_payload_bytes :: int
  max_closure_bytes :: int
  lock_timeout_seconds :: rat

definition between :: "int \<Rightarrow> int \<Rightarrow> int \<Rightarrow> bool" where
  "between lo hi n \<longleftrightarrow> lo \<le> n \<and> n \<le> hi"

definition valid_limits :: "registry_limits \<Rightarrow> bool" where
  "valid_limits l \<longleftrightarrow>
     between 1 1024 (max_active_jobs l) \<and> between 1 100000 (max_jobs l)
   \<and> between 1 100 (max_attempts_per_job l) \<and> between 1 100000 (max_artifacts l)
   \<and> between 1 10000 (max_closure_artifacts l) \<and> between 1 100000 (max_graph_edges l)
   \<and> between 512 16777216 (max_event_bytes l) \<and> between 1 100000 (max_events l)
   \<and> between 1024 1073741824 (max_journal_bytes l)
   \<and> between 65536 1073741824 (max_database_bytes l)
   \<and> between 128 67108864 (max_artifact_envelope_bytes l)
   \<and> between 0 67108864 (max_artifact_payload_bytes l)
   \<and> between 128 1073741824 (max_closure_bytes l)
   \<and> 0 < lock_timeout_seconds l \<and> lock_timeout_seconds l \<le> 30"

definition default_limits :: registry_limits where
  "default_limits =
     \<lparr>max_active_jobs = 32, max_jobs = 1000, max_attempts_per_job = 3, max_artifacts = 10000,
      max_closure_artifacts = 256, max_graph_edges = 20000, max_event_bytes = 262144,
      max_events = 10000, max_journal_bytes = 67108864, max_database_bytes = 134217728,
      max_artifact_envelope_bytes = 8388608, max_artifact_payload_bytes = 4194304,
      max_closure_bytes = 33554432, lock_timeout_seconds = 1\<rparr>"

text \<open>The limits whose value only grows, in the order \<open>model_dump\<close> lists them.\<close>

definition growing_limits :: "registry_limits \<Rightarrow> int list" where
  "growing_limits l =
     [max_jobs l, max_artifacts l, max_closure_artifacts l, max_graph_edges l, max_event_bytes l,
      max_events l, max_journal_bytes l, max_database_bytes l, max_artifact_envelope_bytes l,
      max_artifact_payload_bytes l, max_closure_bytes l]"

record limit_expansion =
  le_previous_limits :: registry_limits
  le_limits :: registry_limits
  le_reason :: string

definition capacity_only_checks :: "limit_expansion \<Rightarrow> checks" where
  "capacity_only_checks e =
     (let prior = le_previous_limits e; later = le_limits e in
      [(max_active_jobs later \<noteq> max_active_jobs prior
          \<or> max_attempts_per_job later \<noteq> max_attempts_per_job prior
          \<or> lock_timeout_seconds later \<noteq> lock_timeout_seconds prior
          \<or> list_ex (\<lambda>(a, b). a < b) (zip (growing_limits later) (growing_limits prior)),
        ''capacity expansion cannot shrink limits or change execution/lock policy''),
       (prior = later, ''capacity expansion must increase a storage/count limit'')])"

definition valid_limit_expansion :: "limit_expansion \<Rightarrow> bool" where
  "valid_limit_expansion e \<longleftrightarrow> valid_limits (le_previous_limits e) \<and> valid_limits (le_limits e)
     \<and> is_reason (le_reason e) \<and> passes (capacity_only_checks e)"

section \<open>Artifacts, jobs and attempts\<close>

record artifact_record =
  rec_ref :: artifact_ref
  rec_dependencies :: "artifact_ref list"

definition valid_artifact_record :: "artifact_record \<Rightarrow> bool" where
  "valid_artifact_record r \<longleftrightarrow> valid_ref (rec_ref r) \<and> valid_refs (rec_dependencies r)"

record job_spec =
  spec_operation :: operation
  spec_inputs :: "artifact_ref list"
  spec_configuration :: artifact_ref
  spec_implementation :: string
  spec_invocation :: string
  spec_attempt_limit :: int

definition distinct_inputs_checks :: "job_spec \<Rightarrow> checks" where
  "distinct_inputs_checks s = [(\<not> distinct (spec_inputs s), ''duplicate job inputs'')]"

definition valid_job_spec :: "job_spec \<Rightarrow> bool" where
  "valid_job_spec s \<longleftrightarrow> spec_inputs s \<noteq> [] \<and> valid_refs (spec_inputs s)
     \<and> valid_ref (spec_configuration s) \<and> is_revision (spec_implementation s)
     \<and> is_name (spec_invocation s) \<and> between 1 100 (spec_attempt_limit s)
     \<and> passes (distinct_inputs_checks s)"

record claim =
  cl_job_id :: digest
  cl_attempt_id :: digest
  cl_owner :: string
  cl_claim_key :: string
  cl_token :: digest

definition valid_claim :: "claim \<Rightarrow> bool" where
  "valid_claim c \<longleftrightarrow> is_digest (cl_job_id c) \<and> is_digest (cl_attempt_id c) \<and> is_name (cl_owner c)
     \<and> is_name (cl_claim_key c) \<and> is_digest (cl_token c)"

datatype attempt_state = A_running | A_abandoned | A_completed

record attempt_record =
  at_claim :: claim
  at_state :: attempt_state
  at_reason :: "string option"
  at_evidence :: "artifact_ref list"

definition valid_attempt :: "attempt_record \<Rightarrow> bool" where
  "valid_attempt a \<longleftrightarrow> valid_claim (at_claim a) \<and> option_all is_reason (at_reason a)
     \<and> valid_refs (at_evidence a)"

datatype job_state = J_queued | J_running | J_paused | J_exhausted | J_completed

record job_record =
  job_id :: digest
  job_spec_of :: job_spec
  job_state :: job_state
  job_attempts :: "digest list"
  job_result :: "operation_result option"
  job_result_observations :: "digest list"

definition valid_job :: "job_record \<Rightarrow> bool" where
  "valid_job j \<longleftrightarrow> is_digest (job_id j) \<and> valid_job_spec (job_spec_of j)
     \<and> list_all is_digest (job_attempts j) \<and> option_all valid_operation_result (job_result j)
     \<and> list_all is_digest (job_result_observations j)"

section \<open>Accounting\<close>

record cost_observation =
  ob_source :: string
  ob_upstream_attempt_id :: string
  ob_revision :: int
  ob_receipts :: "artifact_ref list"
  ob_costs :: "cost_record list"

definition unique_channels_checks :: "cost_observation \<Rightarrow> checks" where
  "unique_channels_checks b =
     [(\<not> distinct (map cost_category (ob_costs b)),
       ''one cumulative cost record per category is required''),
      (\<not> distinct (ob_receipts b), ''duplicate receipt references'')]"

definition valid_observation :: "cost_observation \<Rightarrow> bool" where
  "valid_observation b \<longleftrightarrow> is_name (ob_source b) \<and> is_name (ob_upstream_attempt_id b)
     \<and> between 1 10000 (ob_revision b) \<and> ob_receipts b \<noteq> [] \<and> valid_refs (ob_receipts b)
     \<and> ob_costs b \<noteq> [] \<and> int (length (ob_costs b)) \<le> 64 \<and> list_all valid_cost (ob_costs b)
     \<and> passes (unique_channels_checks b)"

record observation_record =
  obr_observation_id :: digest
  obr_attempt_id :: digest
  obr_observation :: cost_observation

record accounting_report =
  acc_observations :: "observation_record list"
  acc_unobserved_attempts :: "digest list"

section \<open>Quarantine and reports\<close>

record quarantine_notice =
  qn_notice_id :: string
  qn_root :: artifact_ref
  qn_reason :: string
  qn_evidence :: "artifact_ref list"
  qn_active :: bool
  qn_resolution_reason :: "string option"
  qn_resolution_evidence :: "artifact_ref list"

definition valid_notice :: "quarantine_notice \<Rightarrow> bool" where
  "valid_notice n \<longleftrightarrow> is_name (qn_notice_id n) \<and> valid_ref (qn_root n) \<and> is_reason (qn_reason n)
     \<and> qn_evidence n \<noteq> [] \<and> valid_refs (qn_evidence n)
     \<and> option_all is_reason (qn_resolution_reason n) \<and> valid_refs (qn_resolution_evidence n)"

record trace_report =
  tr_artifacts :: "artifact_ref list"
  tr_jobs :: "digest list"
  tr_runs :: "artifact_ref list"
  tr_checkpoints :: "artifact_ref list"
  tr_notices :: "quarantine_notice list"

record recovery_report =
  rr_event_count :: nat
  rr_appended_bytes :: nat
  rr_completed_tail_bytes :: nat

lemmas [valid_defs] =
  valid_refs_def valid_limits_def valid_limit_expansion_def valid_artifact_record_def
  valid_job_spec_def valid_claim_def valid_attempt_def valid_job_def valid_observation_def
  valid_notice_def

section \<open>Events\<close>

text \<open>
  The payload of an event: one constructor per action, with the fields its shape in \<open>State.apply\<close>
  lists. The typed payload stands for the JSON dictionary whose key set that method checks.
\<close>

datatype event_data =
    E_register "artifact_record list"
  | E_enqueue "artifact_record list" job_spec
  | E_claim "artifact_record list" claim
  | E_abandon "artifact_record list" claim string "artifact_ref list"
  | E_retry "artifact_record list" digest string "artifact_ref list"
  | E_reconcile "artifact_record list" claim cost_observation
  | E_complete "artifact_record list" claim operation_result "digest list"
  | E_quarantine "artifact_record list" quarantine_notice
  | E_lift "artifact_record list" string string "artifact_ref list"
  | E_expand_limits "artifact_record list" limit_expansion

fun action_of :: "event_data \<Rightarrow> string" where
  "action_of (E_register a) = ''register''"
| "action_of (E_enqueue a s) = ''enqueue''"
| "action_of (E_claim a c) = ''claim''"
| "action_of (E_abandon a c r e) = ''abandon''"
| "action_of (E_retry a j r e) = ''retry''"
| "action_of (E_reconcile a c b) = ''reconcile''"
| "action_of (E_complete a c r obs) = ''complete''"
| "action_of (E_quarantine a n) = ''quarantine''"
| "action_of (E_lift a n r e) = ''lift''"
| "action_of (E_expand_limits a x) = ''expand_limits''"

text \<open>\<open>data['artifacts']\<close>, and the payload with other rows there (\<open>dict(data, artifacts=rows)\<close>).\<close>

fun event_artifacts :: "event_data \<Rightarrow> artifact_record list" where
  "event_artifacts (E_register a) = a"
| "event_artifacts (E_enqueue a s) = a"
| "event_artifacts (E_claim a c) = a"
| "event_artifacts (E_abandon a c r e) = a"
| "event_artifacts (E_retry a j r e) = a"
| "event_artifacts (E_reconcile a c b) = a"
| "event_artifacts (E_complete a c r obs) = a"
| "event_artifacts (E_quarantine a n) = a"
| "event_artifacts (E_lift a n r e) = a"
| "event_artifacts (E_expand_limits a x) = a"

fun with_artifacts :: "artifact_record list \<Rightarrow> event_data \<Rightarrow> event_data" where
  "with_artifacts a' (E_register a) = E_register a'"
| "with_artifacts a' (E_enqueue a s) = E_enqueue a' s"
| "with_artifacts a' (E_claim a c) = E_claim a' c"
| "with_artifacts a' (E_abandon a c r e) = E_abandon a' c r e"
| "with_artifacts a' (E_retry a j r e) = E_retry a' j r e"
| "with_artifacts a' (E_reconcile a c b) = E_reconcile a' c b"
| "with_artifacts a' (E_complete a c r obs) = E_complete a' c r obs"
| "with_artifacts a' (E_quarantine a n) = E_quarantine a' n"
| "with_artifacts a' (E_lift a n r e) = E_lift a' n r e"
| "with_artifacts a' (E_expand_limits a x) = E_expand_limits a' x"

lemma event_artifacts_with [simp]: "event_artifacts (with_artifacts a d) = a"
  by (cases d) simp_all

lemma with_artifacts_with [simp]: "with_artifacts a (with_artifacts b d) = with_artifacts a d"
  by (cases d) simp_all

lemma with_own_artifacts [simp]: "with_artifacts (event_artifacts d) d = d"
  by (cases d) simp_all

lemma action_of_with [simp]: "action_of (with_artifacts a d) = action_of d"
  by (cases d) simp_all

record registry_event =
  re_sequence :: nat
  re_event_id :: digest
  re_previous :: digest
  re_semantic_key :: string
  re_recorded_at :: utc_datetime
  re_data :: event_data

definition valid_event :: "registry_event \<Rightarrow> bool" where
  "valid_event e \<longleftrightarrow> 1 \<le> re_sequence e \<and> is_digest (re_event_id e) \<and> is_digest (re_previous e)
     \<and> re_semantic_key e \<noteq> [] \<and> code_points (re_semantic_key e) \<le> 500"

end
