(* ===== verification/Documents.thy ===== *)
theory Documents
  imports RegistryModels
begin

text \<open>
  \<open>document(value)\<close> of \<^verbatim>\<open>registry/state.py\<close>, \<open>value.model_dump(mode='json')\<close>, for every model the
  registry stores: the fields in declaration order, enums by value, nullable fields as null, tuples
  as arrays. Each rendering is injective.
\<close>

fun encoding_value :: "encoding \<Rightarrow> string" where
  "encoding_value Enc_json = ''json''"
| "encoding_value Enc_bytes = ''bytes''"

fun scope_value :: "evidence_scope \<Rightarrow> string" where
  "scope_value Scope_real_integration = ''real_integration''"
| "scope_value Scope_unit_diagnostic = ''unit_diagnostic''"
| "scope_value Scope_source_inspection = ''source_inspection''"
| "scope_value Scope_human_review = ''human_review''"

fun measurement_value :: "measurement \<Rightarrow> string" where
  "measurement_value M_measured = ''measured''"
| "measurement_value M_partial = ''partial''"
| "measurement_value M_unknown = ''unknown''"

fun cost_category_value :: "cost_category \<Rightarrow> string" where
  "cost_category_value C_discovery = ''discovery''"
| "cost_category_value C_authoring = ''authoring''"
| "cost_category_value C_construction = ''construction''"
| "cost_category_value C_rejection = ''rejection''"
| "cost_category_value C_repair = ''repair''"
| "cost_category_value C_reference = ''reference''"
| "cost_category_value C_alternative = ''alternative''"
| "cost_category_value C_verifier = ''verifier''"
| "cost_category_value C_human_review = ''human_review''"
| "cost_category_value C_rollout = ''rollout''"
| "cost_category_value C_training = ''training''"
| "cost_category_value C_execution = ''execution''"
| "cost_category_value C_storage = ''storage''"
| "cost_category_value C_evaluation = ''evaluation''"

fun attempt_state_value :: "attempt_state \<Rightarrow> string" where
  "attempt_state_value A_running = ''running''"
| "attempt_state_value A_abandoned = ''abandoned''"
| "attempt_state_value A_completed = ''completed''"

fun job_state_value :: "job_state \<Rightarrow> string" where
  "job_state_value J_queued = ''queued''"
| "job_state_value J_running = ''running''"
| "job_state_value J_paused = ''paused''"
| "job_state_value J_exhausted = ''exhausted''"
| "job_state_value J_completed = ''completed''"

lemma enum_value_inject [simp]:
  "encoding_value a = encoding_value b \<longleftrightarrow> a = b"
  "scope_value c = scope_value d \<longleftrightarrow> c = d"
  "measurement_value m = measurement_value n \<longleftrightarrow> m = n"
  "attempt_state_value r = attempt_state_value s \<longleftrightarrow> r = s"
  "job_state_value u = job_state_value v \<longleftrightarrow> u = v"
  subgoal by (cases a; cases b; simp)
  subgoal by (cases c; cases d; simp)
  subgoal by (cases m; cases n; simp)
  subgoal by (cases r; cases s; simp)
  subgoal by (cases u; cases v; simp)
  done

lemma cost_category_value_inject [simp]: "cost_category_value a = cost_category_value b \<longleftrightarrow> a = b"
  by (cases a; cases b; simp)

section \<open>Shared contracts\<close>

definition doc_ref :: "artifact_ref \<Rightarrow> json" where
  "doc_ref r = JObj
     [(''sha256'', JStr (ref_sha256 r)), (''kind'', JStr (ref_kind r)),
      (''schema_version'', JInt (ref_schema_version r)),
      (''visibility'', JStr (visibility_value (ref_visibility r))),
      (''encoding'', JStr (encoding_value (ref_encoding r)))]"

lemma doc_ref_same [same_json_simps]: "same_json (doc_ref a) (doc_ref b) \<longleftrightarrow> a = b"
  by (simp add: doc_ref_def same_json_simps) auto

lemma doc_refs_same [same_json_simps]:
  "list_all2 same_json (map doc_ref xs) (map doc_ref ys) \<longleftrightarrow> xs = ys"
  by (rule same_json_map) (rule doc_ref_same)

definition doc_refs :: "artifact_ref list \<Rightarrow> json" where
  "doc_refs rs = JArr (map doc_ref rs)"

lemma doc_refs_arr_same [same_json_simps]: "same_json (doc_refs xs) (doc_refs ys) \<longleftrightarrow> xs = ys"
  by (simp add: doc_refs_def same_json_simps)

definition doc_strings :: "string list \<Rightarrow> json" where
  "doc_strings ss = JArr (map JStr ss)"

lemma doc_strings_same [same_json_simps]: "same_json (doc_strings xs) (doc_strings ys) \<longleftrightarrow> xs = ys"
  by (simp add: doc_strings_def same_json_simps)

definition doc_evidence_record :: "evidence_record \<Rightarrow> json" where
  "doc_evidence_record e = JObj
     [(''producer'', JStr (ev_producer e)), (''command'', doc_strings (ev_command e)),
      (''recorded_at'', JStr (ev_recorded_at e)), (''exit_status'', JInt (ev_exit_status e)),
      (''artifacts'', doc_refs (ev_artifacts e)), (''revision'', JStr (ev_revision e)),
      (''scope'', JStr (scope_value (ev_scope e)))]"

lemma doc_evidence_record_same [same_json_simps]:
  "same_json (doc_evidence_record a) (doc_evidence_record b) \<longleftrightarrow> a = b"
  by (simp add: doc_evidence_record_def same_json_simps) auto

definition doc_cost :: "cost_record \<Rightarrow> json" where
  "doc_cost c = JObj
     [(''category'', JStr (cost_category_value (cost_category c))),
      (''wall_seconds'', doc_option JFloat (cost_wall_seconds c)),
      (''cpu_seconds'', doc_option JFloat (cost_cpu_seconds c)),
      (''gpu_seconds'', doc_option JFloat (cost_gpu_seconds c)),
      (''input_tokens'', doc_option JInt (cost_input_tokens c)),
      (''output_tokens'', doc_option JInt (cost_output_tokens c)),
      (''human_minutes'', doc_option JFloat (cost_human_minutes c)),
      (''usd'', doc_option JFloat (cost_usd c)),
      (''measurement'', JStr (measurement_value (cost_measurement c))),
      (''note'', JStr (cost_note c))]"

lemma doc_cost_same [same_json_simps]: "same_json (doc_cost a) (doc_cost b) \<longleftrightarrow> a = b"
  by (simp add: doc_cost_def same_json_simps) auto

lemma doc_costs_same [same_json_simps]:
  "list_all2 same_json (map doc_cost xs) (map doc_cost ys) \<longleftrightarrow> xs = ys"
  by (rule same_json_map) (rule doc_cost_same)

lemma doc_evidence_same [same_json_simps]:
  "list_all2 same_json (map doc_evidence_record xs) (map doc_evidence_record ys) \<longleftrightarrow> xs = ys"
  by (rule same_json_map) (rule doc_evidence_record_same)

definition doc_operation_result :: "operation_result \<Rightarrow> json" where
  "doc_operation_result r = JObj
     [(''operation'', JStr (operation_value (or_operation r))),
      (''disposition'', JStr (disposition_value (or_disposition r))),
      (''artifacts'', doc_refs (or_artifacts r)),
      (''evidence'', JArr (map doc_evidence_record (or_evidence r))),
      (''costs'', JArr (map doc_cost (or_costs r))), (''reason'', JStr (or_reason r))]"

lemma doc_operation_result_same [same_json_simps]:
  "same_json (doc_operation_result a) (doc_operation_result b) \<longleftrightarrow> a = b"
  by (simp add: doc_operation_result_def same_json_simps) auto

section \<open>Registry values\<close>

definition doc_limits :: "registry_limits \<Rightarrow> json" where
  "doc_limits l = JObj
     [(''max_active_jobs'', JInt (max_active_jobs l)), (''max_jobs'', JInt (max_jobs l)),
      (''max_attempts_per_job'', JInt (max_attempts_per_job l)),
      (''max_artifacts'', JInt (max_artifacts l)),
      (''max_closure_artifacts'', JInt (max_closure_artifacts l)),
      (''max_graph_edges'', JInt (max_graph_edges l)),
      (''max_event_bytes'', JInt (max_event_bytes l)), (''max_events'', JInt (max_events l)),
      (''max_journal_bytes'', JInt (max_journal_bytes l)),
      (''max_database_bytes'', JInt (max_database_bytes l)),
      (''max_artifact_envelope_bytes'', JInt (max_artifact_envelope_bytes l)),
      (''max_artifact_payload_bytes'', JInt (max_artifact_payload_bytes l)),
      (''max_closure_bytes'', JInt (max_closure_bytes l)),
      (''lock_timeout_seconds'', JFloat (lock_timeout_seconds l))]"

lemma doc_limits_same [same_json_simps]: "same_json (doc_limits a) (doc_limits b) \<longleftrightarrow> a = b"
  by (simp add: doc_limits_def same_json_simps) auto

definition doc_artifact_record :: "artifact_record \<Rightarrow> json" where
  "doc_artifact_record r = JObj
     [(''ref'', doc_ref (rec_ref r)), (''dependencies'', doc_refs (rec_dependencies r))]"

lemma doc_artifact_record_same [same_json_simps]:
  "same_json (doc_artifact_record a) (doc_artifact_record b) \<longleftrightarrow> a = b"
  by (simp add: doc_artifact_record_def same_json_simps) auto

lemma doc_artifact_records_same [same_json_simps]:
  "list_all2 same_json (map doc_artifact_record xs) (map doc_artifact_record ys) \<longleftrightarrow> xs = ys"
  by (rule same_json_map) (rule doc_artifact_record_same)

definition doc_spec :: "job_spec \<Rightarrow> json" where
  "doc_spec s = JObj
     [(''operation'', JStr (operation_value (spec_operation s))),
      (''inputs'', doc_refs (spec_inputs s)), (''configuration'', doc_ref (spec_configuration s)),
      (''implementation'', JStr (spec_implementation s)),
      (''invocation'', JStr (spec_invocation s)),
      (''attempt_limit'', JInt (spec_attempt_limit s))]"

lemma doc_spec_same [same_json_simps]: "same_json (doc_spec a) (doc_spec b) \<longleftrightarrow> a = b"
  by (simp add: doc_spec_def same_json_simps) auto

definition doc_claim :: "claim \<Rightarrow> json" where
  "doc_claim c = JObj
     [(''job_id'', JStr (cl_job_id c)), (''attempt_id'', JStr (cl_attempt_id c)),
      (''owner'', JStr (cl_owner c)), (''claim_key'', JStr (cl_claim_key c)),
      (''token'', JStr (cl_token c))]"

lemma doc_claim_same [same_json_simps]: "same_json (doc_claim a) (doc_claim b) \<longleftrightarrow> a = b"
  by (simp add: doc_claim_def same_json_simps) auto

definition doc_attempt :: "attempt_record \<Rightarrow> json" where
  "doc_attempt a = JObj
     [(''claim'', doc_claim (at_claim a)), (''state'', JStr (attempt_state_value (at_state a))),
      (''reason'', doc_option JStr (at_reason a)), (''evidence'', doc_refs (at_evidence a))]"

definition doc_job :: "job_record \<Rightarrow> json" where
  "doc_job j = JObj
     [(''job_id'', JStr (job_id j)), (''spec'', doc_spec (job_spec_of j)),
      (''state'', JStr (job_state_value (job_state j))),
      (''attempts'', doc_strings (job_attempts j)),
      (''result'', doc_option doc_operation_result (job_result j)),
      (''result_observations'', doc_strings (job_result_observations j))]"

definition doc_observation :: "cost_observation \<Rightarrow> json" where
  "doc_observation b = JObj
     [(''source'', JStr (ob_source b)),
      (''upstream_attempt_id'', JStr (ob_upstream_attempt_id b)),
      (''revision'', JInt (ob_revision b)), (''receipts'', doc_refs (ob_receipts b)),
      (''costs'', JArr (map doc_cost (ob_costs b)))]"

lemma doc_observation_same [same_json_simps]:
  "same_json (doc_observation a) (doc_observation b) \<longleftrightarrow> a = b"
  by (simp add: doc_observation_def same_json_simps) auto

definition doc_observation_record :: "observation_record \<Rightarrow> json" where
  "doc_observation_record r = JObj
     [(''observation_id'', JStr (obr_observation_id r)),
      (''attempt_id'', JStr (obr_attempt_id r)),
      (''observation'', doc_observation (obr_observation r))]"

definition doc_notice :: "quarantine_notice \<Rightarrow> json" where
  "doc_notice n = JObj
     [(''notice_id'', JStr (qn_notice_id n)), (''root'', doc_ref (qn_root n)),
      (''reason'', JStr (qn_reason n)), (''evidence'', doc_refs (qn_evidence n)),
      (''active'', JBool (qn_active n)),
      (''resolution_reason'', doc_option JStr (qn_resolution_reason n)),
      (''resolution_evidence'', doc_refs (qn_resolution_evidence n))]"

lemma doc_notice_same [same_json_simps]: "same_json (doc_notice a) (doc_notice b) \<longleftrightarrow> a = b"
  by (simp add: doc_notice_def same_json_simps) auto

section \<open>Events\<close>

fun doc_data_fields :: "event_data \<Rightarrow> (string \<times> json) list" where
  "doc_data_fields (E_register a) = []"
| "doc_data_fields (E_enqueue a s) = [(''spec'', doc_spec s)]"
| "doc_data_fields (E_claim a c) = [(''claim'', doc_claim c)]"
| "doc_data_fields (E_abandon a c r e) =
     [(''claim'', doc_claim c), (''reason'', JStr r), (''evidence'', doc_refs e)]"
| "doc_data_fields (E_retry a j r e) =
     [(''job_id'', JStr j), (''reason'', JStr r), (''evidence'', doc_refs e)]"
| "doc_data_fields (E_reconcile a c b) =
     [(''claim'', doc_claim c), (''observation'', doc_observation b)]"
| "doc_data_fields (E_complete a c r obs) =
     [(''claim'', doc_claim c), (''result'', doc_operation_result r),
      (''observations'', doc_strings obs)]"
| "doc_data_fields (E_quarantine a n) = [(''notice'', doc_notice n)]"
| "doc_data_fields (E_lift a n r e) =
     [(''notice_id'', JStr n), (''reason'', JStr r), (''evidence'', doc_refs e)]"
| "doc_data_fields (E_expand_limits a x) =
     [(''previous_limits'', doc_limits (le_previous_limits x)),
      (''limits'', doc_limits (le_limits x)), (''reason'', JStr (le_reason x))]"

definition doc_data :: "event_data \<Rightarrow> json" where
  "doc_data d =
     JObj ((''artifacts'', JArr (map doc_artifact_record (event_artifacts d))) # doc_data_fields d)"

text \<open>The payload without its index rows, what a repeated request is compared by.\<close>

definition doc_request :: "event_data \<Rightarrow> json" where
  "doc_request d = JObj (doc_data_fields d)"

text \<open>An event without its own identity, the document the identity is taken of; and the event.\<close>

definition doc_event_body :: "registry_event \<Rightarrow> (string \<times> json) list" where
  "doc_event_body e =
     [(''sequence'', JInt (int (re_sequence e))), (''previous'', JStr (re_previous e)),
      (''semantic_key'', JStr (re_semantic_key e)), (''recorded_at'', JStr (re_recorded_at e)),
      (''action'', JStr (action_of (re_data e))), (''data'', doc_data (re_data e))]"

definition doc_event :: "registry_event \<Rightarrow> json" where
  "doc_event e = JObj ((''event_id'', JStr (re_event_id e)) # doc_event_body e)"

lemma doc_data_same:
  assumes "action_of d = action_of d'"
  shows "same_json (doc_data d) (doc_data d') \<longleftrightarrow> d = d'"
  using assms by (cases d; cases d')
    (auto simp: doc_data_def same_json_simps intro: limit_expansion.equality)

lemma doc_request_same:
  assumes "action_of d = action_of d'"
  shows "same_json (doc_request d) (doc_request d') \<longleftrightarrow> with_artifacts [] d = with_artifacts [] d'"
  using assms by (cases d; cases d')
    (auto simp: doc_request_def same_json_simps intro: limit_expansion.equality)

lemma doc_event_body_same:
  "same_json (JObj (doc_event_body a)) (JObj (doc_event_body b)) \<longleftrightarrow>
     re_sequence a = re_sequence b \<and> re_previous a = re_previous b
     \<and> re_semantic_key a = re_semantic_key b \<and> re_recorded_at a = re_recorded_at b
     \<and> re_data a = re_data b"
  by (auto simp: doc_event_body_def same_json_simps doc_data_same)

end
