(* ===== verification/DependencyGraph.thy ===== *)
theory DependencyGraph
  imports Documents
begin

text \<open>
  The artifact index of \<^verbatim>\<open>registry/state.py\<close> and \<open>State.install\<close>: immutable records keyed by content
  digest, dependencies that must be registered under exactly the referenced metadata, count and
  edge limits, and Kahn's worklist, whose visit count rejects dependency cycles. The main lemmas:
  the worklist visits every record if and only if the dependency relation is acyclic
  (\<open>kahn_visits_all_iff\<close>), and \<open>install\<close> keeps the index well formed (\<open>install_wf\<close>), keeps every
  old record and adds exactly the submitted ones.
\<close>

type_synonym artifact_index = "artifact_record dict"

abbreviation dependency_keys :: "artifact_record \<Rightarrow> digest list" where
  "dependency_keys r \<equiv> map ref_sha256 (rec_dependencies r)"

text \<open>\<open>ref.sha256 in artifacts and artifacts[ref.sha256].ref == ref\<close>.\<close>

definition registered :: "artifact_index \<Rightarrow> artifact_ref \<Rightarrow> bool" where
  "registered arts ref \<longleftrightarrow>
     (case map_of arts (ref_sha256 ref) of None \<Rightarrow> False | Some r \<Rightarrow> rec_ref r = ref)"

section \<open>Install\<close>

definition install_record ::
  "artifact_index \<Rightarrow> artifact_record \<Rightarrow> registry_error + artifact_index" where
  "install_record arts r =
     (let key = ref_sha256 (rec_ref r) in
      raise_if (map_of arts key \<noteq> None \<and> map_of arts key \<noteq> Some r)
        (RegistryConflict ''immutable artifact identity/dependency declaration drift'')
        (Inr (dict_put key r arts)))"

text \<open>One record of the dependency scan: its parents are distinct and registered exactly.\<close>

definition scan_record ::
  "artifact_index \<Rightarrow> int \<Rightarrow> digest \<times> artifact_record \<Rightarrow> registry_error + int" where
  "scan_record arts edge_count kr =
     (let r = snd kr in
      raise_if (length (remdups (dependency_keys r)) \<noteq> length (rec_dependencies r))
        (RegistryConflict ''duplicate dependency'')
        (raise_if (list_ex (\<lambda>parent. \<not> registered arts parent) (rec_dependencies r))
          (RegistryConflict ''unregistered or inconsistent dependency reference'')
          (Inr (edge_count + int (length (remdups (dependency_keys r)))))))"

text \<open>\<open>children\<close>: the records that depend on a key. \<open>remaining\<close>: the number of unvisited parents.\<close>

definition children_of :: "artifact_index \<Rightarrow> digest \<Rightarrow> digest list" where
  "children_of arts key =
     map fst (filter (\<lambda>kr. key \<in> set (dependency_keys (snd kr))) arts)"

definition parent_count :: "artifact_index \<Rightarrow> digest \<Rightarrow> int" where
  "parent_count arts key =
     (case map_of arts key of None \<Rightarrow> 0 | Some r \<Rightarrow> int (length (remdups (dependency_keys r))))"

fun release_child ::
  "digest list \<times> (digest \<Rightarrow> int) \<Rightarrow> digest \<Rightarrow> digest list \<times> (digest \<Rightarrow> int)" where
  "release_child (ready, remaining) child =
     (let remaining' = remaining(child := remaining child - 1)
      in if remaining' child = 0 then (child # ready, remaining') else (ready, remaining'))"

text \<open>The keys whose count is still positive; each release moves at most one of them to the worklist.\<close>

definition pending_keys :: "artifact_index \<Rightarrow> (digest \<Rightarrow> int) \<Rightarrow> digest set" where
  "pending_keys arts remaining = {k \<in> set (keys arts). 0 < remaining k}"

lemma children_subset: "set (children_of arts key) \<subseteq> set (keys arts)"
  by (auto simp: children_of_def)

lemma release_measure:
  assumes "set cs \<subseteq> set (keys arts)" "foldl release_child (ready, rem) cs = (ready', rem')"
  shows "length ready' + card (pending_keys arts rem') \<le> length ready + card (pending_keys arts rem)"
  using assms
proof (induction cs arbitrary: ready rem)
  case (Cons c cs)
  let ?rem = "rem(c := rem c - 1)"
  have fin: "finite (pending_keys arts r)" for r by (simp add: pending_keys_def)
  have "length (if ?rem c = 0 then c # ready else ready) + card (pending_keys arts ?rem)
      \<le> length ready + card (pending_keys arts rem)"
  proof (cases "rem c = 1")
    case True
    with Cons.prems(1) have "c \<in> pending_keys arts rem" by (simp add: pending_keys_def)
    moreover have "pending_keys arts ?rem = pending_keys arts rem - {c}"
      using True by (auto simp: pending_keys_def)
    ultimately show ?thesis using True fin [of rem] card_Suc_Diff1 [of "pending_keys arts rem" c] by simp
  next
    case False
    then have "pending_keys arts ?rem \<subseteq> pending_keys arts rem"
      by (auto simp: pending_keys_def split: if_splits)
    with False show ?thesis using card_mono [OF fin] by simp
  qed
  moreover have "length ready' + card (pending_keys arts rem')
      \<le> length (if ?rem c = 0 then c # ready else ready) + card (pending_keys arts ?rem)"
    using Cons.prems by (intro Cons.IH) (simp_all add: Let_def fun_upd_def split: if_splits)
  ultimately show ?case by (rule order_trans [rotated])
qed simp

text \<open>
  The worklist; the head of the list is the end Python pops from. The result is the number of
  visited records.
\<close>

function kahn :: "artifact_index \<Rightarrow> digest list \<Rightarrow> (digest \<Rightarrow> int) \<Rightarrow> nat \<Rightarrow> nat" where
  "kahn arts [] remaining visited = visited"
| "kahn arts (key # ready) remaining visited =
     (let s = foldl release_child (ready, remaining) (children_of arts key)
      in kahn arts (fst s) (snd s) (Suc visited))"
  by pat_completeness auto
termination
  by (relation "measure (\<lambda>(arts, ready, remaining, _).
        length ready + card (pending_keys arts remaining))")
    (auto intro!: le_imp_less_Suc release_measure [OF children_subset] simp: less_Suc_eq_le)

definition visited_count :: "artifact_index \<Rightarrow> nat" where
  "visited_count arts =
     kahn arts (rev (filter (\<lambda>k. parent_count arts k = 0) (keys arts))) (parent_count arts) 0"

definition install ::
  "registry_limits \<Rightarrow> artifact_index \<Rightarrow> artifact_record list \<Rightarrow> registry_error + artifact_index" where
  "install limits arts records =
     bind_result (fold_result install_record arts records) (\<lambda>arts'.
     raise_if (int (length arts') > max_artifacts limits)
       (RegistryLimit ''artifact index capacity exceeded'')
     (bind_result (fold_result (scan_record arts') 0 arts') (\<lambda>edge_count.
     raise_if (edge_count > max_graph_edges limits)
       (RegistryLimit ''dependency edge capacity exceeded'')
     (raise_if (visited_count arts' \<noteq> length arts')
       (RegistryConflict ''dependency cycle'')
     (Inr arts')))))"

section \<open>The worklist decides acyclicity\<close>

text \<open>A dependency index: distinct keys, distinct registered parents.\<close>

definition closed_index :: "artifact_index \<Rightarrow> bool" where
  "closed_index arts \<longleftrightarrow> distinct (keys arts) \<and>
     (\<forall>k r. map_of arts k = Some r \<longrightarrow> distinct (dependency_keys r) \<and>
        (\<forall>d \<in> set (rec_dependencies r). registered arts d))"

definition parents :: "artifact_index \<Rightarrow> digest \<Rightarrow> digest set" where
  "parents arts k = (case map_of arts k of None \<Rightarrow> {} | Some r \<Rightarrow> set (dependency_keys r))"

definition depends :: "artifact_index \<Rightarrow> (digest \<times> digest) set" where
  "depends arts = {(p, k). p \<in> parents arts k}"

lemma finite_parents [simp]: "finite (parents arts k)"
  by (simp add: parents_def split: option.splits)

lemma parent_count_card: "parent_count arts k = int (card (parents arts k))"
  by (simp add: parent_count_def parents_def length_remdups_card_conv split: option.splits)

lemma parents_registered: "closed_index arts \<Longrightarrow> p \<in> parents arts k \<Longrightarrow> p \<in> set (keys arts)"
proof -
  assume closed: "closed_index arts" and "p \<in> parents arts k"
  then obtain r d where "map_of arts k = Some r" "d \<in> set (rec_dependencies r)" "p = ref_sha256 d"
    by (auto simp: parents_def split: option.splits)
  with closed have "registered arts d" by (auto simp: closed_index_def)
  with \<open>p = ref_sha256 d\<close> show ?thesis
    by (auto simp: registered_def split: option.splits dest: map_of_in_keys)
qed

lemma parents_key: "p \<in> parents arts k \<Longrightarrow> k \<in> set (keys arts)"
  by (auto simp: parents_def split: option.splits dest: map_of_in_keys)

lemma set_children_of: "closed_index arts \<Longrightarrow> set (children_of arts p) = {k. p \<in> parents arts k}"
proof -
  assume "closed_index arts"
  then have "distinct (keys arts)" by (simp add: closed_index_def)
  from in_dict_iff [OF this] have "(\<exists>r. (k, r) \<in> set arts \<and> p \<in> set (dependency_keys r)) \<longleftrightarrow> p \<in> parents arts k" for k
    by (simp add: parents_def split: option.splits)
  then show ?thesis by (force simp: children_of_def)
qed

lemma distinct_children_of: "closed_index arts \<Longrightarrow> distinct (children_of arts p)"
  by (simp add: closed_index_def children_of_def distinct_map inj_on_subset [of fst "set arts"])

text \<open>Releasing the children of a key: every count drops by one, the new zeros join the worklist.\<close>

lemma foldl_release:
  assumes "distinct cs" "foldl release_child (ready, rem) cs = (ready', rem')"
  shows "rem' = (\<lambda>k. if k \<in> set cs then rem k - 1 else rem k)
    \<and> set ready' = set ready \<union> {k \<in> set cs. rem k = 1}
    \<and> (distinct ready \<and> set ready \<inter> set cs = {} \<longrightarrow> distinct ready')"
  using assms
proof (induction cs arbitrary: ready rem)
  case (Cons c cs)
  let ?rem = "rem(c := rem c - 1)"
  let ?ready = "if rem c = 1 then c # ready else ready"
  have "foldl release_child (?ready, ?rem) cs = (ready', rem')"
    using Cons.prems(2) by (auto simp: Let_def fun_upd_def split: if_splits)
  from Cons.IH [OF _ this] Cons.prems(1) show ?case by (auto split: if_splits)
qed auto

text \<open>
  The worklist invariant, with the set of visited keys: counts are the unvisited parents, zero
  counts are exactly the visited and the ready keys.
\<close>

definition kahn_inv ::
  "artifact_index \<Rightarrow> digest set \<Rightarrow> digest list \<Rightarrow> (digest \<Rightarrow> int) \<Rightarrow> bool" where
  "kahn_inv arts V ready rem \<longleftrightarrow>
     distinct ready \<and> set ready \<inter> V = {} \<and> V \<union> set ready \<subseteq> set (keys arts)
     \<and> (\<forall>k \<in> set (keys arts). rem k = int (card (parents arts k - V)))
     \<and> (\<forall>k \<in> set (keys arts). rem k = 0 \<longleftrightarrow> k \<in> V \<union> set ready)
     \<and> acyclic (depends arts \<inter> V \<times> V)"

lemma acyclic_add_sink:
  assumes "acyclic R" "k \<notin> Domain R" "k \<notin> A"
  shows "acyclic (R \<union> A \<times> {k})"
proof -
  have "(x, y) \<in> (R \<union> A \<times> {k})\<^sup>+ \<Longrightarrow> (x, y) \<in> R\<^sup>+ \<or> (y = k \<and> x \<noteq> k)" for x y
  proof (induction rule: trancl_induct)
    case (base y)
    then show ?case using assms(3) by auto
  next
    case (step y z)
    show ?case
    proof (cases "(y, z) \<in> R")
      case True
      with step.IH assms(2) show ?thesis by (auto intro: trancl_into_trancl)
    next
      case False
      with step.hyps(2) have z: "z = k" "y \<in> A" by auto
      have "x \<noteq> k"
      proof
        assume "x = k"
        with step.IH assms(2) have "y = k" by (auto dest: tranclD)
        with z assms(3) show False by simp
      qed
      with z show ?thesis by simp
    qed
  qed
  with assms(1) show ?thesis by (auto simp: acyclic_def)
qed

lemma kahn_inv_step:
  assumes closed: "closed_index arts" and inv: "kahn_inv arts V (key # ready) rem"
    and step: "foldl release_child (ready, rem) (children_of arts key) = (ready', rem')"
  shows "kahn_inv arts (insert key V) ready' rem'"
proof -
  let ?K = "set (keys arts)"
  have d: "key \<notin> set ready" "distinct ready" "key \<notin> V" "set ready \<inter> V = {}" "key \<in> ?K"
    "V \<subseteq> ?K" "set ready \<subseteq> ?K"
    and cnt: "\<And>k. k \<in> ?K \<Longrightarrow> rem k = int (card (parents arts k - V))"
    and zero: "\<And>k. k \<in> ?K \<Longrightarrow> rem k = 0 \<longleftrightarrow> k \<in> V \<union> set (key # ready)"
    and acyc: "acyclic (depends arts \<inter> V \<times> V)"
    using inv by (auto simp: kahn_inv_def)
  have zero_parents: "parents arts k \<subseteq> V" if "k \<in> ?K" "rem k = 0" for k
    using cnt [OF that(1)] that(2) by simp
  have child: "k \<in> set (children_of arts key) \<longleftrightarrow> key \<in> parents arts k" for k
    using set_children_of [OF closed] by auto
  have childK: "k \<in> ?K \<and> rem k \<noteq> 0" if "key \<in> parents arts k" for k
    using zero_parents [of k] parents_key [OF that] that d(3) by auto
  note rel = foldl_release [OF distinct_children_of [OF closed] step]
  have rem': "rem' k = (if key \<in> parents arts k then rem k - 1 else rem k)" for k
    using rel child by simp
  have ready': "set ready' = set ready \<union> {k. key \<in> parents arts k \<and> rem k = 1}"
    using rel child by auto
  have disj: "set ready \<inter> set (children_of arts key) = {}"
    using child childK zero d by auto
  have cnt': "rem' k = int (card (parents arts k - insert key V))" if k: "k \<in> ?K" for k
  proof (cases "key \<in> parents arts k")
    case True
    then have "parents arts k - insert key V = (parents arts k - V) - {key}"
      "key \<in> parents arts k - V" using d(3) by auto
    then have "card (parents arts k - insert key V) = card (parents arts k - V) - 1"
      "0 < card (parents arts k - V)" by (auto simp: card_gt_0_iff)
    with True rem' [of k] cnt [OF k] show ?thesis by simp
  next
    case False
    then have "parents arts k - insert key V = parents arts k - V" by auto
    with False rem' cnt [OF k] show ?thesis by simp
  qed
  have zero': "rem' k = 0 \<longleftrightarrow> k \<in> insert key V \<union> set ready'" if k: "k \<in> ?K" for k
    using rem' [of k] ready' zero [OF k] childK [of k] by auto
  have "depends arts \<inter> insert key V \<times> insert key V
      = (depends arts \<inter> V \<times> V) \<union> (parents arts key \<inter> V) \<times> {key}"
  proof -
    have "key \<notin> parents arts v" if "v \<in> insert key V" for v
      using childK [of v] zero [of v] that d by auto
    then show ?thesis by (auto simp: depends_def)
  qed
  moreover have "acyclic ((depends arts \<inter> V \<times> V) \<union> (parents arts key \<inter> V) \<times> {key})"
    using acyc d(3) by (intro acyclic_add_sink) auto
  ultimately have acyc': "acyclic (depends arts \<inter> insert key V \<times> insert key V)" by simp
  have "distinct ready'" using rel disj d(2) by simp
  moreover have "set ready' \<inter> insert key V = {}"
  proof -
    have "rem v = 0" if "v \<in> insert key V" for v using zero [of v] that d by auto
    then show ?thesis using ready' d by auto
  qed
  moreover have "insert key V \<union> set ready' \<subseteq> ?K"
    using ready' d childK by auto
  ultimately show ?thesis
    using cnt' zero' acyc' by (simp add: kahn_inv_def)
qed

lemma kahn_result:
  assumes "closed_index arts" "kahn_inv arts V ready rem" "visited = card V"
  shows "\<exists>V' rem'. kahn_inv arts V' [] rem' \<and> kahn arts ready rem visited = card V'"
  using assms
proof (induction arts ready rem visited arbitrary: V rule: kahn.induct)
  case (1 arts rem visited)
  then show ?case by auto
next
  case (2 arts key ready rem visited)
  obtain ready' rem' where step: "foldl release_child (ready, rem) (children_of arts key) = (ready', rem')"
    by fastforce
  have "finite V" "key \<notin> V"
    using "2.prems"(2) finite_subset [of V "set (keys arts)"] by (auto simp: kahn_inv_def)
  with "2.prems"(3) have "Suc visited = card (insert key V)" by simp
  with "2.IH" [OF refl, of "insert key V"] "2.prems"(1) kahn_inv_step [OF "2.prems"(1,2) step] step
  show ?case by simp
qed

lemma kahn_inv_start:
  assumes "closed_index arts"
  shows "kahn_inv arts {} (rev (filter (\<lambda>k. parent_count arts k = 0) (keys arts))) (parent_count arts)"
  using assms by (auto simp: kahn_inv_def closed_index_def parent_count_card acyclic_def)

theorem kahn_visits_all_iff:
  assumes closed: "closed_index arts"
  shows "visited_count arts = length arts \<longleftrightarrow> acyclic (depends arts)"
proof -
  let ?K = "set (keys arts)"
  obtain V rem where inv: "kahn_inv arts V [] rem" and res: "visited_count arts = card V"
    using kahn_result [OF closed kahn_inv_start [OF closed]] by (auto simp: visited_count_def)
  from inv have V: "V \<subseteq> ?K" and vis: "\<And>k. k \<in> ?K \<Longrightarrow> parents arts k \<subseteq> V \<Longrightarrow> k \<in> V"
    and acyc: "acyclic (depends arts \<inter> V \<times> V)"
  proof -
    show "V \<subseteq> ?K" "acyclic (depends arts \<inter> V \<times> V)" using inv by (simp_all add: kahn_inv_def)
    show "k \<in> V" if "k \<in> ?K" "parents arts k \<subseteq> V" for k
    proof -
      from that(2) have "parents arts k - V = {}" by blast
      with that(1) inv have "rem k = 0" by (simp add: kahn_inv_def del: set_map)
      with that(1) inv show ?thesis unfolding kahn_inv_def by auto
    qed
  qed
  have sub: "depends arts \<subseteq> ?K \<times> ?K"
    using parents_registered [OF closed] parents_key by (auto simp: depends_def)
  have card: "card ?K = length arts"
    using closed by (metis closed_index_def distinct_card length_map)
  show ?thesis
  proof
    assume "visited_count arts = length arts"
    with res card V have "V = ?K" by (metis card_subset_eq finite_set)
    with sub acyc show "acyclic (depends arts)" by (metis inf.orderE)
  next
    assume "acyclic (depends arts)"
    moreover have "finite (depends arts)" using sub by (rule finite_subset) simp
    ultimately have wf: "wf (depends arts)" by (simp add: finite_acyclic_wf)
    have "k \<in> ?K \<Longrightarrow> k \<in> V" for k
    proof (induction k rule: wf_induct_rule [OF wf])
      case (1 k)
      then have "parents arts k \<subseteq> V"
        using parents_registered [OF closed, of _ k] by (auto simp: depends_def)
      with 1 vis show ?case by blast
    qed
    with V have "V = ?K" by auto
    with res card show "visited_count arts = length arts" by simp
  qed
qed

section \<open>What install accepts, and what it keeps\<close>

definition edge_total :: "artifact_index \<Rightarrow> int" where
  "edge_total arts = (\<Sum>kr \<leftarrow> arts. int (length (rec_dependencies (snd kr))))"

definition keyed_by_digest :: "artifact_index \<Rightarrow> bool" where
  "keyed_by_digest arts \<longleftrightarrow>
     distinct (keys arts) \<and> (\<forall>k r. map_of arts k = Some r \<longrightarrow> ref_sha256 (rec_ref r) = k)"

definition wf_index :: "artifact_index \<Rightarrow> bool" where
  "wf_index arts \<longleftrightarrow> keyed_by_digest arts \<and> closed_index arts \<and> acyclic (depends arts)"

lemma length_remdups_map: "length (remdups (map f xs)) = length xs \<longleftrightarrow> distinct (map f xs)"
  by (metis length_map length_remdups_eq remdups_id_iff_distinct)

lemma scan_record_Inr:
  "scan_record arts n kr = Inr m \<longleftrightarrow>
     distinct (dependency_keys (snd kr)) \<and> (\<forall>d \<in> set (rec_dependencies (snd kr)). registered arts d)
     \<and> m = n + int (length (rec_dependencies (snd kr)))"
proof -
  have "scan_record arts n kr = Inr m \<longleftrightarrow>
     length (remdups (dependency_keys (snd kr))) = length (rec_dependencies (snd kr))
     \<and> (\<forall>d \<in> set (rec_dependencies (snd kr)). registered arts d)
     \<and> m = n + int (length (remdups (dependency_keys (snd kr))))"
    by (auto simp: scan_record_def Let_def result_simps list_ex_iff)
  then show ?thesis
    using length_remdups_map [of ref_sha256 "rec_dependencies (snd kr)"] by auto
qed

lemma fold_scan_Inr:
  "fold_result (scan_record arts) n xs = Inr m \<longleftrightarrow>
     (\<forall>kr \<in> set xs. distinct (dependency_keys (snd kr)) \<and>
        (\<forall>d \<in> set (rec_dependencies (snd kr)). registered arts d)) \<and> m = n + edge_total xs"
  by (induction xs arbitrary: n) (auto simp: result_simps scan_record_Inr edge_total_def)

lemma closed_index_iff:
  "distinct (keys arts) \<Longrightarrow> closed_index arts \<longleftrightarrow>
     (\<forall>kr \<in> set arts. distinct (dependency_keys (snd kr)) \<and>
        (\<forall>d \<in> set (rec_dependencies (snd kr)). registered arts d))"
  by (auto simp: closed_index_def in_dict_iff [symmetric])

lemma install_record_Inr:
  "install_record arts r = Inr arts' \<longleftrightarrow>
     (map_of arts (ref_sha256 (rec_ref r)) = None \<or> map_of arts (ref_sha256 (rec_ref r)) = Some r)
     \<and> arts' = dict_put (ref_sha256 (rec_ref r)) r arts"
  by (auto simp: install_record_def Let_def result_simps)

lemma install_record_keyed:
  "keyed_by_digest arts \<Longrightarrow> install_record arts r = Inr arts' \<Longrightarrow> keyed_by_digest arts'"
  unfolding keyed_by_digest_def install_record_Inr
  by (simp add: map_of_put distinct_keys_put del: map_map)

lemma fold_install_keyed:
  "keyed_by_digest arts \<Longrightarrow> fold_result install_record arts rs = Inr arts' \<Longrightarrow> keyed_by_digest arts'"
  by (rule fold_result_invariant [where P = keyed_by_digest]) (auto intro: install_record_keyed)

lemma fold_install_lookup:
  assumes "fold_result install_record arts rs = Inr arts'"
  shows "map_of arts' k = Some r \<longleftrightarrow>
     map_of arts k = Some r \<or> (r \<in> set rs \<and> ref_sha256 (rec_ref r) = k)"
  using assms
proof (induction rs arbitrary: arts)
  case (Cons x rs)
  from Cons.prems obtain arts1 where one: "install_record arts x = Inr arts1"
    and rest: "fold_result install_record arts1 rs = Inr arts'"
    by (auto simp: result_simps)
  from one have "map_of arts1 k = Some r \<longleftrightarrow>
      map_of arts k = Some r \<or> (r = x \<and> ref_sha256 (rec_ref r) = k)"
    by (auto simp: install_record_Inr map_of_put)
  with Cons.IH [OF rest] show ?case by auto
qed simp

declare kahn.simps [simp del]

lemma install_Inr:
  assumes "keyed_by_digest arts"
  shows "install limits arts rs = Inr arts' \<longleftrightarrow>
     fold_result install_record arts rs = Inr arts' \<and> int (length arts') \<le> max_artifacts limits
     \<and> closed_index arts' \<and> edge_total arts' \<le> max_graph_edges limits \<and> acyclic (depends arts')"
proof (cases "fold_result install_record arts rs")
  case (Inr arts1)
  have "distinct (keys arts1)"
    using fold_install_keyed [OF assms Inr] unfolding keyed_by_digest_def by (rule conjunct1)
  then have closed: "closed_index arts1 \<longleftrightarrow> (\<exists>m. fold_result (scan_record arts1) 0 arts1 = Inr m)"
    by (simp add: fold_scan_Inr closed_index_iff)
  have total: "m = edge_total arts1" if "fold_result (scan_record arts1) 0 arts1 = Inr m" for m
    using that by (simp add: fold_scan_Inr)
  show ?thesis
  proof (cases "closed_index arts1")
    case True
    with closed total have scan: "fold_result (scan_record arts1) 0 arts1 = Inr (edge_total arts1)"
      by metis
    show ?thesis
      by (simp add: install_def Inr scan raise_if_eq_Inr kahn_visits_all_iff [OF True])
        (use True in auto)
  next
    case False
    with closed obtain e where "fold_result (scan_record arts1) 0 arts1 = Inl e"
      by (cases "fold_result (scan_record arts1) 0 arts1") auto
    with False show ?thesis by (simp add: install_def Inr raise_if_eq_Inr) blast
  qed
qed (simp add: install_def)

lemma install_wf:
  assumes "wf_index arts" "install limits arts rs = Inr arts'"
  shows "wf_index arts'"
  using assms install_Inr [of arts limits rs arts'] fold_install_keyed [of arts rs arts']
  by (simp add: wf_index_def)

lemma install_lookup:
  assumes "wf_index arts" "install limits arts rs = Inr arts'"
  shows "map_of arts' k = Some r \<longleftrightarrow>
     map_of arts k = Some r \<or> (r \<in> set rs \<and> ref_sha256 (rec_ref r) = k)"
  using assms install_Inr [of arts limits rs arts'] fold_install_lookup [of arts rs arts']
  by (simp add: wf_index_def)

lemma install_Nil:
  assumes "wf_index arts" "int (length arts) \<le> max_artifacts limits"
    "edge_total arts \<le> max_graph_edges limits"
  shows "install limits arts [] = Inr arts"
  using assms by (simp add: install_Inr wf_index_def)

lemma wf_index_Nil: "wf_index []"
  by (simp add: wf_index_def keyed_by_digest_def closed_index_def depends_def parents_def acyclic_def)

end
