(* ===== verification/RegistryState.thy ===== *)
theory RegistryState
  imports DependencyGraph
begin

text \<open>
  \<^verbatim>\<open>registry/state.py\<close> and \<open>ignored_roots\<close> of \<^verbatim>\<open>registry/historical.py\<close>: the replayed registry state
  and \<open>State.apply\<close>, one equation per action, each guard of the code a branch in its order. The
  in-place updates of the Python object become a returned state; an event that raises has no
  successor state, because every caller discards the copy it applied the event to.
\<close>

section \<open>State and lookups\<close>

record registry_state =
  st_limits :: registry_limits
  st_artifacts :: artifact_index
  st_jobs :: "job_record dict"
  st_attempts :: "attempt_record dict"
  st_observations :: "observation_record dict"
  st_notices :: "quarantine_notice dict"

definition initial_state :: "registry_limits \<Rightarrow> registry_state" where
  "initial_state limits =
     \<lparr>st_limits = limits, st_artifacts = [], st_jobs = [], st_attempts = [],
      st_observations = [], st_notices = []\<rparr>"

text \<open>\<open>validated(model, value)\<close>, and \<open>updated\<close>, which revalidates the changed copy.\<close>

definition validated :: "('a \<Rightarrow> bool) \<Rightarrow> 'a \<Rightarrow> registry_error + 'a" where
  "validated valid x = raise_if (\<not> valid x) (ValidationError ''model validation failed'') (Inr x)"

lemma validated_Inr [result_simps]: "validated p x = Inr y \<longleftrightarrow> p x \<and> y = x"
  by (auto simp: validated_def raise_if_def)

lemma map_validated [result_simps]: "map_result (validated p) xs = Inr ys \<longleftrightarrow> list_all p xs \<and> ys = xs"
  by (induction xs arbitrary: ys) (auto simp: result_simps)

definition get_job :: "registry_state \<Rightarrow> digest \<Rightarrow> registry_error + job_record" where
  "get_job s k = (case map_of (st_jobs s) k of
     None \<Rightarrow> Inl (UnknownIdentity ''unknown job identity'') | Some j \<Rightarrow> Inr j)"

lemma get_job_Inr [result_simps]: "get_job s k = Inr j \<longleftrightarrow> map_of (st_jobs s) k = Some j"
  by (auto simp: get_job_def split: option.splits)

definition authenticate ::
  "registry_state \<Rightarrow> claim \<Rightarrow> bool \<Rightarrow> registry_error + attempt_record \<times> job_record" where
  "authenticate s c running =
     (case map_of (st_attempts s) (cl_attempt_id c) of
        None \<Rightarrow> Inl (StaleClaim ''unknown or mismatched claim capability'')
      | Some attempt \<Rightarrow>
          raise_if (at_claim attempt \<noteq> c) (StaleClaim ''unknown or mismatched claim capability'')
          (bind_result (get_job s (cl_job_id c)) (\<lambda>job.
           raise_if (running \<and> (at_state attempt \<noteq> A_running \<or> job_state job \<noteq> J_running))
             (StaleClaim ''attempt no longer owns the running job'')
           (raise_if (running \<and> job_attempts job = []) (KeyError ''tuple index out of range'')
           (raise_if (running \<and> last (job_attempts job) \<noteq> cl_attempt_id c)
             (StaleClaim ''attempt no longer owns the running job'')
           (Inr (attempt, job)))))))"

lemma authenticate_Inr [result_simps]:
  "authenticate s c running = Inr (attempt, job) \<longleftrightarrow>
     map_of (st_attempts s) (cl_attempt_id c) = Some attempt \<and> at_claim attempt = c
     \<and> map_of (st_jobs s) (cl_job_id c) = Some job
     \<and> (running \<longrightarrow> at_state attempt = A_running \<and> job_state job = J_running
          \<and> job_attempts job \<noteq> [] \<and> last (job_attempts job) = cl_attempt_id c)"
  by (auto simp: authenticate_def result_simps split: option.splits)

section \<open>Impact of a quarantine root\<close>

text \<open>\<open>_result_evidence\<close> and the references a job depends on.\<close>

definition result_evidence :: "operation_result \<Rightarrow> artifact_ref list" where
  "result_evidence r = concat (map ev_artifacts (or_evidence r))"

definition job_dependencies :: "job_record \<Rightarrow> artifact_ref list" where
  "job_dependencies j = spec_inputs (job_spec_of j) @ [spec_configuration (job_spec_of j)]
     @ (case job_result j of None \<Rightarrow> [] | Some r \<Rightarrow> result_evidence r)"

definition result_keys :: "job_record \<Rightarrow> digest set" where
  "result_keys j = (case job_result j of None \<Rightarrow> {} | Some r \<Rightarrow> ref_sha256 ` set (or_artifacts r))"

text \<open>The two inner loops of one round of \<open>affected\<close>.\<close>

definition artifact_pass :: "registry_state \<Rightarrow> digest set \<Rightarrow> digest set" where
  "artifact_pass s seen =
     foldl (\<lambda>seen kr. if list_ex (\<lambda>d. ref_sha256 d \<in> seen) (rec_dependencies (snd kr))
                      then insert (fst kr) seen else seen) seen (st_artifacts s)"

definition job_pass :: "registry_state \<Rightarrow> digest set \<times> digest set \<Rightarrow> digest set \<times> digest set" where
  "job_pass s sj =
     foldl (\<lambda>(seen, jobs) kj. if list_ex (\<lambda>d. ref_sha256 d \<in> seen) (job_dependencies (snd kj))
                              then (seen \<union> result_keys (snd kj), insert (fst kj) jobs)
                              else (seen, jobs)) sj (st_jobs s)"

definition impact_round :: "registry_state \<Rightarrow> digest set \<times> digest set \<Rightarrow> digest set \<times> digest set" where
  "impact_round s sj = job_pass s (artifact_pass s (fst sj), snd sj)"

text \<open>What a round can add.\<close>

definition known_keys :: "registry_state \<Rightarrow> digest set" where
  "known_keys s = set (keys (st_artifacts s)) \<union> (\<Union>kj \<in> set (st_jobs s). result_keys (snd kj))"

lemma finite_known_keys [simp]: "finite (known_keys s)"
  by (auto simp: known_keys_def result_keys_def split: option.splits)

lemma artifact_fold_bounds:
  "seen \<subseteq> foldl (\<lambda>seen kr. if list_ex (\<lambda>d. ref_sha256 d \<in> seen) (rec_dependencies (snd kr))
      then insert (fst kr) seen else seen) seen xs \<and>
   foldl (\<lambda>seen kr. if list_ex (\<lambda>d. ref_sha256 d \<in> seen) (rec_dependencies (snd kr))
      then insert (fst kr) seen else seen) seen xs \<subseteq> seen \<union> fst ` set xs"
proof (induction xs arbitrary: seen)
  case (Cons x xs)
  then show ?case by (simp split: if_splits) blast
qed simp

lemma artifact_pass_bounds: "seen \<subseteq> artifact_pass s seen" "artifact_pass s seen \<subseteq> seen \<union> known_keys s"
  using artifact_fold_bounds [of seen "st_artifacts s"] by (auto simp: artifact_pass_def known_keys_def)

lemma job_fold_bounds:
  assumes "foldl (\<lambda>(seen, jobs) kj. if list_ex (\<lambda>d. ref_sha256 d \<in> seen) (job_dependencies (snd kj))
      then (seen \<union> result_keys (snd kj), insert (fst kj) jobs) else (seen, jobs)) (seen, jobs) xs = (seen', jobs')"
  shows "seen \<subseteq> seen' \<and> jobs \<subseteq> jobs' \<and> seen' \<subseteq> seen \<union> (\<Union>kj \<in> set xs. result_keys (snd kj))
    \<and> jobs' \<subseteq> jobs \<union> fst ` set xs"
  using assms
proof (induction xs arbitrary: seen jobs)
  case (Cons x xs)
  let ?on = "list_ex (\<lambda>d. ref_sha256 d \<in> seen) (job_dependencies (snd x))"
  have "foldl (\<lambda>(seen, jobs) kj. if list_ex (\<lambda>d. ref_sha256 d \<in> seen) (job_dependencies (snd kj))
      then (seen \<union> result_keys (snd kj), insert (fst kj) jobs) else (seen, jobs))
      (if ?on then seen \<union> result_keys (snd x) else seen, if ?on then insert (fst x) jobs else jobs) xs
      = (seen', jobs')"
    using Cons.prems by (cases ?on) simp_all
  from Cons.IH [OF this] show ?case by (cases ?on) auto
qed simp

lemma impact_round_bounds:
  assumes "impact_round s (seen, jobs) = (seen', jobs')"
  shows "seen \<subseteq> seen'" "jobs \<subseteq> jobs'" "seen' \<subseteq> seen \<union> known_keys s"
    "jobs' \<subseteq> jobs \<union> set (keys (st_jobs s))"
proof -
  from assms have "job_pass s (artifact_pass s seen, jobs) = (seen', jobs')"
    by (simp add: impact_round_def)
  then have b: "artifact_pass s seen \<subseteq> seen'" "jobs \<subseteq> jobs'"
    "seen' \<subseteq> artifact_pass s seen \<union> (\<Union>kj \<in> set (st_jobs s). result_keys (snd kj))"
    "jobs' \<subseteq> jobs \<union> fst ` set (st_jobs s)"
    unfolding job_pass_def by (auto dest: job_fold_bounds)
  with artifact_pass_bounds [where s = s and seen = seen]
  show "seen \<subseteq> seen'" "jobs \<subseteq> jobs'" "seen' \<subseteq> seen \<union> known_keys s"
    "jobs' \<subseteq> jobs \<union> set (keys (st_jobs s))"
    by (auto simp: known_keys_def)
qed

definition round_measure :: "registry_state \<Rightarrow> digest set \<times> digest set \<Rightarrow> nat" where
  "round_measure s sj = card (known_keys s - fst sj) + card (set (keys (st_jobs s)) - snd sj)"

lemma round_measure_less:
  assumes "impact_round s (seen, jobs) = (seen', jobs')" "(seen', jobs') \<noteq> (seen, jobs)"
  shows "round_measure s (seen', jobs') < round_measure s (seen, jobs)"
proof -
  note b = impact_round_bounds [OF assms(1)]
  have le: "card (known_keys s - seen') \<le> card (known_keys s - seen)"
    "card (set (keys (st_jobs s)) - jobs') \<le> card (set (keys (st_jobs s)) - jobs)"
    using b by (auto intro!: card_mono)
  from assms(2) consider "seen \<noteq> seen'" | "jobs \<noteq> jobs'" by auto
  then show ?thesis
  proof cases
    case 1
    with b have "known_keys s - seen' \<subset> known_keys s - seen" by blast
    then have "card (known_keys s - seen') < card (known_keys s - seen)"
      by (intro psubset_card_mono) simp_all
    with le show ?thesis by (simp add: round_measure_def)
  next
    case 2
    with b have "set (keys (st_jobs s)) - jobs' \<subset> set (keys (st_jobs s)) - jobs" by blast
    then have "card (set (keys (st_jobs s)) - jobs') < card (set (keys (st_jobs s)) - jobs)"
      by (intro psubset_card_mono) simp_all
    with le show ?thesis by (simp add: round_measure_def)
  qed
qed

text \<open>\<open>while changed\<close>: repeat the round until the two sets stop growing.\<close>

function affected_loop :: "registry_state \<Rightarrow> digest set \<times> digest set \<Rightarrow> digest set \<times> digest set" where
  "affected_loop s sj =
     (let sj' = impact_round s sj in
      if card (fst sj') + card (snd sj') \<noteq> card (fst sj) + card (snd sj)
      then affected_loop s sj' else sj')"
  by pat_completeness auto
termination
proof (relation "measure (\<lambda>(s, sj). round_measure s sj)")
  fix s :: registry_state and sj sj'
  assume "sj' = impact_round s sj" "card (fst sj') + card (snd sj') \<noteq> card (fst sj) + card (snd sj)"
  then show "((s, sj'), s, sj) \<in> measure (\<lambda>(s, sj). round_measure s sj)"
    using round_measure_less [of s "fst sj" "snd sj" "fst sj'" "snd sj'"]
    by (cases "sj' = sj") simp_all
qed simp

declare affected_loop.simps [simp del]

definition affected :: "registry_state \<Rightarrow> artifact_ref \<Rightarrow> registry_error + digest set \<times> digest set" where
  "affected s origin =
     raise_if (\<not> registered (st_artifacts s) origin)
       (UnknownIdentity ''unregistered exact artifact reference'')
       (Inr (affected_loop s ({ref_sha256 origin}, {})))"

section \<open>Historical audit scopes\<close>

definition POLICY :: string where "POLICY = ''registry-historical-audit-policy''"
definition SUBJECTS :: string where "SUBJECTS = ''registry-historical-audit-subjects''"
definition PROTECTED :: string where "PROTECTED = ''registry-historical-audit-protected''"

definition RESERVED :: "string list" where
  "RESERVED = [POLICY, SUBJECTS, PROTECTED]"

text \<open>
  The closure of the historical subjects; the head of \<open>pending\<close> is the end Python pops from. A key
  that is not in the index is Python's \<open>KeyError\<close>.
\<close>

function subject_closure ::
  "artifact_index \<Rightarrow> artifact_ref list \<Rightarrow> digest set \<Rightarrow> registry_error + digest set" where
  "subject_closure arts [] seen = Inr seen"
| "subject_closure arts (ref # pending) seen =
     (if ref_sha256 ref \<in> seen then subject_closure arts pending seen
      else raise_if (ref_kind ref \<in> set RESERVED)
        (RegistryConflict ''nested scope in historical subject closure'')
        (case map_of arts (ref_sha256 ref) of
           None \<Rightarrow> Inl (KeyError (ref_sha256 ref))
         | Some r \<Rightarrow> subject_closure arts (rev (rec_dependencies r) @ pending)
             (insert (ref_sha256 ref) seen)))"
  by pat_completeness auto
termination
proof (relation "measures [\<lambda>(arts, pending, seen). card (set (keys arts) - seen),
    \<lambda>(arts, pending, seen). length pending]")
  fix arts :: artifact_index and ref :: artifact_ref and pending seen r
  assume new: "ref_sha256 ref \<notin> seen" and r: "map_of arts (ref_sha256 ref) = Some r"
  from r have "ref_sha256 ref \<in> set (keys arts)" by (rule map_of_in_keys)
  with new have "card (set (keys arts) - insert (ref_sha256 ref) seen) < card (set (keys arts) - seen)"
    by (intro psubset_card_mono) blast+
  then show "((arts, rev (rec_dependencies r) @ pending, insert (ref_sha256 ref) seen),
      arts, ref # pending, seen) \<in> measures [\<lambda>(arts, pending, seen). card (set (keys arts) - seen),
        \<lambda>(arts, pending, seen). length pending]"
    by simp
qed simp_all

definition ignored_roots :: "registry_state \<Rightarrow> job_spec \<Rightarrow> registry_error + digest set" where
  "ignored_roots s spec =
     (let configuration = spec_configuration spec; arts = st_artifacts s in
      if spec_operation spec \<noteq> Op_audit \<or> ref_kind configuration \<noteq> POLICY then Inr {}
      else case map_of arts (ref_sha256 configuration) of
        None \<Rightarrow> Inl (RegistryConflict ''audit scope is not registered'')
      | Some record \<Rightarrow>
          raise_if (rec_ref record \<noteq> configuration)
            (RegistryConflict ''audit scope is not registered'')
          (let deps = rec_dependencies record;
               subjects = filter (\<lambda>r. ref_kind r = SUBJECTS) deps;
               protected = filter (\<lambda>r. ref_kind r = PROTECTED) deps;
               others = filter (\<lambda>r. ref_kind r \<notin> set RESERVED) deps in
           raise_if (length deps \<noteq> 3 \<or> length subjects \<noteq> 1 \<or> length protected \<noteq> 1
               \<or> length others \<noteq> 1)
             (RegistryConflict ''historical audit scope dependency shape differs'')
           (case (map_of arts (ref_sha256 (hd protected)), map_of arts (ref_sha256 (hd subjects))) of
              (Some p, Some q) \<Rightarrow>
                bind_result (subject_closure arts (rev (rec_dependencies q)) {}) (\<lambda>seen.
                Inr (seen - (insert (ref_sha256 configuration)
                       (ref_sha256 ` set deps \<union> ref_sha256 ` set (rec_dependencies p)))))
            | _ \<Rightarrow> Inl (KeyError ''historical audit group''))))"

section \<open>Usability under quarantine\<close>

definition check_notice ::
  "registry_state \<Rightarrow> digest set \<Rightarrow> artifact_ref \<Rightarrow> quarantine_notice \<Rightarrow> registry_error + unit" where
  "check_notice s ignored ref n =
     (if qn_active n \<and> ref_sha256 (qn_root n) \<notin> ignored
      then bind_result (affected s (qn_root n)) (\<lambda>impact.
        raise_if (ref_sha256 ref \<in> fst impact)
          (QuarantinedError ''artifact is affected by quarantine'') (Inr ()))
      else Inr ())"

definition usable_ref ::
  "registry_state \<Rightarrow> digest set \<Rightarrow> artifact_ref \<Rightarrow> registry_error + unit" where
  "usable_ref s ignored ref =
     raise_if (\<not> registered (st_artifacts s) ref)
       (UnknownIdentity ''unregistered exact artifact reference'')
       (fold_result (\<lambda>_ n. check_notice s ignored ref n) () (dict_values (st_notices s)))"

definition usable :: "registry_state \<Rightarrow> artifact_ref list \<Rightarrow> digest set \<Rightarrow> registry_error + unit" where
  "usable s refs ignored = fold_result (\<lambda>_ ref. usable_ref s ignored ref) () refs"

definition job_usable :: "registry_state \<Rightarrow> job_spec \<Rightarrow> artifact_ref list \<Rightarrow> registry_error + unit" where
  "job_usable s spec refs = bind_result (ignored_roots s spec) (usable s refs)"

abbreviation spec_refs :: "job_spec \<Rightarrow> artifact_ref list" where
  "spec_refs spec \<equiv> spec_inputs spec @ [spec_configuration spec]"

section \<open>Trace and accounting\<close>

definition trace :: "registry_state \<Rightarrow> artifact_ref \<Rightarrow> registry_error + trace_report" where
  "trace s ref =
     bind_result (affected s ref) (\<lambda>(seen, jobs).
     bind_result (map_result (\<lambda>k. case map_of (st_artifacts s) k of
         None \<Rightarrow> Inl (KeyError k) | Some r \<Rightarrow> Inr (rec_ref r)) (sorted_list_of_set seen)) (\<lambda>refs.
     raise_if (int (length refs) > max_artifacts (st_limits s))
       (RegistryLimit ''trace exceeds artifact index capacity'')
     (bind_result
       (map_result (\<lambda>n. bind_result (affected s (qn_root n)) (\<lambda>impact. Inr (n, fst impact \<inter> seen \<noteq> {})))
         (map snd (sort_key fst (st_notices s))))
       (\<lambda>flagged. Inr
         \<lparr>tr_artifacts = refs, tr_jobs = sorted_list_of_set jobs,
          tr_runs = filter (\<lambda>r. ref_kind r = ''RolloutRecord'') refs,
          tr_checkpoints = filter (\<lambda>r. ref_kind r = ''TrainingCheckpoint'') refs,
          tr_notices = map fst (filter snd flagged)\<rparr>))))"

type_synonym upstream_key = "string \<times> string"

definition upstream_key :: "observation_record \<Rightarrow> upstream_key" where
  "upstream_key item =
     (ob_source (obr_observation item), ob_upstream_attempt_id (obr_observation item))"

text \<open>\<open>latest\<close>: per upstream attempt the snapshot of the highest revision.\<close>

definition latest_step ::
  "(upstream_key \<times> observation_record) list \<Rightarrow> observation_record
     \<Rightarrow> (upstream_key \<times> observation_record) list" where
  "latest_step result item =
     (case map_of result (upstream_key item) of
        None \<Rightarrow> dict_put (upstream_key item) item result
      | Some old \<Rightarrow>
          if ob_revision (obr_observation item) > ob_revision (obr_observation old)
          then dict_put (upstream_key item) item result else result)"

definition latest :: "registry_state \<Rightarrow> (upstream_key \<times> observation_record) list" where
  "latest s = foldl latest_step [] (dict_values (st_observations s))"

definition accounting :: "registry_state \<Rightarrow> digest \<Rightarrow> registry_error + accounting_report" where
  "accounting s k =
     bind_result (get_job s k) (\<lambda>job.
     let observations = sort_key obr_observation_id
           (filter (\<lambda>item. obr_attempt_id item \<in> set (job_attempts job)) (dict_values (latest s)));
         covered = map obr_attempt_id observations in
     Inr \<lparr>acc_observations = observations,
          acc_unobserved_attempts = filter (\<lambda>a. a \<notin> set covered) (job_attempts job)\<rparr>)"

text \<open>A known measurement may not be erased or reduced by a later snapshot.\<close>

definition reduces :: "rat option \<Rightarrow> rat option \<Rightarrow> bool" where
  "reduces previous current =
     (case previous of None \<Rightarrow> False
      | Some p \<Rightarrow> (case current of None \<Rightarrow> True | Some c \<Rightarrow> c < p))"

definition check_channel ::
  "(cost_category \<times> cost_record) list \<Rightarrow> cost_record \<Rightarrow> registry_error + unit" where
  "check_channel channels cost =
     (case map_of channels (cost_category cost) of
        None \<Rightarrow> Inl (RegistryConflict ''new snapshot cannot drop incurred cost channels'')
      | Some newer \<Rightarrow>
          raise_if (list_ex (\<lambda>(p, c). reduces p c) (zip (cost_values cost) (cost_values newer)))
            (RegistryConflict ''new snapshot cannot erase or reduce known incurred cost'') (Inr ()))"

definition check_revision ::
  "registry_state \<Rightarrow> claim \<Rightarrow> cost_observation \<Rightarrow> registry_error + unit" where
  "check_revision s c observation =
     (case map_of (latest s) (ob_source observation, ob_upstream_attempt_id observation) of
        None \<Rightarrow>
          raise_if (ob_revision observation \<noteq> 1)
            (RegistryConflict ''first accounting snapshot must be revision 1'') (Inr ())
      | Some item \<Rightarrow>
          (let old = obr_observation item in
           raise_if (obr_attempt_id item \<noteq> cl_attempt_id c)
             (RegistryConflict ''upstream attempt already attributed to another registry attempt'')
           (raise_if (ob_revision observation \<noteq> ob_revision old + 1)
             (RegistryConflict ''accounting revisions must be contiguous'')
           (raise_if (\<not> set (ob_receipts old) \<subseteq> set (ob_receipts observation))
             (RegistryConflict ''new snapshot cannot drop existing receipts'')
           (fold_result (\<lambda>_. check_channel (map (\<lambda>x. (cost_category x, x)) (ob_costs observation))) ()
             (ob_costs old))))))"

section \<open>Event application\<close>

text \<open>\<open>identity({'job_id': ..., 'claim_key': ..., 'owner': ...})\<close> and an observation's identity.\<close>

definition attempt_document :: "digest \<Rightarrow> string \<Rightarrow> string \<Rightarrow> json" where
  "attempt_document j claim_key owner =
     JObj [(''job_id'', JStr j), (''claim_key'', JStr claim_key), (''owner'', JStr owner)]"

definition attempt_identity :: "runtime \<Rightarrow> digest \<Rightarrow> string \<Rightarrow> string \<Rightarrow> digest" where
  "attempt_identity rt j claim_key owner = identity rt (attempt_document j claim_key owner)"

definition observation_document :: "digest \<Rightarrow> cost_observation \<Rightarrow> json" where
  "observation_document a b = JObj [(''attempt_id'', JStr a), (''observation'', doc_observation b)]"

definition observation_identity :: "runtime \<Rightarrow> digest \<Rightarrow> cost_observation \<Rightarrow> digest" where
  "observation_identity rt a b = identity rt (observation_document a b)"

definition apply_enqueue :: "runtime \<Rightarrow> registry_state \<Rightarrow> job_spec \<Rightarrow> registry_error + registry_state" where
  "apply_enqueue rt s spec0 =
     bind_result (validated valid_job_spec spec0) (\<lambda>spec.
     let key = identity rt (doc_spec spec) in
     raise_if (has_key (st_jobs s) key) (RegistryConflict ''duplicate enqueue event'')
     (raise_if (int (length (st_jobs s)) \<ge> max_jobs (st_limits s))
       (RegistryLimit ''job index capacity exceeded'')
     (raise_if (int (length (filter (\<lambda>j. job_state j \<in> {J_queued, J_running, J_paused})
           (dict_values (st_jobs s)))) \<ge> max_active_jobs (st_limits s))
       (Backpressure ''active job queue is full'')
     (raise_if (spec_attempt_limit spec > max_attempts_per_job (st_limits s))
       (AttemptLimit ''job attempt limit exceeds registry policy'')
     (bind_result (job_usable s spec (spec_refs spec)) (\<lambda>_.
     Inr (s\<lparr>st_jobs := dict_put key
         \<lparr>job_id = key, job_spec_of = spec, job_state = J_queued, job_attempts = [],
          job_result = None, job_result_observations = []\<rparr> (st_jobs s)\<rparr>)))))))"

definition apply_claim :: "runtime \<Rightarrow> registry_state \<Rightarrow> claim \<Rightarrow> registry_error + registry_state" where
  "apply_claim rt s claim0 =
     bind_result (validated valid_claim claim0) (\<lambda>c.
     bind_result (get_job s (cl_job_id c)) (\<lambda>job.
     raise_if (job_state job \<noteq> J_queued)
       (ClaimConflict ''job is not queued; paused jobs require explicit retry'')
     (raise_if (list_ex (\<lambda>a. cl_claim_key (at_claim a) = cl_claim_key c) (dict_values (st_attempts s)))
       (ClaimConflict ''claim key already belongs to an attempt'')
     (raise_if (int (length (job_attempts job)) \<ge> spec_attempt_limit (job_spec_of job))
       (AttemptLimit ''job attempt limit exhausted'')
     (raise_if (cl_attempt_id c \<noteq> attempt_identity rt (job_id job) (cl_claim_key c) (cl_owner c))
       (RegistryConflict ''attempt identity mismatch'')
     (bind_result (job_usable s (job_spec_of job) (spec_refs (job_spec_of job))) (\<lambda>_.
     bind_result (validated valid_job
         (job\<lparr>job_state := J_running, job_attempts := job_attempts job @ [cl_attempt_id c]\<rparr>)) (\<lambda>job'.
     Inr (s\<lparr>st_attempts := dict_put (cl_attempt_id c)
              \<lparr>at_claim = c, at_state = A_running, at_reason = None, at_evidence = []\<rparr> (st_attempts s),
            st_jobs := dict_put (job_id job) job' (st_jobs s)\<rparr>))))))))) "

definition apply_abandon ::
  "registry_state \<Rightarrow> claim \<Rightarrow> string \<Rightarrow> artifact_ref list \<Rightarrow> registry_error + registry_state" where
  "apply_abandon s claim0 reason evidence =
     bind_result (validated valid_claim claim0) (\<lambda>c.
     bind_result (get_job s (cl_job_id c)) (\<lambda>_.
     bind_result (authenticate s c True) (\<lambda>(attempt, job).
     bind_result (validated valid_attempt
         (attempt\<lparr>at_state := A_abandoned, at_reason := Some reason, at_evidence := evidence\<rparr>)) (\<lambda>candidate.
     raise_if (at_evidence candidate = [])
       (RegistryConflict ''abandonment requires supervisor evidence'')
     (bind_result (validated valid_job
         (job\<lparr>job_state := if int (length (job_attempts job)) \<ge> spec_attempt_limit (job_spec_of job)
                           then J_exhausted else J_paused\<rparr>)) (\<lambda>job'.
     Inr (s\<lparr>st_attempts := dict_put (cl_attempt_id c) candidate (st_attempts s),
            st_jobs := dict_put (job_id job) job' (st_jobs s)\<rparr>)))))))"

definition apply_retry ::
  "registry_state \<Rightarrow> digest \<Rightarrow> string \<Rightarrow> artifact_ref list \<Rightarrow> registry_error + registry_state" where
  "apply_retry s k reason evidence =
     bind_result (get_job s k) (\<lambda>job.
     raise_if (int (length (job_attempts job)) \<ge> spec_attempt_limit (job_spec_of job))
       (AttemptLimit ''job attempt limit exhausted'')
     (raise_if (job_state job \<noteq> J_paused)
       (ClaimConflict ''only paused interrupted jobs can be explicitly retried'')
     (raise_if (job_attempts job = []) (KeyError ''tuple index out of range'')
     (case map_of (st_attempts s) (last (job_attempts job)) of
        None \<Rightarrow> Inl (KeyError (last (job_attempts job)))
      | Some attempt \<Rightarrow>
          bind_result (validated valid_attempt
              (attempt\<lparr>at_reason := Some reason, at_evidence := evidence\<rparr>)) (\<lambda>record.
          raise_if (at_evidence record = [])
            (RegistryConflict ''retry requires diagnosed cause/change evidence'')
          (bind_result (job_usable s (job_spec_of job) (spec_refs (job_spec_of job))) (\<lambda>_.
          bind_result (validated valid_job (job\<lparr>job_state := J_queued\<rparr>)) (\<lambda>job'.
          Inr (s\<lparr>st_jobs := dict_put (job_id job) job' (st_jobs s)\<rparr>)))))))))"

definition apply_reconcile ::
  "runtime \<Rightarrow> registry_state \<Rightarrow> claim \<Rightarrow> cost_observation \<Rightarrow> registry_error + registry_state" where
  "apply_reconcile rt s claim0 observation0 =
     bind_result (validated valid_claim claim0) (\<lambda>c.
     bind_result (get_job s (cl_job_id c)) (\<lambda>_.
     bind_result (authenticate s c False) (\<lambda>_.
     bind_result (validated valid_observation observation0) (\<lambda>observation.
     bind_result (check_revision s c observation) (\<lambda>_.
     let key = observation_identity rt (cl_attempt_id c) observation in
     Inr (s\<lparr>st_observations := dict_put key
         \<lparr>obr_observation_id = key, obr_attempt_id = cl_attempt_id c, obr_observation = observation\<rparr>
         (st_observations s)\<rparr>))))))"

text \<open>The identities of the current snapshots of an attempt, and their costs.\<close>

definition wanted_observations :: "registry_state \<Rightarrow> digest \<Rightarrow> digest list" where
  "wanted_observations s a =
     sort (map obr_observation_id (filter (\<lambda>item. obr_attempt_id item = a) (dict_values (latest s))))"

definition observation_costs :: "registry_state \<Rightarrow> digest list \<Rightarrow> registry_error + cost_record list" where
  "observation_costs s ks =
     bind_result (map_result (\<lambda>k. case map_of (st_observations s) k of
         None \<Rightarrow> Inl (KeyError k) | Some item \<Rightarrow> Inr (ob_costs (obr_observation item))) ks)
       (\<lambda>css. Inr (concat css))"

definition apply_complete ::
  "registry_state \<Rightarrow> claim \<Rightarrow> operation_result \<Rightarrow> digest list \<Rightarrow> registry_error + registry_state" where
  "apply_complete s claim0 result0 observations =
     bind_result (validated valid_claim claim0) (\<lambda>c.
     bind_result (get_job s (cl_job_id c)) (\<lambda>_.
     bind_result (authenticate s c True) (\<lambda>(attempt, job).
     bind_result (validated valid_operation_result result0) (\<lambda>result.
     raise_if (or_operation result \<noteq> spec_operation (job_spec_of job))
       (RegistryConflict ''operation result does not match job operation'')
     (let wanted = wanted_observations s (cl_attempt_id c) in
     raise_if (wanted = [] \<or> observations \<noteq> wanted)
       (RegistryConflict ''completion must bind all current accounting snapshots of its attempt'')
     (bind_result (observation_costs s wanted) (\<lambda>costs.
     raise_if (or_costs result \<noteq> costs)
       (RegistryConflict ''result costs do not match the declared snapshot records'')
     (bind_result (job_usable s (job_spec_of job)
         (spec_refs (job_spec_of job) @ or_artifacts result @ result_evidence result)) (\<lambda>_.
     bind_result (validated valid_attempt (attempt\<lparr>at_state := A_completed\<rparr>)) (\<lambda>attempt'.
     bind_result (validated valid_job
         (job\<lparr>job_state := J_completed, job_result := Some result,
              job_result_observations := wanted\<rparr>)) (\<lambda>job'.
     Inr (s\<lparr>st_attempts := dict_put (cl_attempt_id c) attempt' (st_attempts s),
            st_jobs := dict_put (job_id job) job' (st_jobs s)\<rparr>))))))))))))"

definition apply_quarantine ::
  "registry_state \<Rightarrow> quarantine_notice \<Rightarrow> registry_error + registry_state" where
  "apply_quarantine s notice0 =
     bind_result (validated valid_notice notice0) (\<lambda>n.
     raise_if (has_key (st_notices s) (qn_notice_id n) \<or> \<not> qn_active n
         \<or> qn_resolution_reason n \<noteq> None \<or> qn_resolution_evidence n \<noteq> [])
       (RegistryConflict ''new quarantine must be an unresolved unique notice'')
     (bind_result (affected s (qn_root n)) (\<lambda>_.
     Inr (s\<lparr>st_notices := dict_put (qn_notice_id n) n (st_notices s)\<rparr>))))"

definition apply_lift ::
  "registry_state \<Rightarrow> string \<Rightarrow> string \<Rightarrow> artifact_ref list \<Rightarrow> registry_error + registry_state" where
  "apply_lift s notice_id reason evidence =
     (case map_of (st_notices s) notice_id of
        None \<Rightarrow> Inl (UnknownIdentity ''unknown quarantine notice'')
      | Some n \<Rightarrow>
          bind_result (validated valid_notice
              (n\<lparr>qn_active := False, qn_resolution_reason := Some reason,
                 qn_resolution_evidence := evidence\<rparr>)) (\<lambda>candidate.
          raise_if (\<not> qn_active n \<or> qn_resolution_evidence candidate = [])
            (RegistryConflict ''lifting requires an active notice and resolution evidence'')
          (Inr (s\<lparr>st_notices := dict_put (qn_notice_id n) candidate (st_notices s)\<rparr>))))"

definition apply_expand ::
  "registry_state \<Rightarrow> artifact_record list \<Rightarrow> limit_expansion \<Rightarrow> registry_error + registry_state" where
  "apply_expand s records expansion0 =
     raise_if (records \<noteq> []) (RegistryIntegrityError ''unexpected capacity expansion payload'')
     (bind_result (validated valid_limit_expansion expansion0) (\<lambda>expansion.
      raise_if (le_previous_limits expansion \<noteq> st_limits s)
        (RegistryIntegrityError ''capacity expansion is not contiguous with prior limits'')
      (Inr (s\<lparr>st_limits := le_limits expansion\<rparr>))))"

text \<open>The artifact rows of an event are installed before its own action.\<close>

definition apply_rows :: "registry_state \<Rightarrow> artifact_record list \<Rightarrow> registry_error + registry_state" where
  "apply_rows s rows =
     bind_result (map_result (validated valid_artifact_record) rows) (\<lambda>records.
     raise_if (int (length records) > max_closure_artifacts (st_limits s))
       (RegistryLimit ''event artifact closure exceeded'')
     (bind_result (install (st_limits s) (st_artifacts s) records) (\<lambda>arts.
      Inr (s\<lparr>st_artifacts := arts\<rparr>))))"

fun apply_action :: "runtime \<Rightarrow> registry_state \<Rightarrow> event_data \<Rightarrow> registry_error + registry_state" where
  "apply_action rt s (E_register a) = Inr s"
| "apply_action rt s (E_enqueue a spec) = apply_enqueue rt s spec"
| "apply_action rt s (E_claim a c) = apply_claim rt s c"
| "apply_action rt s (E_abandon a c reason evidence) = apply_abandon s c reason evidence"
| "apply_action rt s (E_retry a k reason evidence) = apply_retry s k reason evidence"
| "apply_action rt s (E_reconcile a c observation) = apply_reconcile rt s c observation"
| "apply_action rt s (E_complete a c result observations) = apply_complete s c result observations"
| "apply_action rt s (E_quarantine a n) = apply_quarantine s n"
| "apply_action rt s (E_lift a n reason evidence) = apply_lift s n reason evidence"
| "apply_action rt s (E_expand_limits a x) = apply_expand s a x"

definition apply_event :: "runtime \<Rightarrow> registry_state \<Rightarrow> event_data \<Rightarrow> registry_error + registry_state" where
  "apply_event rt s d =
     (case d of
        E_expand_limits rows x \<Rightarrow> apply_expand s rows x
      | _ \<Rightarrow> bind_result (apply_rows s (event_artifacts d)) (\<lambda>s'. apply_action rt s' d))"

end
