(* ===== verification/RegistryInvariants.thy ===== *)
theory RegistryInvariants
  imports RegistryState
begin

text \<open>
  The well-formedness invariant of the replayed registry state and its preservation by every
  event. It ties the tables together: every key is the content identity of its row, every attempt
  belongs to exactly one job and carries its own claim key, and the states of a job's attempts are
  determined by the job's state: a run of abandoned attempts, then one running attempt for a
  running job, one completed attempt for a completed job, and nothing otherwise.
\<close>

section \<open>The invariant\<close>

fun final_attempt :: "job_state \<Rightarrow> attempt_state option list" where
  "final_attempt J_running = [Some A_running]"
| "final_attempt J_completed = [Some A_completed]"
| "final_attempt _ = []"

definition state_of_attempt :: "attempt_record dict \<Rightarrow> digest \<Rightarrow> attempt_state option" where
  "state_of_attempt attempts a = map_option at_state (map_of attempts a)"

definition lifecycle :: "attempt_record dict \<Rightarrow> job_record \<Rightarrow> bool" where
  "lifecycle attempts j \<longleftrightarrow>
     (\<exists>n. map (state_of_attempt attempts) (job_attempts j)
        = replicate n (Some A_abandoned) @ final_attempt (job_state j))"

definition attempt_counts :: "job_record \<Rightarrow> bool" where
  "attempt_counts j \<longleftrightarrow>
     int (length (job_attempts j)) \<le> spec_attempt_limit (job_spec_of j)
     \<and> (job_state j \<in> {J_paused, J_exhausted} \<longrightarrow> job_attempts j \<noteq> [])
     \<and> (job_state j \<in> {J_queued, J_paused} \<longrightarrow>
          int (length (job_attempts j)) < spec_attempt_limit (job_spec_of j))
     \<and> (job_state j = J_exhausted \<longrightarrow>
          int (length (job_attempts j)) = spec_attempt_limit (job_spec_of j))"

definition result_refs :: "job_record \<Rightarrow> artifact_ref list" where
  "result_refs j = (case job_result j of None \<Rightarrow> [] | Some r \<Rightarrow> or_artifacts r @ result_evidence r)"

definition owned_attempts :: "attempt_record dict \<Rightarrow> digest \<Rightarrow> job_record \<Rightarrow> bool" where
  "owned_attempts attempts k j \<longleftrightarrow> distinct (job_attempts j) \<and>
     (\<forall>a \<in> set (job_attempts j). \<exists>x. map_of attempts a = Some x \<and> cl_job_id (at_claim x) = k)"

definition job_wf :: "runtime \<Rightarrow> registry_state \<Rightarrow> digest \<Rightarrow> job_record \<Rightarrow> bool" where
  "job_wf rt s k j \<longleftrightarrow>
     job_id j = k \<and> k = identity rt (doc_spec (job_spec_of j)) \<and> valid_job_spec (job_spec_of j)
     \<and> owned_attempts (st_attempts s) k j \<and> lifecycle (st_attempts s) j \<and> attempt_counts j
     \<and> (job_result j \<noteq> None \<longleftrightarrow> job_state j = J_completed)
     \<and> (\<forall>r \<in> set (spec_refs (job_spec_of j) @ result_refs j). registered (st_artifacts s) r)"

definition attempt_wf :: "runtime \<Rightarrow> registry_state \<Rightarrow> digest \<Rightarrow> attempt_record \<Rightarrow> bool" where
  "attempt_wf rt s k a \<longleftrightarrow>
     cl_attempt_id (at_claim a) = k
     \<and> k = attempt_identity rt (cl_job_id (at_claim a)) (cl_claim_key (at_claim a)) (cl_owner (at_claim a))
     \<and> (\<exists>j. map_of (st_jobs s) (cl_job_id (at_claim a)) = Some j \<and> k \<in> set (job_attempts j))
     \<and> (at_state a = A_abandoned \<longrightarrow> at_evidence a \<noteq> [] \<and> at_reason a \<noteq> None)"

definition observation_wf :: "runtime \<Rightarrow> registry_state \<Rightarrow> digest \<Rightarrow> observation_record \<Rightarrow> bool" where
  "observation_wf rt s k b \<longleftrightarrow>
     obr_observation_id b = k \<and> k = observation_identity rt (obr_attempt_id b) (obr_observation b)
     \<and> valid_observation (obr_observation b) \<and> has_key (st_attempts s) (obr_attempt_id b)"

definition notice_wf :: "registry_state \<Rightarrow> string \<Rightarrow> quarantine_notice \<Rightarrow> bool" where
  "notice_wf s k n \<longleftrightarrow> qn_notice_id n = k \<and> registered (st_artifacts s) (qn_root n)
     \<and> (qn_active n \<longleftrightarrow> qn_resolution_reason n = None)
     \<and> (\<not> qn_active n \<longrightarrow> qn_resolution_evidence n \<noteq> [])"

definition distinct_claim_keys :: "attempt_record dict \<Rightarrow> bool" where
  "distinct_claim_keys attempts \<longleftrightarrow>
     (\<forall>k a k' a'. map_of attempts k = Some a \<and> map_of attempts k' = Some a'
        \<and> cl_claim_key (at_claim a) = cl_claim_key (at_claim a') \<longrightarrow> k = k')"

definition wf_state :: "runtime \<Rightarrow> registry_state \<Rightarrow> bool" where
  "wf_state rt s \<longleftrightarrow>
     wf_index (st_artifacts s)
     \<and> distinct (keys (st_jobs s)) \<and> distinct (keys (st_attempts s))
     \<and> distinct (keys (st_observations s)) \<and> distinct (keys (st_notices s))
     \<and> (\<forall>k j. map_of (st_jobs s) k = Some j \<longrightarrow> job_wf rt s k j)
     \<and> (\<forall>k a. map_of (st_attempts s) k = Some a \<longrightarrow> attempt_wf rt s k a)
     \<and> distinct_claim_keys (st_attempts s)
     \<and> (\<forall>k b. map_of (st_observations s) k = Some b \<longrightarrow> observation_wf rt s k b)
     \<and> (\<forall>k n. map_of (st_notices s) k = Some n \<longrightarrow> notice_wf s k n)"

lemma wf_initial: "wf_state rt (initial_state limits)"
  by (simp add: wf_state_def initial_state_def wf_index_Nil distinct_claim_keys_def)

section \<open>Facts every action uses\<close>

lemma usable_ref_registered: "usable_ref s ignored r = Inr u \<Longrightarrow> registered (st_artifacts s) r"
  by (simp add: usable_ref_def raise_if_eq_Inr)

lemma usable_registered: "usable s refs ignored = Inr u \<Longrightarrow> r \<in> set refs \<Longrightarrow> registered (st_artifacts s) r"
  unfolding usable_def
  by (induction refs) (auto simp: result_simps dest: usable_ref_registered)

lemma job_usable_registered:
  "job_usable s spec refs = Inr u \<Longrightarrow> r \<in> set refs \<Longrightarrow> registered (st_artifacts s) r"
  by (auto simp: job_usable_def bind_result_eq_Inr dest: usable_registered)

lemma registered_mono:
  assumes "wf_index arts" "install limits arts rows = Inr arts'" "registered arts r"
  shows "registered arts' r"
proof -
  from assms(3) obtain x where "map_of arts (ref_sha256 r) = Some x" "rec_ref x = r"
    by (auto simp: registered_def split: option.splits)
  with install_lookup [OF assms(1,2)] have "map_of arts' (ref_sha256 r) = Some x" by simp
  with \<open>rec_ref x = r\<close> show ?thesis by (simp add: registered_def)
qed

lemma attempt_identity_inject:
  "collision_free rt U \<Longrightarrow> attempt_document j k u \<in> U \<Longrightarrow> attempt_document j' k' u' \<in> U \<Longrightarrow>
   attempt_identity rt j k u = attempt_identity rt j' k' u' \<longleftrightarrow> j = j' \<and> k = k' \<and> u = u'"
  by (auto simp: attempt_identity_def identity_eq_iff) (auto simp: attempt_document_def same_json_simps)

lemma observation_identity_inject:
  "collision_free rt U \<Longrightarrow> observation_document a b \<in> U \<Longrightarrow> observation_document a' b' \<in> U \<Longrightarrow>
   observation_identity rt a b = observation_identity rt a' b' \<longleftrightarrow> a = a' \<and> b = b'"
  by (auto simp: observation_identity_def identity_eq_iff) (auto simp: observation_document_def same_json_simps)

lemma state_of_put:
  "state_of_attempt (dict_put a x attempts) b = (if b = a then Some (at_state x) else state_of_attempt attempts b)"
  by (simp add: state_of_attempt_def map_of_put)

lemma lifecycle_other:
  "a \<notin> set (job_attempts j) \<Longrightarrow> lifecycle (dict_put a x attempts) j = lifecycle attempts j"
proof -
  assume "a \<notin> set (job_attempts j)"
  then have "map (state_of_attempt (dict_put a x attempts)) (job_attempts j)
      = map (state_of_attempt attempts) (job_attempts j)"
    by (auto simp: state_of_put)
  then show ?thesis by (simp only: lifecycle_def)
qed

lemma owned_put:
  "owned_attempts attempts k j \<Longrightarrow> (a \<in> set (job_attempts j) \<Longrightarrow> cl_job_id (at_claim x) = k)
     \<Longrightarrow> owned_attempts (dict_put a x attempts) k j"
  by (auto simp: owned_attempts_def map_of_put)

lemma owned_job_state [simp]: "owned_attempts attempts k (j\<lparr>job_state := x\<rparr>) = owned_attempts attempts k j"
  by (simp add: owned_attempts_def)

text \<open>Replacing the state of the last attempt, the step of abandoning and of completing.\<close>

lemma lifecycle_last:
  assumes "lifecycle attempts j" "job_state j = J_running" "owned_attempts attempts k j"
    and "last (job_attempts j) = a"
  shows "\<exists>n. map (state_of_attempt (dict_put a x attempts)) (job_attempts j)
     = replicate n (Some A_abandoned) @ [Some (at_state x)]"
proof -
  from assms(1,2) obtain n where n: "map (state_of_attempt attempts) (job_attempts j)
      = replicate n (Some A_abandoned) @ [Some A_running]"
    by (auto simp: lifecycle_def)
  then have "job_attempts j \<noteq> []" by auto
  with assms(4) obtain as where as: "job_attempts j = as @ [a]" by (metis append_butlast_last_id)
  from assms(3) as have "a \<notin> set as" by (auto simp: owned_attempts_def)
  then have "map (state_of_attempt (dict_put a x attempts)) as = map (state_of_attempt attempts) as"
    by (auto simp: state_of_put)
  with n as show ?thesis by (simp add: state_of_put)
qed

text \<open>A running attempt is the last one of a running job.\<close>

lemma lifecycle_running:
  assumes "lifecycle attempts j" "a \<in> set (job_attempts j)" "state_of_attempt attempts a = Some A_running"
  shows "job_state j = J_running \<and> last (job_attempts j) = a"
proof -
  from assms(1) obtain n where n: "map (state_of_attempt attempts) (job_attempts j)
      = replicate n (Some A_abandoned) @ final_attempt (job_state j)"
    by (auto simp: lifecycle_def)
  have "Some A_running \<in> set (final_attempt (job_state j))"
  proof -
    have "Some A_running \<in> set (map (state_of_attempt attempts) (job_attempts j))"
      using assms(2,3) by force
    then show ?thesis unfolding n by auto
  qed
  then have run: "job_state j = J_running" by (cases "job_state j") auto
  obtain i where i: "i < length (job_attempts j)" "job_attempts j ! i = a"
    using assms(2) by (auto simp: in_set_conv_nth)
  have len: "length (job_attempts j) = Suc n" using arg_cong [OF n, of length] run by simp
  have "(replicate n (Some A_abandoned) @ [Some A_running]) ! i = Some A_running"
    using arg_cong [OF n, of "\<lambda>xs. xs ! i"] i assms(3) run by simp
  then have "i = n" using i(1) len by (auto simp: nth_append split: if_splits)
  with i len run show ?thesis by (simp add: last_conv_nth flip: length_greater_0_conv)
qed

section \<open>Preservation\<close>

lemma wf_rows:
  assumes "wf_state rt s" "apply_rows s rows = Inr s'"
  shows "wf_state rt s'"
proof -
  from assms(2) obtain arts where inst: "install (st_limits s) (st_artifacts s) rows = Inr arts"
    and s': "s' = s\<lparr>st_artifacts := arts\<rparr>"
    by (auto simp: apply_rows_def result_simps)
  have wf: "wf_index (st_artifacts s)" using assms(1) by (simp add: wf_state_def)
  note mono = registered_mono [OF wf inst]
  show ?thesis
    using assms(1) install_wf [OF wf inst] mono
    by (simp add: wf_state_def s' job_wf_def attempt_wf_def observation_wf_def notice_wf_def)
qed

lemma apply_rows_same:
  "apply_rows s rows = Inr s' \<Longrightarrow> st_jobs s' = st_jobs s \<and> st_attempts s' = st_attempts s
     \<and> st_observations s' = st_observations s \<and> st_notices s' = st_notices s \<and> st_limits s' = st_limits s"
  by (auto simp: apply_rows_def result_simps)

lemma wf_enqueue:
  assumes wf: "wf_state rt s" and step: "apply_enqueue rt s spec = Inr s'"
  shows "wf_state rt s'"
proof -
  let ?key = "identity rt (doc_spec spec)"
  let ?job = "\<lparr>job_id = ?key, job_spec_of = spec, job_state = J_queued, job_attempts = [],
     job_result = None, job_result_observations = []\<rparr>"
  from step obtain u where v: "valid_job_spec spec" and new: "\<not> has_key (st_jobs s) ?key"
    and use: "job_usable s spec (spec_refs spec) = Inr u"
    and s': "s' = s\<lparr>st_jobs := dict_put ?key ?job (st_jobs s)\<rparr>"
    by (auto simp: apply_enqueue_def Let_def bind_result_eq_Inr raise_if_eq_Inr validated_Inr)
  have "0 < spec_attempt_limit spec" using v by (simp add: valid_job_spec_def between_def)
  then have job: "job_wf rt s ?key ?job"
    using v job_usable_registered [OF use]
    by (auto simp: job_wf_def owned_attempts_def lifecycle_def attempt_counts_def result_refs_def)
  have none: "map_of (st_jobs s) ?key = None" using new by (simp add: has_key_def)
  have same: "job_wf rt s' = job_wf rt s" "observation_wf rt s' = observation_wf rt s"
    "notice_wf s' = notice_wf s"
    by (simp_all add: fun_eq_iff s' job_wf_def observation_wf_def notice_wf_def)
  have "attempt_wf rt s' k a" if "attempt_wf rt s k a" for k a
    using that none by (cases "cl_job_id (at_claim a) = ?key") (auto simp: attempt_wf_def s' map_of_put)
  with wf job show ?thesis
    unfolding wf_state_def same by (simp add: s' map_of_put distinct_keys_put)
qed

text \<open>
  The documents whose digest identifies an attempt or a snapshot: those of a state, and those an
  event adds. Fresh attempts and snapshots are recognised by their digest, so two of these
  documents must not collide.
\<close>

abbreviation claim_document :: "claim \<Rightarrow> json" where
  "claim_document c \<equiv> attempt_document (cl_job_id c) (cl_claim_key c) (cl_owner c)"

abbreviation snapshot_document :: "observation_record \<Rightarrow> json" where
  "snapshot_document b \<equiv> observation_document (obr_attempt_id b) (obr_observation b)"

definition state_documents :: "registry_state \<Rightarrow> json set" where
  "state_documents s = (claim_document \<circ> at_claim) ` ran (map_of (st_attempts s))
     \<union> snapshot_document ` ran (map_of (st_observations s))"

fun event_documents :: "event_data \<Rightarrow> json list" where
  "event_documents (E_claim a c) = [claim_document c]"
| "event_documents (E_reconcile a c b) = [observation_document (cl_attempt_id c) b]"
| "event_documents _ = []"

text \<open>A queued job's attempts are all abandoned; a fresh attempt makes it running.\<close>

lemma fresh_attempt:
  assumes "collision_free rt U" "wf_state rt s" "state_documents s \<subseteq> U" "claim_document c \<in> U"
    and "\<not> list_ex (\<lambda>a. cl_claim_key (at_claim a) = cl_claim_key c) (dict_values (st_attempts s))"
    and "cl_attempt_id c = attempt_identity rt (cl_job_id c) (cl_claim_key c) (cl_owner c)"
  shows "map_of (st_attempts s) (cl_attempt_id c) = None"
proof (rule ccontr)
  assume "map_of (st_attempts s) (cl_attempt_id c) \<noteq> None"
  then obtain a where a: "map_of (st_attempts s) (cl_attempt_id c) = Some a" by auto
  with assms(2) have "attempt_wf rt s (cl_attempt_id c) a" by (simp add: wf_state_def)
  moreover have "claim_document (at_claim a) \<in> U"
    using a assms(3) by (force simp: state_documents_def ran_def)
  ultimately have "cl_claim_key (at_claim a) = cl_claim_key c"
    using assms(1,4,6) by (auto simp: attempt_wf_def attempt_identity_inject)
  moreover have "a \<in> set (dict_values (st_attempts s))"
    using a by (force dest: map_of_SomeD)
  ultimately show False using assms(5) by (auto simp: list_ex_iff)
qed

lemma wf_claim:
  assumes cf: "collision_free rt U" and wf: "wf_state rt s"
    and docs: "state_documents s \<subseteq> U" "claim_document c \<in> U" and step: "apply_claim rt s c = Inr s'"
  shows "wf_state rt s'"
proof -
  let ?a = "cl_attempt_id c" and ?k = "cl_job_id c"
  let ?at = "\<lparr>at_claim = c, at_state = A_running, at_reason = None, at_evidence = []\<rparr>"
  from step obtain job where job: "map_of (st_jobs s) ?k = Some job" "job_state job = J_queued"
    and key: "\<not> list_ex (\<lambda>a. cl_claim_key (at_claim a) = cl_claim_key c) (dict_values (st_attempts s))"
    and id: "?a = attempt_identity rt (job_id job) (cl_claim_key c) (cl_owner c)"
    and less: "int (length (job_attempts job)) < spec_attempt_limit (job_spec_of job)"
    and s': "s' = s\<lparr>st_attempts := dict_put ?a ?at (st_attempts s),
       st_jobs := dict_put (job_id job)
         (job\<lparr>job_state := J_running, job_attempts := job_attempts job @ [?a]\<rparr>) (st_jobs s)\<rparr>"
    by (auto simp: apply_claim_def result_simps not_le)
  have jw: "job_wf rt s ?k job" using wf job by (simp add: wf_state_def)
  then have k: "job_id job = ?k" by (simp add: job_wf_def)
  have fresh: "map_of (st_attempts s) ?a = None"
    by (rule fresh_attempt [OF cf wf docs key id [unfolded k]])
  have notin: "?a \<notin> set (job_attempts j)" if "job_wf rt s k' j" for k' j
    using that fresh by (auto simp: job_wf_def owned_attempts_def)
  have other: "job_wf rt s' k' j" if "job_wf rt s k' j" for k' j
    using that notin [OF that] by (auto simp: s' job_wf_def lifecycle_other intro: owned_put)
  have "map (state_of_attempt (dict_put ?a ?at (st_attempts s))) (job_attempts job)
      = map (state_of_attempt (st_attempts s)) (job_attempts job)"
    using notin [OF jw] by (auto simp: state_of_put)
  moreover obtain n where "map (state_of_attempt (st_attempts s)) (job_attempts job) = replicate n (Some A_abandoned)"
    using jw job(2) by (auto simp: job_wf_def lifecycle_def)
  ultimately have "lifecycle (dict_put ?a ?at (st_attempts s))
      (job\<lparr>job_state := J_running, job_attempts := job_attempts job @ [?a]\<rparr>)"
    by (auto simp: lifecycle_def state_of_put simp del: map_eq_conv)
  moreover have "owned_attempts (dict_put ?a ?at (st_attempts s)) ?k
      (job\<lparr>job_state := J_running, job_attempts := job_attempts job @ [?a]\<rparr>)"
    using jw notin [OF jw] by (auto simp: job_wf_def owned_attempts_def map_of_put)
  moreover have "job_result job = None" using jw job(2) by (auto simp: job_wf_def)
  ultimately have this_job: "job_wf rt s' ?k
      (job\<lparr>job_state := J_running, job_attempts := job_attempts job @ [?a]\<rparr>)"
    using jw less by (auto simp: s' job_wf_def attempt_counts_def result_refs_def)
  have "attempt_wf rt s' k' b" if "map_of (st_attempts s') k' = Some b" for k' b
  proof (cases "k' = ?a")
    case True
    with that have "b = ?at" by (simp add: s' map_of_put)
    with True id k show ?thesis by (simp add: attempt_wf_def s' map_of_put)
  next
    case False
    with that wf have "attempt_wf rt s k' b" by (simp add: wf_state_def s' map_of_put)
    with False k job show ?thesis
      by (cases "cl_job_id (at_claim b) = ?k") (auto simp: attempt_wf_def s' map_of_put)
  qed
  moreover have "distinct_claim_keys (st_attempts s')"
  proof -
    have "cl_claim_key (at_claim b) \<noteq> cl_claim_key c" if "map_of (st_attempts s) k' = Some b" for k' b
      using key that by (force simp: list_ex_iff dest: map_of_SomeD)
    with wf show ?thesis
      unfolding wf_state_def distinct_claim_keys_def s' by (simp add: map_of_put) metis
  qed
  ultimately show ?thesis
    using wf other this_job k
    by (auto simp: wf_state_def s' map_of_put distinct_keys_put observation_wf_def notice_wf_def
        has_key_def)
qed

text \<open>
  Abandoning and completing rewrite the last attempt of a running job and the job itself. The
  shared step: both records keep their identity, and the new job state asks for exactly the new
  attempt state.
\<close>

lemma wf_finish:
  assumes wf: "wf_state rt s"
    and a: "map_of (st_attempts s) ai = Some at0" "at_claim at0 = c" "cl_attempt_id c = ai"
    and j: "map_of (st_jobs s) (cl_job_id c) = Some job" "job_state job = J_running"
      "last (job_attempts job) = ai"
    and at': "at_claim at' = c" "at_state at' = A_abandoned \<longrightarrow> at_evidence at' \<noteq> [] \<and> at_reason at' \<noteq> None"
    and job': "job_id job' = job_id job" "job_spec_of job' = job_spec_of job"
      "job_attempts job' = job_attempts job"
    and fin: "\<And>m. \<exists>n. replicate m (Some A_abandoned) @ [Some (at_state at')]
         = replicate n (Some A_abandoned) @ final_attempt (job_state job')"
    and cnt: "attempt_counts job'" "job_result job' \<noteq> None \<longleftrightarrow> job_state job' = J_completed"
    and reg: "\<And>r. r \<in> set (result_refs job') \<Longrightarrow> registered (st_artifacts s) r"
    and s': "s' = s\<lparr>st_attempts := dict_put ai at' (st_attempts s),
       st_jobs := dict_put (job_id job) job' (st_jobs s)\<rparr>"
  shows "wf_state rt s'"
proof -
  have jw: "job_wf rt s (cl_job_id c) job" using wf j(1) by (simp add: wf_state_def)
  then have k: "job_id job = cl_job_id c" and own: "owned_attempts (st_attempts s) (cl_job_id c) job"
    and life: "lifecycle (st_attempts s) job" by (auto simp: job_wf_def)
  have "lifecycle (dict_put ai at' (st_attempts s)) job'"
    using lifecycle_last [OF life j(2) own j(3), of at'] fin
    by (auto simp: lifecycle_def job'(3) simp del: map_eq_conv)
  moreover have "owned_attempts (dict_put ai at' (st_attempts s)) (cl_job_id c) job'"
    using owned_put [OF own, of ai at'] at'(1) by (simp add: owned_attempts_def job'(3))
  ultimately have this_job: "job_wf rt s' (cl_job_id c) job'"
    using jw cnt reg by (simp add: job_wf_def s' job'(1,2)) blast
  have other: "job_wf rt s' k' j'" if "map_of (st_jobs s) k' = Some j'" "k' \<noteq> cl_job_id c" for k' j'
  proof -
    have jw': "job_wf rt s k' j'" using wf that(1) by (simp add: wf_state_def)
    moreover have "ai \<notin> set (job_attempts j')"
      using jw' a that(2) by (auto simp: job_wf_def owned_attempts_def)
    ultimately show ?thesis by (auto simp: s' job_wf_def lifecycle_other intro: owned_put)
  qed
  have "attempt_wf rt s' k' b" if b: "map_of (st_attempts s') k' = Some b" for k' b
  proof (cases "k' = ai")
    case True
    have "attempt_wf rt s ai at0" using wf a(1) by (simp add: wf_state_def)
    with True b k j at' a job' show ?thesis by (auto simp: attempt_wf_def s' map_of_put)
  next
    case False
    with b wf have "attempt_wf rt s k' b" by (simp add: wf_state_def s' map_of_put)
    with j k job' show ?thesis
      by (cases "cl_job_id (at_claim b) = cl_job_id c") (auto simp: attempt_wf_def s' map_of_put)
  qed
  moreover have "distinct_claim_keys (st_attempts s')"
    using wf a at'(1) unfolding wf_state_def distinct_claim_keys_def s'
    by (simp add: map_of_put) metis
  ultimately show ?thesis
    using wf other this_job k
    by (auto simp: wf_state_def s' map_of_put distinct_keys_put observation_wf_def notice_wf_def
        has_key_def)
qed

lemma wf_abandon:
  assumes wf: "wf_state rt s" and step: "apply_abandon s c reason evidence = Inr s'"
  shows "wf_state rt s'"
proof -
  define st where "st job = (if int (length (job_attempts job)) \<ge> spec_attempt_limit (job_spec_of job)
      then J_exhausted else J_paused)" for job :: job_record
  from step obtain att job where att: "map_of (st_attempts s) (cl_attempt_id c) = Some att" "at_claim att = c"
    and job: "map_of (st_jobs s) (cl_job_id c) = Some job" "job_state job = J_running"
      "job_attempts job \<noteq> []" "last (job_attempts job) = cl_attempt_id c"
    and ev: "evidence \<noteq> []"
    and s': "s' = s\<lparr>st_attempts := dict_put (cl_attempt_id c)
         (att\<lparr>at_state := A_abandoned, at_reason := Some reason, at_evidence := evidence\<rparr>) (st_attempts s),
       st_jobs := dict_put (job_id job) (job\<lparr>job_state := st job\<rparr>) (st_jobs s)\<rparr>"
    unfolding apply_abandon_def st_def [symmetric] by (auto simp: result_simps)
  have jw: "job_wf rt s (cl_job_id c) job" using wf job(1) by (simp add: wf_state_def)
  have final: "\<exists>n. replicate m (Some A_abandoned) @ [Some A_abandoned]
      = replicate n (Some A_abandoned) @ final_attempt (st job)" for m
    by (rule exI [of _ "Suc m"]) (simp add: st_def replicate_append_same)
  show ?thesis
  proof (rule wf_finish [OF wf att refl job(1,2,4) _ _ _ _ _ _ _ _ _ s'])
    show "attempt_counts (job\<lparr>job_state := st job\<rparr>)"
      using jw job(3) by (auto simp: job_wf_def attempt_counts_def st_def)
    show "(job_result (job\<lparr>job_state := st job\<rparr>) \<noteq> None)
        = (job_state (job\<lparr>job_state := st job\<rparr>) = J_completed)"
      using jw job(2) by (auto simp: job_wf_def st_def)
    show "registered (st_artifacts s) r" if "r \<in> set (result_refs (job\<lparr>job_state := st job\<rparr>))" for r
      using that jw by (simp add: job_wf_def result_refs_def)
  qed (use ev final att(2) in \<open>simp_all\<close>)
qed

lemma wf_complete:
  assumes wf: "wf_state rt s" and step: "apply_complete s c result observations = Inr s'"
  shows "wf_state rt s'"
proof -
  from step obtain att job u where att: "map_of (st_attempts s) (cl_attempt_id c) = Some att" "at_claim att = c"
    and job: "map_of (st_jobs s) (cl_job_id c) = Some job" "job_state job = J_running"
      "last (job_attempts job) = cl_attempt_id c"
    and use: "job_usable s (job_spec_of job)
        (spec_refs (job_spec_of job) @ or_artifacts result @ result_evidence result) = Inr u"
    and s': "s' = s\<lparr>st_attempts := dict_put (cl_attempt_id c) (att\<lparr>at_state := A_completed\<rparr>) (st_attempts s),
       st_jobs := dict_put (job_id job) (job\<lparr>job_state := J_completed, job_result := Some result,
         job_result_observations := wanted_observations s (cl_attempt_id c)\<rparr>) (st_jobs s)\<rparr>"
    by (auto simp: apply_complete_def Let_def result_simps)
  have jw: "job_wf rt s (cl_job_id c) job" using wf job(1) by (simp add: wf_state_def)
  show ?thesis
  proof (rule wf_finish [OF wf att refl job _ _ _ _ _ _ _ _ _ s'], goal_cases)
    case 6
    show ?case by auto
  next
    case 7
    show ?case using jw by (simp add: job_wf_def attempt_counts_def)
  next
    case (9 r)
    with job_usable_registered [OF use] show ?case by (simp add: result_refs_def)
  qed (simp_all add: att(2))
qed

lemma wf_retry:
  assumes wf: "wf_state rt s" and step: "apply_retry s k reason evidence = Inr s'"
  shows "wf_state rt s'"
proof -
  from step obtain job where job: "map_of (st_jobs s) k = Some job" "job_state job = J_paused"
    and less: "int (length (job_attempts job)) < spec_attempt_limit (job_spec_of job)"
    and s': "s' = s\<lparr>st_jobs := dict_put (job_id job) (job\<lparr>job_state := J_queued\<rparr>) (st_jobs s)\<rparr>"
    by (auto simp: apply_retry_def result_simps not_le split: option.splits)
  have jw: "job_wf rt s k job" using wf job(1) by (simp add: wf_state_def)
  then have k: "job_id job = k" by (simp add: job_wf_def)
  have this_job: "job_wf rt s' k (job\<lparr>job_state := J_queued\<rparr>)"
    using jw job(2) less
    by (auto simp: job_wf_def s' lifecycle_def attempt_counts_def result_refs_def)
  have same: "job_wf rt s' = job_wf rt s" "observation_wf rt s' = observation_wf rt s"
    "notice_wf s' = notice_wf s"
    by (simp_all add: fun_eq_iff s' job_wf_def observation_wf_def notice_wf_def)
  have "attempt_wf rt s' k' a" if "attempt_wf rt s k' a" for k' a
    using that job k by (cases "cl_job_id (at_claim a) = k") (auto simp: attempt_wf_def s' map_of_put)
  with wf this_job show ?thesis
    unfolding wf_state_def same by (simp add: s' map_of_put distinct_keys_put k)
qed

lemma wf_reconcile:
  assumes wf: "wf_state rt s" and step: "apply_reconcile rt s c observation = Inr s'"
  shows "wf_state rt s'"
proof -
  let ?key = "observation_identity rt (cl_attempt_id c) observation"
  let ?row = "\<lparr>obr_observation_id = ?key, obr_attempt_id = cl_attempt_id c, obr_observation = observation\<rparr>"
  from step obtain att where att: "map_of (st_attempts s) (cl_attempt_id c) = Some att"
    and v: "valid_observation observation"
    and s': "s' = s\<lparr>st_observations := dict_put ?key ?row (st_observations s)\<rparr>"
    by (auto simp: apply_reconcile_def Let_def result_simps)
  have row: "observation_wf rt s' ?key ?row"
    using att v by (simp add: observation_wf_def s' has_key_def)
  have same: "job_wf rt s' = job_wf rt s" "attempt_wf rt s' = attempt_wf rt s"
    "observation_wf rt s' = observation_wf rt s" "notice_wf s' = notice_wf s"
    by (simp_all add: fun_eq_iff s' job_wf_def observation_wf_def notice_wf_def attempt_wf_def)
  from wf row show ?thesis
    unfolding wf_state_def same by (simp add: s' map_of_put distinct_keys_put)
qed

text \<open>Adding or replacing one notice.\<close>

lemma wf_notice:
  assumes "wf_state rt s" "notice_wf s k n" "s' = s\<lparr>st_notices := dict_put k n (st_notices s)\<rparr>"
  shows "wf_state rt s'"
proof -
  have same: "job_wf rt s' = job_wf rt s" "attempt_wf rt s' = attempt_wf rt s"
    "observation_wf rt s' = observation_wf rt s" "notice_wf s' = notice_wf s"
    by (simp_all add: fun_eq_iff assms(3) job_wf_def observation_wf_def notice_wf_def attempt_wf_def)
  from assms(1,2) show ?thesis
    unfolding wf_state_def same by (simp add: assms(3) map_of_put distinct_keys_put)
qed

lemma affected_registered: "affected s r = Inr x \<Longrightarrow> registered (st_artifacts s) r"
  by (simp add: affected_def result_simps)

lemma wf_quarantine:
  assumes wf: "wf_state rt s" and step: "apply_quarantine s n = Inr s'"
  shows "wf_state rt s'"
proof -
  from step have "qn_active n" "qn_resolution_reason n = None" "\<exists>x. affected s (qn_root n) = Inr x"
    and s': "s' = s\<lparr>st_notices := dict_put (qn_notice_id n) n (st_notices s)\<rparr>"
    by (auto simp: apply_quarantine_def result_simps)
  then have "notice_wf s (qn_notice_id n) n" by (auto simp: notice_wf_def dest: affected_registered)
  then show ?thesis by (rule wf_notice [OF wf _ s'])
qed

lemma wf_lift:
  assumes wf: "wf_state rt s" and step: "apply_lift s k reason evidence = Inr s'"
  shows "wf_state rt s'"
proof -
  from step obtain n where n: "map_of (st_notices s) k = Some n" and ev: "evidence \<noteq> []"
    and s': "s' = s\<lparr>st_notices := dict_put (qn_notice_id n) (n\<lparr>qn_active := False,
       qn_resolution_reason := Some reason, qn_resolution_evidence := evidence\<rparr>) (st_notices s)\<rparr>"
    by (auto simp: apply_lift_def result_simps split: option.splits)
  have "notice_wf s k n" using wf n by (simp add: wf_state_def)
  then have "notice_wf s (qn_notice_id n) (n\<lparr>qn_active := False,
       qn_resolution_reason := Some reason, qn_resolution_evidence := evidence\<rparr>)"
    using ev by (simp add: notice_wf_def)
  then show ?thesis by (rule wf_notice [OF wf _ s'])
qed

lemma wf_expand:
  assumes wf: "wf_state rt s" and step: "apply_expand s rows x = Inr s'"
  shows "wf_state rt s'"
proof -
  from step have s': "s' = s\<lparr>st_limits := le_limits x\<rparr>"
    by (auto simp: apply_expand_def result_simps)
  have same: "job_wf rt s' = job_wf rt s" "attempt_wf rt s' = attempt_wf rt s"
    "observation_wf rt s' = observation_wf rt s" "notice_wf s' = notice_wf s"
    by (simp_all add: fun_eq_iff s' job_wf_def observation_wf_def notice_wf_def attempt_wf_def)
  from wf show ?thesis unfolding wf_state_def same by (simp add: s')
qed

lemma rows_documents: "apply_rows s rows = Inr s' \<Longrightarrow> state_documents s' = state_documents s"
  using apply_rows_same by (simp add: state_documents_def)

lemma wf_action:
  assumes "collision_free rt U" "wf_state rt s" "state_documents s \<subseteq> U" "set (event_documents d) \<subseteq> U"
    "apply_action rt s d = Inr s'"
  shows "wf_state rt s'"
  using assms
  by (cases d) (auto intro: wf_enqueue wf_claim wf_abandon wf_retry wf_reconcile wf_complete
      wf_quarantine wf_lift wf_expand)

text \<open>An event first installs its rows, then acts; a capacity expansion carries no rows.\<close>

lemma apply_event_Inr:
  "apply_event rt s d = Inr s' \<longleftrightarrow>
     (if action_of d = ''expand_limits'' then apply_action rt s d = Inr s'
      else \<exists>t. apply_rows s (event_artifacts d) = Inr t \<and> apply_action rt t d = Inr s')"
  by (cases d) (simp_all add: apply_event_def result_simps)

lemma wf_event:
  assumes "collision_free rt U" "wf_state rt s" "state_documents s \<subseteq> U" "set (event_documents d) \<subseteq> U"
    "apply_event rt s d = Inr s'"
  shows "wf_state rt s'"
proof (cases "action_of d = ''expand_limits''")
  case True
  with assms wf_action show ?thesis by (auto simp: apply_event_Inr)
next
  case False
  with assms(5) obtain t where t: "apply_rows s (event_artifacts d) = Inr t" "apply_action rt t d = Inr s'"
    by (auto simp: apply_event_Inr)
  with assms wf_action [OF assms(1) wf_rows [OF assms(2) t(1)] _ assms(4) t(2)] rows_documents [OF t(1)]
  show ?thesis by simp
qed

text \<open>An event adds only its own documents to those of the state.\<close>

lemma ran_put: "ran (map_of (dict_put k v d)) \<subseteq> insert v (ran (map_of d))"
  by (auto simp: ran_def map_of_put split: if_splits)

lemma life_documents:
  assumes "\<exists>a x. st_attempts s' = dict_put a x (st_attempts s) \<and> st_observations s' = st_observations s
      \<and> claim_document (at_claim x) \<in> D \<union> state_documents s"
  shows "state_documents s' \<subseteq> D \<union> state_documents s"
proof -
  from assms obtain a x where s': "st_attempts s' = dict_put a x (st_attempts s)"
    "st_observations s' = st_observations s" and x: "claim_document (at_claim x) \<in> D \<union> state_documents s"
    by blast
  show ?thesis using x ran_put [of a x "st_attempts s"] unfolding state_documents_def s' by auto
qed

lemma known_document: "map_of (st_attempts s) a = Some x \<Longrightarrow> claim_document (at_claim x) \<in> state_documents s"
  by (force simp: state_documents_def ran_def)

lemma action_documents:
  assumes "apply_action rt s d = Inr s'"
  shows "state_documents s' \<subseteq> set (event_documents d) \<union> state_documents s"
proof (cases d)
  case (E_claim a c)
  with assms show ?thesis
    by (intro life_documents exI [of _ "cl_attempt_id c"]) (auto simp: apply_claim_def result_simps)
next
  case (E_abandon a c reason evidence)
  with assms show ?thesis
    by (intro life_documents exI [of _ "cl_attempt_id c"])
      (auto simp: apply_abandon_def result_simps dest!: known_document)
next
  case (E_complete a c result observations)
  with assms show ?thesis
    by (intro life_documents exI [of _ "cl_attempt_id c"])
      (auto simp: apply_complete_def Let_def result_simps dest!: known_document)
next
  case (E_reconcile a c b)
  with assms ran_put show ?thesis
    by (auto simp: apply_reconcile_def Let_def result_simps state_documents_def) fastforce
qed (use assms in \<open>auto simp: apply_enqueue_def apply_retry_def apply_quarantine_def apply_lift_def
     apply_expand_def Let_def result_simps state_documents_def split: option.splits\<close>)

lemma event_adds_documents:
  assumes "apply_event rt s d = Inr s'"
  shows "state_documents s' \<subseteq> set (event_documents d) \<union> state_documents s"
  using assms rows_documents action_documents
  by (auto simp: apply_event_Inr split: if_splits) blast+

end
