(* ===== verification/RegistryHistory.thy ===== *)
theory RegistryHistory
  imports RegistryInvariants "HOL-Library.Sublist"
begin

text \<open>
  Histories of registry events. The interface \<open>event_log\<close> is the contract of an event-sourced
  state (a step that may reject and an invariant it keeps); \<open>monotone_log\<close> adds an order every
  accepted step climbs. Both are interpreted on \<^verbatim>\<open>State.apply\<close>: the invariant is the
  well-formedness of the state, the order is what history may never take back (immutable artifacts,
  snapshots and finished jobs, attempts that only accumulate, limits that only grow).
\<close>

section \<open>The interface of an event-sourced state\<close>

locale event_log =
  fixes step :: "'s \<Rightarrow> 'e \<Rightarrow> 'x + 's" and admissible :: "'e \<Rightarrow> bool" and good :: "'s \<Rightarrow> bool"
  assumes step_good: "good s \<Longrightarrow> admissible e \<Longrightarrow> step s e = Inr t \<Longrightarrow> good t"
begin

lemma replay_good: "good s \<Longrightarrow> list_all admissible es \<Longrightarrow> fold_result step s es = Inr t \<Longrightarrow> good t"
  by (rule fold_result_invariant [of step s es t good]) (auto simp: list_all_iff intro: step_good)

lemma replay_split:
  assumes "good s" "list_all admissible es" "fold_result step s (es @ fs) = Inr t"
  obtains u where "good u" "fold_result step s es = Inr u" "fold_result step u fs = Inr t"
  using assms replay_good by (auto simp: fold_result_append bind_result_eq_Inr)

end

locale monotone_log = event_log step admissible good
  for step :: "'s \<Rightarrow> 'e \<Rightarrow> 'x + 's" and admissible :: "'e \<Rightarrow> bool" and good :: "'s \<Rightarrow> bool" +
  fixes le :: "'s \<Rightarrow> 's \<Rightarrow> bool"
  assumes le_refl: "le s s"
    and le_trans: "le s t \<Longrightarrow> le t u \<Longrightarrow> le s u"
    and step_le: "good s \<Longrightarrow> admissible e \<Longrightarrow> step s e = Inr t \<Longrightarrow> le s t"
begin

lemma replay_le: "good s \<Longrightarrow> list_all admissible es \<Longrightarrow> fold_result step s es = Inr t \<Longrightarrow> le s t"
proof (induction es arbitrary: s)
  case (Cons e es)
  then obtain u where u: "step s e = Inr u" "fold_result step u es = Inr t"
    by (auto simp: bind_result_eq_Inr)
  have e: "admissible e" "list_all admissible es" using Cons.prems(2) by simp_all
  have "le u t" using Cons.IH [OF step_good [OF Cons.prems(1) e(1) u(1)] e(2) u(2)] .
  with step_le [OF Cons.prems(1) e(1) u(1)] show ?case by (rule le_trans)
qed (simp add: le_refl)

end

section \<open>What history never takes back\<close>

definition same_execution_limits :: "registry_limits \<Rightarrow> registry_limits \<Rightarrow> bool" where
  "same_execution_limits l m \<longleftrightarrow> max_active_jobs m = max_active_jobs l
     \<and> max_attempts_per_job m = max_attempts_per_job l
     \<and> lock_timeout_seconds m = lock_timeout_seconds l"

definition limits_grow :: "registry_limits \<Rightarrow> registry_limits \<Rightarrow> bool" where
  "limits_grow l m \<longleftrightarrow> same_execution_limits l m \<and> list_all2 (\<le>) (growing_limits l) (growing_limits m)"

text \<open>A value of a dictionary stays, up to a relation between its versions.\<close>

definition dict_extends :: "('v \<Rightarrow> 'v \<Rightarrow> bool) \<Rightarrow> 'v dict \<Rightarrow> 'v dict \<Rightarrow> bool" where
  "dict_extends r d d' \<longleftrightarrow> (\<forall>k v. map_of d k = Some v \<longrightarrow> (\<exists>v'. map_of d' k = Some v' \<and> r v v'))"

definition job_extends :: "job_record \<Rightarrow> job_record \<Rightarrow> bool" where
  "job_extends j j' \<longleftrightarrow> job_id j' = job_id j \<and> job_spec_of j' = job_spec_of j
     \<and> prefix (job_attempts j) (job_attempts j')
     \<and> (job_state j \<in> {J_completed, J_exhausted} \<longrightarrow> j' = j)"

definition attempt_extends :: "attempt_record \<Rightarrow> attempt_record \<Rightarrow> bool" where
  "attempt_extends a a' \<longleftrightarrow> at_claim a' = at_claim a \<and> (at_state a \<noteq> A_running \<longrightarrow> a' = a)"

definition notice_extends :: "quarantine_notice \<Rightarrow> quarantine_notice \<Rightarrow> bool" where
  "notice_extends n n' \<longleftrightarrow> qn_notice_id n' = qn_notice_id n \<and> qn_root n' = qn_root n
     \<and> qn_reason n' = qn_reason n \<and> qn_evidence n' = qn_evidence n
     \<and> (\<not> qn_active n \<longrightarrow> n' = n)"

definition extends :: "registry_state \<Rightarrow> registry_state \<Rightarrow> bool" where
  "extends s t \<longleftrightarrow>
     limits_grow (st_limits s) (st_limits t)
     \<and> dict_extends (=) (st_artifacts s) (st_artifacts t)
     \<and> dict_extends job_extends (st_jobs s) (st_jobs t)
     \<and> dict_extends attempt_extends (st_attempts s) (st_attempts t)
     \<and> dict_extends (=) (st_observations s) (st_observations t)
     \<and> dict_extends notice_extends (st_notices s) (st_notices t)"

named_theorems extends_intros \<open>preorder laws of the history relations\<close>

lemma limits_grow_refl [extends_intros]: "limits_grow l l"
  by (simp add: limits_grow_def same_execution_limits_def list_all2_refl)

lemma job_extends_refl [extends_intros]: "job_extends j j"
  by (simp add: job_extends_def)

lemma attempt_extends_refl [extends_intros]: "attempt_extends a a"
  by (simp add: attempt_extends_def)

lemma notice_extends_refl [extends_intros]: "notice_extends n n"
  by (simp add: notice_extends_def)

lemma dict_extends_refl [extends_intros]: "(\<And>v. r v v) \<Longrightarrow> dict_extends r d d"
  by (auto simp: dict_extends_def)

lemma dict_extends_trans:
  assumes "\<And>x y z. r x y \<Longrightarrow> r y z \<Longrightarrow> r x z" "dict_extends r a b" "dict_extends r b c"
  shows "dict_extends r a c"
  using assms unfolding dict_extends_def by metis

lemma dict_extends_put:
  "(\<And>v. r v v) \<Longrightarrow> (\<And>v. map_of d k = Some v \<Longrightarrow> r v x) \<Longrightarrow> dict_extends r d (dict_put k x d)"
  by (auto simp: dict_extends_def map_of_put)

lemma limits_grow_trans: "limits_grow a b \<Longrightarrow> limits_grow b c \<Longrightarrow> limits_grow a c"
  unfolding limits_grow_def same_execution_limits_def
  by (auto elim: list_all2_trans [rotated])

lemma job_extends_trans: "job_extends a b \<Longrightarrow> job_extends b c \<Longrightarrow> job_extends a c"
  by (auto simp: job_extends_def intro: prefix_order.trans)

lemma attempt_extends_trans: "attempt_extends a b \<Longrightarrow> attempt_extends b c \<Longrightarrow> attempt_extends a c"
  by (auto simp: attempt_extends_def)

lemma notice_extends_trans: "notice_extends a b \<Longrightarrow> notice_extends b c \<Longrightarrow> notice_extends a c"
  by (auto simp: notice_extends_def)

lemma extends_refl: "extends s s"
  by (auto simp: extends_def intro!: extends_intros)

lemma dict_equal_trans: "dict_extends (=) a b \<Longrightarrow> dict_extends (=) b c \<Longrightarrow> dict_extends (=) a c"
  by (simp add: dict_extends_def)

lemma job_dict_trans:
  "dict_extends job_extends a b \<Longrightarrow> dict_extends job_extends b c \<Longrightarrow> dict_extends job_extends a c"
  by (erule (1) dict_extends_trans [rotated]) (rule job_extends_trans)

lemma attempt_dict_trans:
  "dict_extends attempt_extends a b \<Longrightarrow> dict_extends attempt_extends b c \<Longrightarrow> dict_extends attempt_extends a c"
  by (erule (1) dict_extends_trans [rotated]) (rule attempt_extends_trans)

lemma notice_dict_trans:
  "dict_extends notice_extends a b \<Longrightarrow> dict_extends notice_extends b c \<Longrightarrow> dict_extends notice_extends a c"
  by (erule (1) dict_extends_trans [rotated]) (rule notice_extends_trans)

lemma extends_trans: "extends s t \<Longrightarrow> extends t u \<Longrightarrow> extends s u"
  unfolding extends_def
  by (intro conjI; elim conjE) (erule (1) limits_grow_trans dict_equal_trans job_dict_trans
      attempt_dict_trans notice_dict_trans)+

section \<open>Every event extends the state\<close>

lemma rows_extends:
  assumes "wf_state rt s" "apply_rows s rows = Inr s'"
  shows "extends s s'"
proof -
  from assms(2) obtain arts where inst: "install (st_limits s) (st_artifacts s) rows = Inr arts"
    and s': "s' = s\<lparr>st_artifacts := arts\<rparr>"
    by (auto simp: apply_rows_def result_simps)
  have "wf_index (st_artifacts s)" using assms(1) by (simp add: wf_state_def)
  from install_lookup [OF this inst] have "dict_extends (=) (st_artifacts s) arts"
    by (auto simp: dict_extends_def)
  then show ?thesis by (simp add: extends_def s' extends_intros)
qed

lemma growing_zip:
  "\<not> list_ex (\<lambda>(a, b). a < b) (zip (growing_limits m) (growing_limits l)) \<Longrightarrow>
   list_all2 (\<le>) (growing_limits l) (growing_limits m)"
  by (auto simp: growing_limits_def)

lemma expand_extends:
  assumes "apply_expand s rows x = Inr s'"
  shows "extends s s'"
proof -
  from assms have v: "valid_limit_expansion x" and prev: "le_previous_limits x = st_limits s"
    and s': "s' = s\<lparr>st_limits := le_limits x\<rparr>"
    by (auto simp: apply_expand_def result_simps)
  have "limits_grow (st_limits s) (le_limits x)"
    using v growing_zip [of "le_limits x" "st_limits s"]
    unfolding limits_grow_def same_execution_limits_def
    by (simp add: valid_limit_expansion_def capacity_only_checks_def Let_def prev)
  then show ?thesis by (auto simp: extends_def s' intro!: extends_intros)
qed

text \<open>The two tables an attempt's life changes.\<close>

lemma life_extends:
  assumes "s' = s\<lparr>st_attempts := dict_put a x (st_attempts s), st_jobs := dict_put k y (st_jobs s)\<rparr>"
    and "\<And>v. map_of (st_attempts s) a = Some v \<Longrightarrow> attempt_extends v x"
    and "\<And>v. map_of (st_jobs s) k = Some v \<Longrightarrow> job_extends v y"
  shows "extends s s'"
  using assms(2,3) by (auto simp: extends_def assms(1) intro!: extends_intros dict_extends_put)

lemma job_lookup_id:
  "wf_state rt s \<Longrightarrow> map_of (st_jobs s) k = Some j \<Longrightarrow> job_id j = k"
  by (simp add: wf_state_def job_wf_def)

lemma action_extends:
  assumes cf: "collision_free rt U" and wf: "wf_state rt s" and docs: "state_documents s \<subseteq> U"
    "set (event_documents d) \<subseteq> U" and step: "apply_action rt s d = Inr s'"
  shows "extends s s'"
proof (cases d)
  case (E_register a)
  with step show ?thesis by (simp add: extends_refl)
next
  case (E_enqueue a spec)
  with step show ?thesis
    by (auto simp: apply_enqueue_def Let_def result_simps has_key_def extends_def
        intro!: extends_intros dict_extends_put)
next
  case (E_claim a c)
  with step obtain job where job: "map_of (st_jobs s) (cl_job_id c) = Some job" "job_state job = J_queued"
    and key: "\<not> list_ex (\<lambda>a. cl_claim_key (at_claim a) = cl_claim_key c) (dict_values (st_attempts s))"
    and id: "cl_attempt_id c = attempt_identity rt (job_id job) (cl_claim_key c) (cl_owner c)"
    and s': "s' = s\<lparr>st_attempts := dict_put (cl_attempt_id c)
         \<lparr>at_claim = c, at_state = A_running, at_reason = None, at_evidence = []\<rparr> (st_attempts s),
       st_jobs := dict_put (job_id job)
         (job\<lparr>job_state := J_running, job_attempts := job_attempts job @ [cl_attempt_id c]\<rparr>) (st_jobs s)\<rparr>"
    by (auto simp: apply_claim_def result_simps)
  have "map_of (st_attempts s) (cl_attempt_id c) = None"
    using fresh_attempt [OF cf wf docs(1) _ key] id docs(2) E_claim job_lookup_id [OF wf job(1)] by simp
  then show ?thesis
    using job job_lookup_id [OF wf job(1)]
    by (intro life_extends [OF s']) (auto simp: job_extends_def)
next
  case (E_abandon a c reason evidence)
  with step show ?thesis
    by (auto simp: apply_abandon_def result_simps job_lookup_id [OF wf] job_extends_def
        attempt_extends_def intro!: life_extends [OF refl])
next
  case (E_retry a k reason evidence)
  with step show ?thesis
    by (auto simp: apply_retry_def result_simps extends_def job_lookup_id [OF wf] job_extends_def
        intro!: extends_intros dict_extends_put split: option.splits)
next
  case (E_reconcile a c b)
  let ?key = "observation_identity rt (cl_attempt_id c) b"
  let ?row = "\<lparr>obr_observation_id = ?key, obr_attempt_id = cl_attempt_id c, obr_observation = b\<rparr>"
  have "v = ?row" if "map_of (st_observations s) ?key = Some v" for v
  proof -
    have "observation_wf rt s ?key v" using wf that by (simp add: wf_state_def)
    moreover have "snapshot_document v \<in> U"
      using that docs(1) by (force simp: state_documents_def ran_def)
    ultimately show ?thesis
      using cf docs(2) E_reconcile by (simp add: observation_wf_def observation_identity_inject)
  qed
  with E_reconcile step show ?thesis
    by (auto simp: apply_reconcile_def Let_def result_simps extends_def intro!: extends_intros dict_extends_put)
next
  case (E_complete a c result observations)
  with step show ?thesis
    by (auto simp: apply_complete_def Let_def result_simps job_lookup_id [OF wf] job_extends_def
        attempt_extends_def intro!: life_extends [OF refl])
next
  case (E_quarantine a n)
  with step show ?thesis
    by (auto simp: apply_quarantine_def result_simps has_key_def extends_def
        intro!: extends_intros dict_extends_put)
next
  case (E_lift a k reason evidence)
  then obtain n where n: "map_of (st_notices s) k = Some n" "qn_active n"
    and s': "s' = s\<lparr>st_notices := dict_put (qn_notice_id n) (n\<lparr>qn_active := False,
       qn_resolution_reason := Some reason, qn_resolution_evidence := evidence\<rparr>) (st_notices s)\<rparr>"
    using step by (auto simp: apply_lift_def result_simps split: option.splits)
  have "qn_notice_id n = k" using wf n(1) by (simp add: wf_state_def notice_wf_def)
  with n s' show ?thesis
    by (auto simp: extends_def notice_extends_def intro!: extends_intros dict_extends_put)
next
  case (E_expand_limits a x)
  with step expand_extends show ?thesis by simp
qed

lemma event_extends:
  assumes cf: "collision_free rt U" and wf: "wf_state rt s" and docs: "state_documents s \<subseteq> U"
    "set (event_documents d) \<subseteq> U" and step: "apply_event rt s d = Inr s'"
  shows "extends s s'"
proof (cases "action_of d = ''expand_limits''")
  case True
  with step action_extends [OF cf wf docs] show ?thesis by (simp add: apply_event_Inr)
next
  case False
  with step obtain t where t: "apply_rows s (event_artifacts d) = Inr t" "apply_action rt t d = Inr s'"
    by (auto simp: apply_event_Inr)
  have "extends t s'"
    by (rule action_extends [OF cf wf_rows [OF wf t(1)] _ docs(2) t(2)]) (simp add: rows_documents [OF t(1)] docs(1))
  with rows_extends [OF wf t(1)] show ?thesis by (rule extends_trans)
qed

section \<open>The interpretations\<close>

text \<open>A trusted state over the documents \<open>U\<close>, none of which collide, and the events inside \<open>U\<close>.\<close>

definition trusted_state :: "runtime \<Rightarrow> json set \<Rightarrow> registry_state \<Rightarrow> bool" where
  "trusted_state rt U s \<longleftrightarrow> collision_free rt U \<and> wf_state rt s \<and> state_documents s \<subseteq> U"

definition event_within :: "json set \<Rightarrow> event_data \<Rightarrow> bool" where
  "event_within U d \<longleftrightarrow> set (event_documents d) \<subseteq> U"

lemma trusted_step:
  "trusted_state rt U s \<Longrightarrow> event_within U d \<Longrightarrow> apply_event rt s d = Inr t \<Longrightarrow> trusted_state rt U t"
  using event_adds_documents [of rt s d t]
  by (auto simp: trusted_state_def event_within_def intro: wf_event)

interpretation registry_log: event_log "apply_event rt" "event_within U" "trusted_state rt U" for rt U
  by unfold_locales (rule trusted_step)

interpretation registry_order: monotone_log "apply_event rt" "event_within U" "trusted_state rt U" extends
  for rt U
  by unfold_locales (auto simp: trusted_state_def event_within_def extends_refl
      intro: extends_trans event_extends)

text \<open>Replaying a history from the empty registry with its initial limits.\<close>

definition replay :: "runtime \<Rightarrow> registry_limits \<Rightarrow> event_data list \<Rightarrow> registry_error + registry_state" where
  "replay rt limits ds = fold_result (apply_event rt) (initial_state limits) ds"

definition history_documents :: "event_data list \<Rightarrow> json set" where
  "history_documents ds = set (concat (map event_documents ds))"

lemma events_within: "list_all (event_within (history_documents (ds @ es))) es"
  by (auto simp: list_all_iff event_within_def history_documents_def)

lemma events_within_prefix: "list_all (event_within (history_documents (ds @ es))) ds"
  by (auto simp: list_all_iff event_within_def history_documents_def)

lemma initial_trusted: "collision_free rt U \<Longrightarrow> trusted_state rt U (initial_state limits)"
  by (simp add: trusted_state_def wf_initial state_documents_def) (simp add: initial_state_def)

lemma replay_trusted:
  assumes "collision_free rt (history_documents (ds @ es))" "replay rt limits ds = Inr s"
  shows "trusted_state rt (history_documents (ds @ es)) s"
  using registry_log.replay_good [OF initial_trusted [OF assms(1)] events_within_prefix]
    assms(2) by (simp add: replay_def)

lemma replay_wf:
  "collision_free rt (history_documents ds) \<Longrightarrow> replay rt limits ds = Inr s \<Longrightarrow> wf_state rt s"
  using replay_trusted [of rt ds "[]" limits s] by (simp add: trusted_state_def)

lemma replay_append:
  "replay rt limits (ds @ es) = bind_result (replay rt limits ds) (\<lambda>s. fold_result (apply_event rt) s es)"
  by (simp add: replay_def fold_result_append)

end
