(* ===== verification/RegistryAccounting.thy ===== *)
theory RegistryAccounting
  imports RegistryHistory
begin

text \<open>
  The accounting ledger: for every upstream attempt the snapshots form a chain of revisions
  \<open>1, 2, ...\<close>, all attributed to one registry attempt, in which a later snapshot keeps every
  receipt, every cost category and every known measurement of an earlier one; and
  \<open>State.latest\<close> returns the newest snapshot of each chain.
\<close>

declare split_paired_All [simp del] split_paired_Ex [simp del]

section \<open>The newest snapshot per upstream attempt\<close>

abbreviation revision_of :: "observation_record \<Rightarrow> int" where
  "revision_of b \<equiv> ob_revision (obr_observation b)"

definition newest_at ::
  "(upstream_key \<times> observation_record) list \<Rightarrow> observation_record list \<Rightarrow> upstream_key \<Rightarrow> bool" where
  "newest_at result xs k \<longleftrightarrow>
     (case map_of result k of
        None \<Rightarrow> \<forall>b \<in> set xs. upstream_key b \<noteq> k
      | Some x \<Rightarrow> x \<in> set xs \<and> upstream_key x = k
          \<and> (\<forall>b \<in> set xs. upstream_key b = k \<longrightarrow> revision_of b \<le> revision_of x))"

lemma newest_step:
  assumes "newest_at result xs k"
  shows "newest_at (latest_step result b) (xs @ [b]) k"
proof (cases "upstream_key b = k")
  case True
  with assms show ?thesis
    by (cases "map_of result k") (force simp: newest_at_def latest_step_def map_of_put)+
next
  case False
  then have "map_of (latest_step result b) k = map_of result k"
    by (auto simp: latest_step_def map_of_put split: option.splits)
  with False assms show ?thesis by (auto simp: newest_at_def split: option.splits)
qed

lemma newest_fold: "newest_at result xs k \<Longrightarrow> newest_at (foldl latest_step result ys) (xs @ ys) k"
proof (induction ys arbitrary: result xs)
  case (Cons y ys)
  from Cons.IH [OF newest_step [OF Cons.prems]] show ?case by simp
qed simp

lemma newest_latest: "newest_at (latest s) (dict_values (st_observations s)) k"
  using newest_fold [of "[]" "[]"] by (simp add: latest_def newest_at_def)

section \<open>The chain of revisions\<close>

definition costs_kept :: "cost_record list \<Rightarrow> cost_record list \<Rightarrow> bool" where
  "costs_kept old new \<longleftrightarrow>
     (\<forall>c \<in> set old. \<exists>d \<in> set new. cost_category d = cost_category c
        \<and> list_all2 (\<lambda>p q. \<not> reduces p q) (cost_values c) (cost_values d))"

definition snapshot_le :: "observation_record \<Rightarrow> observation_record \<Rightarrow> bool" where
  "snapshot_le b b' \<longleftrightarrow> obr_attempt_id b' = obr_attempt_id b
     \<and> set (ob_receipts (obr_observation b)) \<subseteq> set (ob_receipts (obr_observation b'))
     \<and> costs_kept (ob_costs (obr_observation b)) (ob_costs (obr_observation b'))"

definition snapshot_chain :: "observation_record list \<Rightarrow> bool" where
  "snapshot_chain bs \<longleftrightarrow>
     (\<forall>b \<in> set bs. 1 \<le> revision_of b) \<and>
     (\<forall>b \<in> set bs. \<forall>b' \<in> set bs. upstream_key b = upstream_key b' \<longrightarrow>
        (revision_of b \<le> revision_of b' \<longrightarrow> snapshot_le b b')
        \<and> (revision_of b = revision_of b' \<longrightarrow> b = b')) \<and>
     (\<forall>b \<in> set bs. \<forall>r. 1 \<le> r \<and> r \<le> revision_of b \<longrightarrow>
        (\<exists>b' \<in> set bs. upstream_key b' = upstream_key b \<and> revision_of b' = r))"

lemma reduces_refl [simp]: "\<not> reduces p p"
  by (simp add: reduces_def split: option.splits)

lemma reduces_trans: "\<not> reduces p q \<Longrightarrow> \<not> reduces q r \<Longrightarrow> \<not> reduces p r"
  by (auto simp: reduces_def split: option.splits)

lemma costs_kept_refl: "costs_kept cs cs"
  by (auto simp: costs_kept_def intro!: bexI list_all2_refl)

lemma costs_kept_trans:
  assumes "costs_kept a b" "costs_kept b c"
  shows "costs_kept a c"
  unfolding costs_kept_def
proof
  fix x assume "x \<in> set a"
  with assms(1) obtain y where y: "y \<in> set b" "cost_category y = cost_category x"
    "list_all2 (\<lambda>p q. \<not> reduces p q) (cost_values x) (cost_values y)"
    by (auto simp: costs_kept_def)
  with assms(2) obtain z where z: "z \<in> set c" "cost_category z = cost_category y"
    "list_all2 (\<lambda>p q. \<not> reduces p q) (cost_values y) (cost_values z)"
    unfolding costs_kept_def by blast
  have "list_all2 (\<lambda>p q. \<not> reduces p q) (cost_values x) (cost_values z)"
    by (rule list_all2_trans [OF _ y(3) z(3)]) (rule reduces_trans)
  with y(2) z(1,2) show "\<exists>d \<in> set c. cost_category d = cost_category x
      \<and> list_all2 (\<lambda>p q. \<not> reduces p q) (cost_values x) (cost_values d)" by auto
qed

lemma snapshot_le_refl: "snapshot_le b b"
  by (simp add: snapshot_le_def costs_kept_refl)

lemma snapshot_le_trans: "snapshot_le a b \<Longrightarrow> snapshot_le b c \<Longrightarrow> snapshot_le a c"
  by (auto simp: snapshot_le_def intro: costs_kept_trans)

text \<open>What a successful check of one revision against its predecessor establishes.\<close>

lemma check_channels_kept:
  assumes "fold_result (\<lambda>_. check_channel (map (\<lambda>x. (cost_category x, x)) new)) () old = Inr u"
  shows "costs_kept old new"
  using assms
proof (induction old)
  case (Cons c old)
  then obtain d where d: "map_of (map (\<lambda>x. (cost_category x, x)) new) (cost_category c) = Some d"
    "\<not> list_ex (\<lambda>(p, q). reduces p q) (zip (cost_values c) (cost_values d))"
    and rest: "costs_kept old new"
    by (auto simp: bind_result_eq_Inr check_channel_def raise_if_eq_Inr split: option.splits)
  have "d \<in> set new" "cost_category d = cost_category c" using map_of_SomeD [OF d(1)] by auto
  moreover have "list_all2 (\<lambda>p q. \<not> reduces p q) (cost_values c) (cost_values d)"
    using d(2) by (simp add: list_ex_iff list_all2_iff cost_values_def)
  ultimately show ?case using rest by (auto simp: costs_kept_def)
qed (simp add: costs_kept_def)

lemma check_revision_Inr:
  assumes "check_revision s c b = Inr u" and new: "obr_observation x = b" "obr_attempt_id x = cl_attempt_id c"
    and key: "upstream_key x = (ob_source b, ob_upstream_attempt_id b)"
  shows "(map_of (latest s) (upstream_key x) = None \<and> ob_revision b = 1)
    \<or> (\<exists>old. map_of (latest s) (upstream_key x) = Some old \<and> revision_of x = revision_of old + 1
         \<and> snapshot_le old x)"
  using assms
  by (auto simp: check_revision_def key Let_def raise_if_eq_Inr snapshot_le_def
      dest!: check_channels_kept split: option.splits)

section \<open>The chain is kept by every event\<close>

lemma chain_cong:
  "set xs = set ys \<Longrightarrow> snapshot_chain xs = snapshot_chain ys"
  by (simp add: snapshot_chain_def)

lemma chain_first:
  assumes "snapshot_chain bs" "\<forall>b \<in> set bs. upstream_key b \<noteq> upstream_key x" "revision_of x = 1"
  shows "snapshot_chain (x # bs)"
proof -
  have "\<exists>b' \<in> set (x # bs). upstream_key b' = upstream_key b \<and> revision_of b' = r"
    if "b \<in> set (x # bs)" "1 \<le> r \<and> r \<le> revision_of b" for b r
    using that assms by (auto simp: snapshot_chain_def)
  with assms show ?thesis by (auto simp: snapshot_chain_def snapshot_le_refl)
qed

lemma chain_next:
  assumes "snapshot_chain bs" "old \<in> set bs" "upstream_key old = upstream_key x"
    and max: "\<forall>b \<in> set bs. upstream_key b = upstream_key x \<longrightarrow> revision_of b \<le> revision_of old"
    and rev: "revision_of x = revision_of old + 1" and le: "snapshot_le old x"
  shows "snapshot_chain (x # bs)"
proof -
  have pos: "1 \<le> revision_of old" using assms(1,2) by (simp add: snapshot_chain_def)
  have below: "snapshot_le b x" "revision_of b < revision_of x"
    if "b \<in> set bs" "upstream_key b = upstream_key x" for b
  proof -
    have "revision_of b \<le> revision_of old" using max that by blast
    with rev show "revision_of b < revision_of x" by simp
    have "snapshot_le b old"
      using assms(1,2,3) that \<open>revision_of b \<le> revision_of old\<close> unfolding snapshot_chain_def by metis
    then show "snapshot_le b x" using le by (rule snapshot_le_trans)
  qed
  have dense: "\<exists>b' \<in> set (x # bs). upstream_key b' = upstream_key b \<and> revision_of b' = r"
    if "b \<in> set (x # bs)" "1 \<le> r" "r \<le> revision_of b" for b r
  proof (cases "b = x")
    case True
    show ?thesis
    proof (cases "r = revision_of x")
      case False
      with True that rev have "r \<le> revision_of old" by simp
      with assms(1,2) that(2) obtain b' where "b' \<in> set bs" "upstream_key b' = upstream_key old" "revision_of b' = r"
        unfolding snapshot_chain_def by metis
      with assms(3) True show ?thesis by auto
    qed (use True in auto)
  next
    case False
    with that assms(1) show ?thesis by (auto simp: snapshot_chain_def)
  qed
  have pairs: "(revision_of b \<le> revision_of b' \<longrightarrow> snapshot_le b b') \<and> (revision_of b = revision_of b' \<longrightarrow> b = b')"
    if "b \<in> set (x # bs)" "b' \<in> set (x # bs)" "upstream_key b = upstream_key b'" for b b'
  proof (cases "b = x \<or> b' = x")
    case True
    have mem: "b = x \<or> b \<in> set bs" "b' = x \<or> b' \<in> set bs" using that(1,2) by auto
    with True consider "b = x" "b' = x" | "b = x" "b' \<in> set bs" | "b' = x" "b \<in> set bs"
      using mem by blast
    then show ?thesis
    proof cases
      case 2
      with below [of b'] that show ?thesis by simp
    next
      case 3
      with below [of b] that show ?thesis by simp
    qed (simp add: snapshot_le_refl)
  next
    case False
    with that assms(1) show ?thesis by (simp add: snapshot_chain_def)
  qed
  have "1 \<le> revision_of b" if "b \<in> set (x # bs)" for b
    using that assms(1) pos rev by (auto simp: snapshot_chain_def)
  with dense pairs show ?thesis unfolding snapshot_chain_def by blast
qed

definition ledger_wf :: "registry_state \<Rightarrow> bool" where
  "ledger_wf s \<longleftrightarrow> snapshot_chain (dict_values (st_observations s))"

lemma values_put:
  assumes "distinct (keys d)" "map_of d k = None"
  shows "set (dict_values (dict_put k v d)) = set (v # dict_values d)"
  using assms(2) by (induction d) (auto simp: map_of_eq_None_iff split: if_splits)

lemma ledger_reconcile:
  assumes cf: "collision_free rt U" and wf: "wf_state rt s" and docs: "state_documents s \<subseteq> U"
    "observation_document (cl_attempt_id c) b \<in> U" and l: "ledger_wf s"
    and step: "apply_reconcile rt s c b = Inr s'"
  shows "ledger_wf s'"
proof -
  let ?key = "observation_identity rt (cl_attempt_id c) b"
  let ?x = "\<lparr>obr_observation_id = ?key, obr_attempt_id = cl_attempt_id c, obr_observation = b\<rparr>"
  let ?bs = "dict_values (st_observations s)"
  from step obtain u where u: "check_revision s c b = Inr u"
    and s': "s' = s\<lparr>st_observations := dict_put ?key ?x (st_observations s)\<rparr>"
    by (auto simp: apply_reconcile_def Let_def result_simps)
  have dist: "distinct (keys (st_observations s))" using wf by (simp add: wf_state_def)
  have new: "snapshot_chain (?x # ?bs)"
    using check_revision_Inr [OF u, of ?x]
  proof (simp add: upstream_key_def, elim disjE conjE exE)
    assume "map_of (latest s) (ob_source b, ob_upstream_attempt_id b) = None" "ob_revision b = 1"
    then show ?thesis
      using l newest_latest [of s "(ob_source b, ob_upstream_attempt_id b)"]
      by (intro chain_first) (auto simp: newest_at_def upstream_key_def ledger_wf_def)
  next
    fix old assume "map_of (latest s) (ob_source b, ob_upstream_attempt_id b) = Some old"
      "ob_revision b = revision_of old + 1" "snapshot_le old ?x"
    then show ?thesis
      using l newest_latest [of s "(ob_source b, ob_upstream_attempt_id b)"]
      by (intro chain_next [of _ old]) (auto simp: newest_at_def upstream_key_def ledger_wf_def)
  qed
  show ?thesis
  proof (cases "map_of (st_observations s) ?key")
    case None
    then show ?thesis using new chain_cong [OF values_put [OF dist None]]
      by (simp add: ledger_wf_def s')
  next
    case (Some v)
    then have "observation_wf rt s ?key v" using wf by (simp add: wf_state_def)
    moreover have "snapshot_document v \<in> U"
      using Some docs(1) by (force simp: state_documents_def ran_def)
    ultimately have "v = ?x"
      using cf docs(2) by (simp add: observation_wf_def observation_identity_inject)
    with Some l show ?thesis by (simp add: ledger_wf_def s')
  qed
qed

lemma rows_observations: "apply_rows s rows = Inr s' \<Longrightarrow> st_observations s' = st_observations s"
  by (simp add: apply_rows_same)

lemma action_observations:
  "apply_action rt s d = Inr s' \<Longrightarrow> action_of d \<noteq> ''reconcile'' \<Longrightarrow> st_observations s' = st_observations s"
  by (cases d) (auto simp: apply_enqueue_def apply_claim_def apply_abandon_def apply_retry_def
      apply_complete_def apply_quarantine_def apply_lift_def apply_expand_def Let_def result_simps
      split: option.splits)

lemma ledger_action:
  assumes "trusted_state rt U s" "event_within U d" "ledger_wf s" "apply_action rt s d = Inr s'"
  shows "ledger_wf s'"
proof (cases "action_of d = ''reconcile''")
  case True
  then obtain a c b where "d = E_reconcile a c b" by (cases d) simp_all
  with assms show ?thesis
    by (auto simp: trusted_state_def event_within_def intro: ledger_reconcile)
next
  case False
  with assms action_observations [OF assms(4)] show ?thesis by (simp add: ledger_wf_def)
qed

lemma ledger_event:
  assumes "trusted_state rt U s" "event_within U d" "ledger_wf s" "apply_event rt s d = Inr s'"
  shows "ledger_wf s'"
proof (cases "action_of d = ''expand_limits''")
  case True
  with assms ledger_action show ?thesis by (auto simp: apply_event_Inr)
next
  case False
  with assms(4) obtain t where t: "apply_rows s (event_artifacts d) = Inr t" "apply_action rt t d = Inr s'"
    by (auto simp: apply_event_Inr)
  have "trusted_state rt U t"
    using assms(1) wf_rows [OF _ t(1)] rows_documents [OF t(1)] by (simp add: trusted_state_def)
  moreover have "ledger_wf t" using assms(3) rows_observations [OF t(1)] by (simp add: ledger_wf_def)
  ultimately show ?thesis using ledger_action assms(2) t(2) by blast
qed

text \<open>The audited state: the trusted state with its ledger, an event-sourced state of its own.\<close>

definition audited_state :: "runtime \<Rightarrow> json set \<Rightarrow> registry_state \<Rightarrow> bool" where
  "audited_state rt U s \<longleftrightarrow> trusted_state rt U s \<and> ledger_wf s"

interpretation ledger_log: event_log "apply_event rt" "event_within U" "audited_state rt U" for rt U
  by unfold_locales (auto simp: audited_state_def intro: trusted_step ledger_event)

lemma ledger_initial: "ledger_wf (initial_state limits)"
  by (simp add: ledger_wf_def snapshot_chain_def initial_state_def)

lemma replay_ledger:
  "collision_free rt (history_documents ds) \<Longrightarrow> replay rt limits ds = Inr s \<Longrightarrow> ledger_wf s"
  using ledger_log.replay_good [of rt "history_documents ds" "initial_state limits" ds s]
    events_within_prefix [of ds "[]"] initial_trusted ledger_initial
  by (simp add: replay_def audited_state_def)

end
