(* ===== verification/RegistryImpact.thy ===== *)
theory RegistryImpact
  imports RegistryHistory
begin

text \<open>
  The impact of a quarantine root. \<open>tainted\<close> is the specification: the least set of digests that
  holds the root, every registered artifact that depends on a tainted digest, and every artifact a
  tainted job returned. \<open>State.affected\<close> iterates two passes over the tables until nothing grows;
  it computes exactly that set, and \<open>State.usable\<close> refuses exactly the references inside it.
\<close>

section \<open>Specification\<close>

inductive tainted :: "registry_state \<Rightarrow> digest \<Rightarrow> digest \<Rightarrow> bool" for s origin where
  origin: "tainted s origin origin"
| dependent: "(k, rec) \<in> set (st_artifacts s) \<Longrightarrow> d \<in> set (rec_dependencies rec) \<Longrightarrow>
    tainted s origin (ref_sha256 d) \<Longrightarrow> tainted s origin k"
| produced: "(k, j) \<in> set (st_jobs s) \<Longrightarrow> d \<in> set (job_dependencies j) \<Longrightarrow>
    tainted s origin (ref_sha256 d) \<Longrightarrow> a \<in> result_keys j \<Longrightarrow> tainted s origin a"

inductive_cases tainted_elim: "tainted s origin k"

definition tainted_job :: "registry_state \<Rightarrow> digest \<Rightarrow> digest \<Rightarrow> bool" where
  "tainted_job s origin k \<longleftrightarrow>
     (\<exists>j d. (k, j) \<in> set (st_jobs s) \<and> d \<in> set (job_dependencies j) \<and> tainted s origin (ref_sha256 d))"

section \<open>Soundness: every round stays inside the specification\<close>

definition within_taint :: "registry_state \<Rightarrow> digest \<Rightarrow> digest set \<times> digest set \<Rightarrow> bool" where
  "within_taint s origin sj \<longleftrightarrow>
     fst sj \<subseteq> {k. tainted s origin k} \<and> snd sj \<subseteq> {k. tainted_job s origin k}"

lemma artifact_fold_sound:
  assumes "set xs \<subseteq> set (st_artifacts s)" "seen \<subseteq> {k. tainted s origin k}"
  shows "foldl (\<lambda>seen kr. if list_ex (\<lambda>d. ref_sha256 d \<in> seen) (rec_dependencies (snd kr))
      then insert (fst kr) seen else seen) seen xs \<subseteq> {k. tainted s origin k}"
  using assms
proof (induction xs arbitrary: seen)
  case (Cons x xs)
  have "(if list_ex (\<lambda>d. ref_sha256 d \<in> seen) (rec_dependencies (snd x)) then insert (fst x) seen else seen)
      \<subseteq> {k. tainted s origin k}"
    using Cons.prems by (cases x) (auto simp: list_ex_iff intro: tainted.dependent)
  with Cons.IH Cons.prems(1) show ?case by simp
qed simp

lemma job_fold_sound:
  assumes "set xs \<subseteq> set (st_jobs s)" "within_taint s origin sj"
  shows "within_taint s origin (foldl (\<lambda>(seen, jobs) kj.
      if list_ex (\<lambda>d. ref_sha256 d \<in> seen) (job_dependencies (snd kj))
      then (seen \<union> result_keys (snd kj), insert (fst kj) jobs) else (seen, jobs)) sj xs)"
  using assms
proof (induction xs arbitrary: sj)
  case (Cons x xs)
  obtain k j where x: "x = (k, j)" by (cases x)
  obtain seen jobs where sj: "sj = (seen, jobs)" by (cases sj)
  show ?case
  proof (cases "list_ex (\<lambda>d. ref_sha256 d \<in> seen) (job_dependencies j)")
    case True
    then obtain d where d: "d \<in> set (job_dependencies j)" "tainted s origin (ref_sha256 d)"
      using Cons.prems(2) by (auto simp: list_ex_iff within_taint_def sj)
    have "(k, j) \<in> set (st_jobs s)" using Cons.prems(1) x by simp
    with d have "result_keys j \<subseteq> {k. tainted s origin k}" "tainted_job s origin k"
      by (auto simp: tainted_job_def intro: tainted.produced)
    with Cons.prems(2) have "within_taint s origin (seen \<union> result_keys j, insert k jobs)"
      by (simp add: within_taint_def sj)
    with Cons.IH Cons.prems(1) True show ?thesis by (simp add: x sj)
  qed (use Cons x sj in simp)
qed simp

lemma round_sound: "within_taint s origin sj \<Longrightarrow> within_taint s origin (impact_round s sj)"
  unfolding impact_round_def job_pass_def artifact_pass_def
  by (rule job_fold_sound) (auto simp: within_taint_def dest: artifact_fold_sound [THEN subsetD, rotated 2])

lemma affected_loop_sound: "within_taint s origin sj \<Longrightarrow> within_taint s origin (affected_loop s sj)"
proof (induction s sj rule: affected_loop.induct)
  case (1 s sj)
  then show ?case by (subst affected_loop.simps) (simp add: Let_def round_sound)
qed

section \<open>Completeness: the loop stops at a closed pair\<close>

lemma artifact_fold_complete:
  assumes "(k, rec) \<in> set xs" "d \<in> set (rec_dependencies rec)" "ref_sha256 d \<in> seen"
  shows "k \<in> foldl (\<lambda>seen kr. if list_ex (\<lambda>d. ref_sha256 d \<in> seen) (rec_dependencies (snd kr))
      then insert (fst kr) seen else seen) seen xs"
  using assms
proof (induction xs arbitrary: seen)
  case (Cons x xs)
  let ?f = "\<lambda>seen kr. if list_ex (\<lambda>d. ref_sha256 d \<in> seen) (rec_dependencies (snd kr))
      then insert (fst kr) seen else seen"
  have step: "?f seen x \<subseteq> foldl ?f (?f seen x) xs" by (rule artifact_fold_bounds [THEN conjunct1])
  show ?case
  proof (cases "x = (k, rec)")
    case True
    then have "k \<in> ?f seen x" using Cons.prems by (auto simp: list_ex_iff)
    with step show ?thesis by auto
  next
    case False
    then show ?thesis using Cons.prems Cons.IH [of "?f seen x"] by auto
  qed
qed simp

lemma job_fold_complete:
  assumes "(k, j) \<in> set xs" "d \<in> set (job_dependencies j)" "ref_sha256 d \<in> seen"
    and "foldl (\<lambda>(seen, jobs) kj. if list_ex (\<lambda>d. ref_sha256 d \<in> seen) (job_dependencies (snd kj))
      then (seen \<union> result_keys (snd kj), insert (fst kj) jobs) else (seen, jobs)) (seen, jobs) xs = (seen', jobs')"
  shows "k \<in> jobs' \<and> result_keys j \<subseteq> seen'"
  using assms
proof (induction xs arbitrary: seen jobs)
  case (Cons x xs)
  let ?on = "list_ex (\<lambda>d. ref_sha256 d \<in> seen) (job_dependencies (snd x))"
  let ?seen = "if ?on then seen \<union> result_keys (snd x) else seen"
  let ?jobs = "if ?on then insert (fst x) jobs else jobs"
  have rest: "foldl (\<lambda>(seen, jobs) kj. if list_ex (\<lambda>d. ref_sha256 d \<in> seen) (job_dependencies (snd kj))
      then (seen \<union> result_keys (snd kj), insert (fst kj) jobs) else (seen, jobs)) (?seen, ?jobs) xs = (seen', jobs')"
    using Cons.prems(4) by (cases ?on) simp_all
  show ?case
  proof (cases "x = (k, j)")
    case True
    then have "?on" using Cons.prems(2,3) by (auto simp: list_ex_iff)
    with True job_fold_bounds [OF rest] show ?thesis by auto
  next
    case False
    with Cons.prems(1) have "(k, j) \<in> set xs" by auto
    from Cons.IH [OF this Cons.prems(2) _ rest] Cons.prems(3) show ?thesis by simp
  qed
qed simp

lemma affected_loop_fixpoint:
  assumes "finite (fst sj)" "finite (snd sj)"
  shows "fst sj \<subseteq> fst (affected_loop s sj) \<and> impact_round s (affected_loop s sj) = affected_loop s sj"
  using assms
proof (induction s sj rule: affected_loop.induct)
  case (1 s sj)
  obtain seen jobs where sj: "sj = (seen, jobs)" by (cases sj)
  obtain seen' jobs' where r: "impact_round s sj = (seen', jobs')" by fastforce
  note b = impact_round_bounds [OF r [unfolded sj]]
  have fin: "finite seen'" "finite jobs'"
    using b 1(2,3) by (auto simp: sj intro: finite_subset)
  show ?case
  proof (cases "card seen' + card jobs' = card seen + card jobs")
    case True
    have "card seen \<le> card seen'" "card jobs \<le> card jobs'"
      using b fin by (auto intro: card_mono)
    with True have "card seen = card seen'" "card jobs = card jobs'" by auto
    then have eq: "seen = seen'" "jobs = jobs'"
      using card_subset_eq [OF fin(1) b(1)] card_subset_eq [OF fin(2) b(2)] by simp_all
    then have "affected_loop s sj = sj"
      using r by (subst affected_loop.simps) (simp add: sj Let_def)
    with r eq show ?thesis by (simp add: sj)
  next
    case False
    then have "affected_loop s sj = affected_loop s (seen', jobs')"
      using r by (subst affected_loop.simps) (simp add: sj Let_def)
    moreover have "seen' \<subseteq> fst (affected_loop s (seen', jobs'))
        \<and> impact_round s (affected_loop s (seen', jobs')) = affected_loop s (seen', jobs')"
      using 1(1) [of "(seen', jobs')"] False fin r by (simp add: sj)
    ultimately show ?thesis using b(1) by (auto simp: sj)
  qed
qed

lemma fixpoint_closed:
  assumes fix_round: "impact_round s (A, J) = (A, J)" and "origin \<in> A"
  shows "{k. tainted s origin k} \<subseteq> A \<and> {k. tainted_job s origin k} \<subseteq> J"
proof -
  from fix_round have pass: "job_pass s (artifact_pass s A, J) = (A, J)" by (simp add: impact_round_def)
  then have "artifact_pass s A \<subseteq> A" by (auto simp: job_pass_def dest: job_fold_bounds)
  with artifact_pass_bounds(1) have art: "artifact_pass s A = A" by blast
  note fold = pass [unfolded art job_pass_def]
  have t: "k \<in> A" if "tainted s origin k" for k
    using that
  proof induction
    case (dependent k rec d)
    then have "k \<in> artifact_pass s A" unfolding artifact_pass_def by (blast intro: artifact_fold_complete)
    with art show ?case by simp
  next
    case (produced k j d a)
    show ?case using job_fold_complete [OF produced.hyps(1,2) produced.IH fold] produced.hyps(4) by blast
  qed (rule assms(2))
  have "k \<in> J" if "tainted_job s origin k" for k
    using that t job_fold_complete [OF _ _ _ fold] unfolding tainted_job_def by blast
  with t show ?thesis by blast
qed

lemma affected_Inr:
  "affected s r = Inr (A, J) \<longleftrightarrow> registered (st_artifacts s) r
     \<and> A = {k. tainted s (ref_sha256 r) k} \<and> J = {k. tainted_job s (ref_sha256 r) k}"
proof -
  obtain A' J' where r: "affected_loop s ({ref_sha256 r}, {}) = (A', J')" by fastforce
  have "within_taint s (ref_sha256 r) (A', J')"
    using affected_loop_sound [of s "ref_sha256 r" "({ref_sha256 r}, {})"]
    by (simp add: within_taint_def r tainted.origin)
  moreover have "{k. tainted s (ref_sha256 r) k} \<subseteq> A' \<and> {k. tainted_job s (ref_sha256 r) k} \<subseteq> J'"
    using affected_loop_fixpoint [of "({ref_sha256 r}, {})" s] fixpoint_closed [of s A' J' "ref_sha256 r"]
    by (simp add: r)
  ultimately have "A' = {k. tainted s (ref_sha256 r) k}" "J' = {k. tainted_job s (ref_sha256 r) k}"
    by (auto simp: within_taint_def)
  then show ?thesis by (auto simp: affected_def result_simps r)
qed

section \<open>What the guards of the actions establish\<close>

lemma usable_untainted:
  assumes "usable s refs ignored = Inr u" "ref \<in> set refs"
    and "n \<in> set (dict_values (st_notices s))" "qn_active n" "ref_sha256 (qn_root n) \<notin> ignored"
  shows "\<not> tainted s (ref_sha256 (qn_root n)) (ref_sha256 ref)"
proof -
  have each: "\<exists>u. f x = Inr u" if "fold_result (\<lambda>_. f) () xs = Inr v" "x \<in> set xs"
    for f :: "'a \<Rightarrow> registry_error + unit" and xs v x
    using that by (induction xs) (auto simp: bind_result_eq_Inr)
  from each [OF assms(1)[unfolded usable_def] assms(2)]
  have "\<exists>u. fold_result (\<lambda>_ n. check_notice s ignored ref n) () (dict_values (st_notices s)) = Inr u"
    by (auto simp: usable_ref_def result_simps)
  then obtain v where "fold_result (\<lambda>_ n. check_notice s ignored ref n) () (dict_values (st_notices s)) = Inr v" ..
  from each [OF this assms(3)] assms(4,5)
  obtain A J where "affected s (qn_root n) = Inr (A, J)" "ref_sha256 ref \<notin> A"
    by (auto simp: check_notice_def result_simps)
  then show ?thesis by (simp add: affected_Inr)
qed

text \<open>No ignored roots outside an audit job under the reserved policy kind.\<close>

lemma ignored_roots_ordinary:
  "spec_operation spec \<noteq> Op_audit \<or> ref_kind (spec_configuration spec) \<noteq> POLICY \<Longrightarrow>
   ignored_roots s spec = Inr {}"
  by (simp add: ignored_roots_def)

lemma job_usable_untainted:
  assumes "job_usable s spec refs = Inr u" "ref \<in> set refs"
  shows "\<exists>ignored. ignored_roots s spec = Inr ignored \<and>
    (\<forall>n \<in> set (dict_values (st_notices s)). qn_active n \<and> ref_sha256 (qn_root n) \<notin> ignored
       \<longrightarrow> \<not> tainted s (ref_sha256 (qn_root n)) (ref_sha256 ref))"
  using assms usable_untainted by (fastforce simp: job_usable_def result_simps)

end
