(* ===== verification/RegistrySamples.thy ===== *)
theory RegistrySamples
  imports RegistryAccounting RegistryImpact
begin

text \<open>
  A concrete runtime and a concrete registry history, the instance at which the properties of the
  registry are applied: an artifact, one job that is claimed, observed twice and completed, and a
  quarantine of the artifact. The sample digest is the table of the digests of
  the documents the history hashes, in which they do not collide.
\<close>

section \<open>A runtime\<close>

text \<open>A table of documents and their digests; the float text is numerator, \<open>e\<close>, denominator.\<close>

definition fraction_repr :: "rat \<Rightarrow> string" where
  "fraction_repr x = (case quotient_of x of (p, q) \<Rightarrow> int_repr p @ CHR ''e'' # int_repr q)"

fun table_digest :: "(json \<times> digest) list \<Rightarrow> string \<Rightarrow> digest" where
  "table_digest [] t = replicate 64 CHR ''0''"
| "table_digest ((d, h) # es) t =
     (if canonical_json \<lparr>sha256 = (\<lambda>_. []), float_repr = fraction_repr\<rparr> d = t then h else table_digest es t)"

definition table_runtime :: "(json \<times> digest) list \<Rightarrow> runtime" where
  "table_runtime es = \<lparr>sha256 = table_digest es, float_repr = fraction_repr\<rparr>"

lemma int_repr_no_e: "CHR ''e'' \<notin> set (int_repr i)"
  using int_repr_chars [of i] by auto

lemma table_float_text: "float_repr rt = fraction_repr \<Longrightarrow> float_text_ok rt"
proof -
  assume rt: "float_repr rt = fraction_repr"
  have "x = y" if "fraction_repr x = fraction_repr y" for x y
  proof -
    obtain p q p' q' where q: "quotient_of x = (p, q)" "quotient_of y = (p', q')" by fastforce
    with that have eq: "int_repr p @ CHR ''e'' # int_repr q = int_repr p' @ CHR ''e'' # int_repr q'"
      by (simp add: fraction_repr_def)
    have take: "takeWhile (\<lambda>c. c \<noteq> CHR ''e'') (int_repr i @ CHR ''e'' # t) = int_repr i" for i t
      using int_repr_no_e [of i] by (subst takeWhile_append2) (metis, simp)
    have "int_repr p = int_repr p'" using arg_cong [OF eq, of "takeWhile (\<lambda>c. c \<noteq> CHR ''e'')"] by (simp add: take)
    with eq q show ?thesis by (simp add: quotient_of_inject)
  qed
  moreover have "list_all number_char (fraction_repr x)" for x
  proof -
    obtain p q where "quotient_of x = (p, q)" by fastforce
    moreover have "number_char c" if "c \<in> set (int_repr i)" for i c
    proof -
      have "set ''-0123456789'' \<subseteq> set ''0123456789+-.e''" by simp
      with int_repr_chars [of i] that show ?thesis unfolding number_char_def by blast
    qed
    moreover have "number_char CHR ''e''" by (simp add: number_char_def)
    ultimately show ?thesis by (auto simp: fraction_repr_def list_all_iff)
  qed
  ultimately show ?thesis
    by (simp add: float_text_ok_def inj_def rt) (simp add: fraction_repr_def split: prod.splits)
qed

section \<open>A history\<close>

definition sample_ref :: "char \<Rightarrow> artifact_ref" where
  "sample_ref c = \<lparr>ref_sha256 = replicate 64 c, ref_kind = ''payload'', ref_schema_version = 1,
     ref_visibility = V_PRIVATE, ref_encoding = Enc_bytes\<rparr>"

definition sample_row :: "char \<Rightarrow> char list \<Rightarrow> artifact_record" where
  "sample_row c ds = \<lparr>rec_ref = sample_ref c, rec_dependencies = map sample_ref ds\<rparr>"

definition sample_spec :: job_spec where
  "sample_spec = \<lparr>spec_operation = Op_grade, spec_inputs = [sample_ref CHR ''a''],
     spec_configuration = sample_ref CHR ''a'', spec_implementation = replicate 40 CHR ''1'',
     spec_invocation = ''grade-1'', spec_attempt_limit = 2\<rparr>"

definition sample_job :: digest where
  "sample_job = replicate 64 CHR ''1''"

definition sample_attempt :: digest where
  "sample_attempt = replicate 64 CHR ''2''"

definition sample_claim :: "string \<Rightarrow> claim" where
  "sample_claim key = \<lparr>cl_job_id = sample_job,
     cl_attempt_id = sample_attempt,
     cl_owner = ''worker'', cl_claim_key = key, cl_token = replicate 64 CHR ''7''\<rparr>"

definition sample_cost :: "rat \<Rightarrow> cost_record" where
  "sample_cost usd = \<lparr>cost_category = C_execution, cost_wall_seconds = None, cost_cpu_seconds = None,
     cost_gpu_seconds = None, cost_input_tokens = None, cost_output_tokens = None,
     cost_human_minutes = None, cost_usd = Some usd, cost_measurement = M_partial, cost_note = ''receipt''\<rparr>"

definition sample_observation :: "int \<Rightarrow> rat \<Rightarrow> cost_observation" where
  "sample_observation revision usd = \<lparr>ob_source = ''provider'', ob_upstream_attempt_id = ''run-1'',
     ob_revision = revision, ob_receipts = [sample_ref CHR ''a''], ob_costs = [sample_cost usd]\<rparr>"

definition sample_result :: "rat \<Rightarrow> operation_result" where
  "sample_result usd = \<lparr>or_operation = Op_grade, or_disposition = D_REJECTED, or_artifacts = [],
     or_evidence = [], or_costs = [sample_cost usd], or_reason = ''graded''\<rparr>"

definition sample_observation_id :: "int \<Rightarrow> digest" where
  "sample_observation_id revision = replicate 64 (if revision = 1 then CHR ''3'' else CHR ''4'')"

definition sample_runtime :: runtime where
  "sample_runtime = table_runtime
     [(doc_spec sample_spec, sample_job),
      (attempt_document sample_job ''first'' ''worker'', sample_attempt),
      (observation_document sample_attempt (sample_observation 1 2), sample_observation_id 1),
      (observation_document sample_attempt (sample_observation 2 3), sample_observation_id 2)]"

definition sample_notice :: quarantine_notice where
  "sample_notice = \<lparr>qn_notice_id = ''notice-1'', qn_root = sample_ref CHR ''a'', qn_reason = ''damaged'',
     qn_evidence = [sample_ref CHR ''a''], qn_active = True, qn_resolution_reason = None,
     qn_resolution_evidence = []\<rparr>"

definition sample_start :: "event_data list" where
  "sample_start =
     [E_register [sample_row CHR ''a'' ''''],
      E_enqueue [] sample_spec,
      E_claim [] (sample_claim ''first''),
      E_reconcile [] (sample_claim ''first'') (sample_observation 1 2)]"

definition sample_end :: "event_data list" where
  "sample_end =
     [E_reconcile [] (sample_claim ''first'') (sample_observation 2 3),
      E_complete [] (sample_claim ''first'') (sample_result 3) [sample_observation_id 2]]"

section \<open>The states of the history\<close>

definition sample_job_record :: "job_state \<Rightarrow> digest list \<Rightarrow> job_record" where
  "sample_job_record st attempts = \<lparr>job_id = sample_job, job_spec_of = sample_spec, job_state = st,
     job_attempts = attempts, job_result = None, job_result_observations = []\<rparr>"

definition sample_attempt_record :: attempt_record where
  "sample_attempt_record = \<lparr>at_claim = sample_claim ''first'', at_state = A_running, at_reason = None,
     at_evidence = []\<rparr>"

definition sample_row_of :: "int \<Rightarrow> rat \<Rightarrow> observation_record" where
  "sample_row_of revision usd = \<lparr>obr_observation_id = sample_observation_id revision,
     obr_attempt_id = sample_attempt, obr_observation = sample_observation revision usd\<rparr>"

definition registered_sample :: registry_state where
  "registered_sample = \<lparr>st_limits = default_limits,
     st_artifacts = [(replicate 64 CHR ''a'', sample_row CHR ''a'' [])], st_jobs = [],
     st_attempts = [], st_observations = [], st_notices = []\<rparr>"

definition queued_sample :: registry_state where
  "queued_sample = registered_sample\<lparr>st_jobs := [(sample_job, sample_job_record J_queued [])]\<rparr>"

definition running_sample :: registry_state where
  "running_sample = registered_sample
     \<lparr>st_jobs := [(sample_job, sample_job_record J_running [sample_attempt])],
      st_attempts := [(sample_attempt, sample_attempt_record)]\<rparr>"

definition observed_sample :: registry_state where
  "observed_sample = running_sample
     \<lparr>st_observations := [(sample_observation_id 1, sample_row_of 1 2)]\<rparr>"

definition revised_sample :: registry_state where
  "revised_sample = running_sample
     \<lparr>st_observations := [(sample_observation_id 1, sample_row_of 1 2),
        (sample_observation_id 2, sample_row_of 2 3)]\<rparr>"

definition completed_sample :: registry_state where
  "completed_sample = revised_sample
     \<lparr>st_jobs := [(sample_job, (sample_job_record J_completed [sample_attempt])
        \<lparr>job_result := Some (sample_result 3), job_result_observations := [sample_observation_id 2]\<rparr>)],
      st_attempts := [(sample_attempt, sample_attempt_record\<lparr>at_state := A_completed\<rparr>)]\<rparr>"

lemma sample_digests [simp]: "is_digest sample_job" "is_digest sample_attempt"
  "is_digest (sample_observation_id r)" "sample_observation_id 1 \<noteq> sample_observation_id 2"
  by (auto simp: is_digest_def sample_job_def sample_attempt_def sample_observation_id_def is_lower_hex_def
      list_all_iff)

lemma sample_valid [simp]: "valid_job_spec sample_spec" "valid_observation (sample_observation 1 2)"
  "valid_observation (sample_observation 2 3)" "valid_operation_result (sample_result 3)"
  "valid_artifact_record (sample_row CHR ''a'' [])" "valid_claim (sample_claim ''first'')"
  by code_simp+

lemma canonical_json_float:
  "float_repr rt = float_repr rt' \<Longrightarrow> canonical_json rt d = canonical_json rt' d"
proof (induction d)
  case (JArr xs)
  then show ?case by (simp cong: map_cong)
next
  case (JObj kvs)
  then have "map (\<lambda>kv. (fst kv, canonical_json rt (snd kv))) kvs = map (\<lambda>kv. (fst kv, canonical_json rt' (snd kv))) kvs"
    by (auto simp: snds.simps)
  then show ?case by (simp only: canonical_json.simps)
qed simp_all

lemma table_identity:
  "identity (table_runtime []) d = replicate 64 CHR ''0''"
  "identity (table_runtime ((e, h) # es)) d = (if same_json e d then h else identity (table_runtime es) d)"
proof -
  let ?rt = "\<lparr>sha256 = (\<lambda>_. []), float_repr = fraction_repr\<rparr>"
  have "canonical_json (table_runtime es) d = canonical_json ?rt d" for es d
    by (rule canonical_json_float) (simp add: table_runtime_def)
  moreover have "canonical_json ?rt e = canonical_json ?rt d \<longleftrightarrow> same_json e d"
    by (rule canonical_json_eq_iff [OF table_float_text]) simp
  ultimately show "identity (table_runtime []) d = replicate 64 CHR ''0''"
    "identity (table_runtime ((e, h) # es)) d = (if same_json e d then h else identity (table_runtime es) d)"
    by (simp_all add: identity_def) (simp_all add: table_runtime_def)
qed

lemma same_json_keys:
  assumes "same_json (JObj xs) (JObj ys)"
  shows "set (map fst xs) \<subseteq> set (map fst ys)"
proof -
  have "set (map fst (sort_key fst (map (\<lambda>kv. (fst kv, sorted_json (snd kv))) xs)))
      = set (map fst (sort_key fst (map (\<lambda>kv. (fst kv, sorted_json (snd kv))) ys)))"
    using assms by (simp add: same_json_def)
  then show ?thesis by (simp add: image_image)
qed

lemma sample_claim_fields [simp]: "cl_job_id (sample_claim k) = sample_job"
  "cl_claim_key (sample_claim k) = k" "cl_owner (sample_claim k) = ''worker''"
  "cl_attempt_id (sample_claim k) = sample_attempt"
  by (simp_all add: sample_claim_def)

lemma sample_documents_differ:
  "\<not> same_json (doc_spec sp) (attempt_document j k u)" "\<not> same_json (doc_spec sp) (observation_document a b)"
  "\<not> same_json (attempt_document j k u) (observation_document a b)"
  by (auto simp: doc_spec_def attempt_document_def observation_document_def dest!: same_json_keys)

lemma sample_observation_differ:
  "\<not> same_json (observation_document a (sample_observation 1 2)) (observation_document a (sample_observation 2 3))"
  by (simp add: observation_document_def same_json_simps) (simp add: sample_observation_def)

lemma sample_identities [simp]:
  "identity sample_runtime (doc_spec sample_spec) = sample_job"
  "attempt_identity sample_runtime sample_job ''first'' ''worker'' = sample_attempt"
  "observation_identity sample_runtime sample_attempt (sample_observation 1 2) = sample_observation_id 1"
  "observation_identity sample_runtime sample_attempt (sample_observation 2 3) = sample_observation_id 2"
  by (simp_all add: sample_runtime_def table_identity attempt_identity_def observation_identity_def
      sample_documents_differ sample_observation_differ)

lemma sample_fields [simp]: "job_id (sample_job_record st a) = sample_job"
  "job_spec_of (sample_job_record st a) = sample_spec" "job_state (sample_job_record st a) = st"
  "job_attempts (sample_job_record st a) = a" "job_result (sample_job_record st a) = None"
  "at_claim sample_attempt_record = sample_claim ''first''" "at_state sample_attempt_record = A_running"
  "spec_attempt_limit sample_spec = 2" "spec_inputs sample_spec = [sample_ref CHR ''a'']"
  "spec_configuration sample_spec = sample_ref CHR ''a''" "spec_operation sample_spec = Op_grade"
  "rec_ref (sample_row c ds) = sample_ref c" "ref_sha256 (sample_ref c) = replicate 64 c"
  by (simp_all add: sample_job_record_def sample_attempt_record_def sample_spec_def sample_row_def
      sample_ref_def)

lemma sample_independent: "rec_dependencies (sample_row c []) = []"
  by (simp add: sample_row_def)

text \<open>The registered artifact; an event without rows leaves it as it is.\<close>

lemma register_rows: "apply_rows (initial_state default_limits) [sample_row CHR ''a'' []] = Inr registered_sample"
  by (simp add: apply_rows_def validated_def initial_state_def install_def install_record_def scan_record_def
      visited_count_def parent_count_def children_of_def kahn.simps Let_def registered_sample_def
      sample_independent)
    (simp add: default_limits_def)

lemma install_none:
  "install default_limits [(replicate 64 CHR ''a'', sample_row CHR ''a'' [])] []
     = Inr [(replicate 64 CHR ''a'', sample_row CHR ''a'' [])]"
  by (simp add: install_def scan_record_def visited_count_def parent_count_def children_of_def
      kahn.simps Let_def sample_independent) (simp add: default_limits_def)

lemma no_rows: "st_artifacts s = st_artifacts registered_sample \<Longrightarrow> st_limits s = default_limits
   \<Longrightarrow> apply_rows s [] = Inr s"
  using install_none by (simp add: apply_rows_def registered_sample_def default_limits_def)

lemma sample_parts [simp]:
  "st_limits registered_sample = default_limits" "st_jobs registered_sample = []"
  "st_attempts registered_sample = []" "st_observations registered_sample = []"
  "st_notices registered_sample = []"
  by (simp_all add: registered_sample_def)

lemma sample_registered: "st_artifacts s = st_artifacts registered_sample \<Longrightarrow>
   registered (st_artifacts s) (sample_ref CHR ''a'')"
  by (simp add: registered_def registered_sample_def)

lemma sample_usable: "st_artifacts s = st_artifacts registered_sample \<Longrightarrow> st_notices s = [] \<Longrightarrow>
   set refs \<subseteq> {sample_ref CHR ''a''} \<Longrightarrow> job_usable s sample_spec refs = Inr ()"
  using sample_registered [of s]
  by (induction refs) (auto simp: job_usable_def ignored_roots_def usable_def usable_ref_def)

lemmas sample_states = queued_sample_def running_sample_def observed_sample_def revised_sample_def
  completed_sample_def

lemma run_register:
  "apply_event sample_runtime (initial_state default_limits) (E_register [sample_row CHR ''a'' []])
     = Inr registered_sample"
  by (simp add: apply_event_def register_rows)

lemma run_enqueue: "apply_event sample_runtime registered_sample (E_enqueue [] sample_spec) = Inr queued_sample"
  by (simp add: apply_event_def no_rows apply_enqueue_def validated_def sample_usable has_key_def
      queued_sample_def sample_job_record_def) (simp add: default_limits_def)

lemma run_claim:
  "apply_event sample_runtime queued_sample (E_claim [] (sample_claim ''first'')) = Inr running_sample"
proof -
  have "valid_job ((sample_job_record J_queued [])\<lparr>job_state := J_running, job_attempts := [sample_attempt]\<rparr>)"
    by (simp add: valid_job_def) (simp add: sample_job_record_def)
  then show ?thesis
    by (simp add: apply_event_def no_rows apply_claim_def validated_def get_job_def sample_usable
        sample_states sample_attempt_record_def) (simp add: sample_job_record_def)
qed

lemma run_reconcile:
  "apply_event sample_runtime running_sample
     (E_reconcile [] (sample_claim ''first'') (sample_observation 1 2)) = Inr observed_sample"
  by (simp add: apply_event_def no_rows apply_reconcile_def Let_def validated_def get_job_def authenticate_def
      sample_states check_revision_def latest_def sample_row_of_def) (simp add: sample_observation_def)

lemma sample_latest:
  "latest observed_sample = [((''provider'', ''run-1''), sample_row_of 1 2)]"
  "latest revised_sample = [((''provider'', ''run-1''), sample_row_of 2 3)]"
  by (simp_all add: latest_def sample_states latest_step_def upstream_key_def sample_row_of_def)
    (simp_all add: sample_observation_def)

lemma run_revise:
  "apply_event sample_runtime observed_sample
     (E_reconcile [] (sample_claim ''first'') (sample_observation 2 3)) = Inr revised_sample"
proof -
  have "check_revision observed_sample (sample_claim ''first'') (sample_observation 2 3) = Inr ()"
    by (simp add: check_revision_def sample_latest sample_row_of_def)
      (simp add: sample_observation_def check_channel_def sample_cost_def reduces_def cost_values_def)
  then show ?thesis
    by (simp add: apply_event_def no_rows apply_reconcile_def Let_def validated_def get_job_def authenticate_def
        sample_states) (simp add: sample_row_of_def)
qed

lemma complete_sample:
  "apply_complete revised_sample (sample_claim ''first'') (sample_result 3) [sample_observation_id 2]
     = Inr completed_sample"
proof -
  have wanted: "wanted_observations revised_sample sample_attempt = [sample_observation_id 2]"
    by (simp add: wanted_observations_def sample_latest sample_row_of_def)
  have result: "or_operation (sample_result 3) = Op_grade" "or_costs (sample_result 3) = [sample_cost 3]"
    "or_artifacts (sample_result 3) = []" "result_evidence (sample_result 3) = []"
    by (simp_all add: sample_result_def result_evidence_def)
  have costs: "observation_costs revised_sample [sample_observation_id 2] = Inr [sample_cost 3]"
    by (simp add: observation_costs_def sample_states sample_row_of_def) (simp add: sample_observation_def sample_digests(4) [THEN not_sym])
  have valid: "valid_attempt (sample_attempt_record\<lparr>at_state := A_completed\<rparr>)"
    by (simp add: valid_attempt_def valid_refs_def) (simp add: sample_attempt_record_def)
  have job: "valid_job ((sample_job_record J_running [sample_attempt])\<lparr>job_state := J_completed,
      job_result := Some (sample_result 3), job_result_observations := [sample_observation_id 2]\<rparr>)"
    by (simp add: valid_job_def)
  have done_job: "(sample_job_record J_running [sample_attempt])\<lparr>job_state := J_completed,
      job_result := Some (sample_result 3), job_result_observations := [sample_observation_id 2]\<rparr>
    = (sample_job_record J_completed [sample_attempt])\<lparr>job_result := Some (sample_result 3),
        job_result_observations := [sample_observation_id 2]\<rparr>"
    by (simp add: sample_job_record_def)
  have state: "st_jobs revised_sample = [(sample_job, sample_job_record J_running [sample_attempt])]"
    "st_attempts revised_sample = [(sample_attempt, sample_attempt_record)]"
    "st_notices revised_sample = []" "st_limits revised_sample = default_limits"
    "st_artifacts revised_sample = st_artifacts registered_sample"
    by (simp_all add: sample_states)
  show ?thesis
    by (simp add: apply_complete_def Let_def validated_def get_job_def authenticate_def
        wanted result costs valid job [unfolded done_job] state sample_usable done_job) (simp add: sample_states)
qed

lemma run_complete:
  "apply_event sample_runtime revised_sample
     (E_complete [] (sample_claim ''first'') (sample_result 3) [sample_observation_id 2]) = Inr completed_sample"
proof -
  have "apply_rows revised_sample [] = Inr revised_sample" by (rule no_rows) (simp_all add: sample_states)
  then show ?thesis by (simp add: apply_event_def complete_sample)
qed

lemma sample_start_run: "replay sample_runtime default_limits sample_start = Inr observed_sample"
  by (simp add: replay_def sample_start_def run_register run_enqueue run_claim run_reconcile)

lemma sample_run: "replay sample_runtime default_limits (sample_start @ sample_end) = Inr completed_sample"
  by (simp add: replay_append sample_start_run) (simp add: sample_end_def run_revise run_complete)

lemma sample_documents_apart: "collision_free sample_runtime (history_documents (sample_start @ sample_end))"
proof -
  have ok: "float_text_ok sample_runtime"
    by (rule table_float_text) (simp add: sample_runtime_def table_runtime_def)
  have "sample_attempt \<noteq> sample_observation_id r" "sample_observation_id r \<noteq> sample_attempt" for r
    by (simp_all add: sample_attempt_def sample_observation_id_def)
  then have "collision_free sample_runtime {attempt_document sample_job ''first'' ''worker'',
     observation_document sample_attempt (sample_observation 1 2),
     observation_document sample_attempt (sample_observation 2 3)}"
    using sample_identities sample_digests(4) sample_digests(4) [THEN not_sym] ok
    by (auto simp: collision_free_def inj_on_def attempt_identity_def identity_def
        observation_identity_def)
  then show ?thesis
    by (rule collision_free_subset) (auto simp: history_documents_def sample_start_def sample_end_def)
qed

end
