(* ===== verification/RegistryLifecycle.thy ===== *)
theory RegistryLifecycle
  imports RegistryHistory
begin

text \<open>
  The state machine of a job and the capacity of the registry. \<open>job_transition\<close> lists the moves of a
  job with the action that makes them; every accepted event moves each job along at most one of
  them. \<open>within_capacity\<close> is the bound the admission guards keep: the tables never outgrow the limits.
\<close>

section \<open>The state machine of a job\<close>

inductive job_transition :: "string \<Rightarrow> job_state \<Rightarrow> job_state \<Rightarrow> bool" where
  claimed: "job_transition ''claim'' J_queued J_running"
| paused: "job_transition ''abandon'' J_running J_paused"
| exhausted: "job_transition ''abandon'' J_running J_exhausted"
| retried: "job_transition ''retry'' J_paused J_queued"
| completed: "job_transition ''complete'' J_running J_completed"

inductive_simps job_transition_from:
  "job_transition a J_completed st" "job_transition a J_exhausted st" "job_transition a J_queued st"
  "job_transition a J_running st" "job_transition a J_paused st"

inductive_cases job_transition_elim: "job_transition a st st'"

definition moves :: "string \<Rightarrow> registry_state \<Rightarrow> registry_state \<Rightarrow> bool" where
  "moves a s s' \<longleftrightarrow> (\<forall>k j. map_of (st_jobs s) k = Some j \<longrightarrow>
     (\<exists>j'. map_of (st_jobs s') k = Some j' \<and> (j' = j \<or> job_transition a (job_state j) (job_state j'))))"

lemma moves_same: "st_jobs s' = st_jobs s \<Longrightarrow> moves a s s'"
  by (simp add: moves_def)

lemma moves_put:
  assumes "st_jobs s' = dict_put k y (st_jobs s)"
    and "\<And>j. map_of (st_jobs s) k = Some j \<Longrightarrow> job_transition a (job_state j) (job_state y)"
  shows "moves a s s'"
  using assms by (auto simp: moves_def map_of_put)

lemma action_moves:
  assumes wf: "wf_state rt s" and step: "apply_action rt s d = Inr s'"
  shows "moves (action_of d) s s'"
proof (cases d)
  case (E_enqueue a spec)
  with step show ?thesis
    by (auto simp: apply_enqueue_def Let_def result_simps has_key_def intro!: moves_put)
next
  case (E_claim a c)
  with step show ?thesis
    by (auto simp: apply_claim_def result_simps job_lookup_id [OF wf] intro!: moves_put job_transition.intros)
next
  case (E_abandon a c reason evidence)
  with step show ?thesis
    by (auto simp: apply_abandon_def result_simps job_lookup_id [OF wf] job_transition_from intro!: moves_put)
next
  case (E_retry a k reason evidence)
  with step show ?thesis
    by (auto simp: apply_retry_def result_simps job_lookup_id [OF wf] job_transition_from
        intro!: moves_put split: option.splits)
next
  case (E_complete a c result observations)
  with step show ?thesis
    by (auto simp: apply_complete_def Let_def result_simps job_lookup_id [OF wf] job_transition_from
        intro!: moves_put)
qed (use step in \<open>auto simp: apply_reconcile_def apply_quarantine_def apply_lift_def apply_expand_def
    Let_def result_simps intro!: moves_same split: option.splits\<close>)

lemma event_moves:
  assumes wf: "wf_state rt s" and step: "apply_event rt s d = Inr s'"
  shows "moves (action_of d) s s'"
proof (cases "action_of d = ''expand_limits''")
  case True
  with step have "apply_action rt s d = Inr s'" by (simp add: apply_event_Inr)
  then show ?thesis by (rule action_moves [OF wf])
next
  case False
  with step obtain t where t: "apply_rows s (event_artifacts d) = Inr t" "apply_action rt t d = Inr s'"
    by (auto simp: apply_event_Inr)
  from action_moves [OF wf_rows [OF wf t(1)] t(2)] apply_rows_same [OF t(1)]
  show ?thesis by (simp add: moves_def)
qed

section \<open>Capacity\<close>

definition is_active :: "job_record \<Rightarrow> bool" where
  "is_active j \<longleftrightarrow> job_state j \<in> {J_queued, J_running, J_paused}"

definition active_count :: "job_record dict \<Rightarrow> int" where
  "active_count jobs = int (length (filter is_active (dict_values jobs)))"

definition within_capacity :: "registry_state \<Rightarrow> bool" where
  "within_capacity s \<longleftrightarrow> active_count (st_jobs s) \<le> max_active_jobs (st_limits s)
     \<and> int (length (st_jobs s)) \<le> max_jobs (st_limits s)
     \<and> int (length (st_artifacts s)) \<le> max_artifacts (st_limits s)
     \<and> (\<forall>k j. map_of (st_jobs s) k = Some j \<longrightarrow>
          spec_attempt_limit (job_spec_of j) \<le> max_attempts_per_job (st_limits s))"

lemma active_count_new: "map_of d k = None \<Longrightarrow> active_count (dict_put k v d) = active_count d + of_bool (is_active v)"
  by (induction d) (auto simp: active_count_def)

lemma active_count_put:
  "map_of d k = Some w \<Longrightarrow> is_active w \<or> \<not> is_active v \<Longrightarrow> active_count (dict_put k v d) \<le> active_count d"
  by (induction d) (auto simp: active_count_def split: if_splits)

lemma length_put: "length (dict_put k v d) = length d + of_bool (map_of d k = None)"
  by (induction d) auto

lemma capacity_put:
  assumes "within_capacity s" "st_limits s' = st_limits s" "st_artifacts s' = st_artifacts s"
    and "st_jobs s' = dict_put k y (st_jobs s)" "map_of (st_jobs s) k = Some w"
    and "is_active w" "job_spec_of y = job_spec_of w"
  shows "within_capacity s'"
  using assms active_count_put [OF assms(5), of y]
  by (auto simp: within_capacity_def length_put map_of_put)

lemma capacity_same:
  "within_capacity s \<Longrightarrow> st_limits s' = st_limits s \<Longrightarrow> st_artifacts s' = st_artifacts s \<Longrightarrow>
   st_jobs s' = st_jobs s \<Longrightarrow> within_capacity s'"
  by (simp add: within_capacity_def)

lemma capacity_enqueue:
  assumes "within_capacity s" "apply_enqueue rt s spec = Inr s'"
  shows "within_capacity s'"
proof -
  from assms(2) obtain key job where s': "s' = s\<lparr>st_jobs := dict_put key job (st_jobs s)\<rparr>"
    and new: "map_of (st_jobs s) key = None"
    and room: "int (length (st_jobs s)) < max_jobs (st_limits s)"
      "active_count (st_jobs s) < max_active_jobs (st_limits s)"
      "spec_attempt_limit (job_spec_of job) \<le> max_attempts_per_job (st_limits s)"
    by (force simp: apply_enqueue_def Let_def result_simps has_key_def active_count_def is_active_def [abs_def])
  with assms(1) show ?thesis
    by (auto simp: within_capacity_def length_put active_count_new map_of_put)
qed

lemma capacity_action:
  assumes wf: "wf_state rt s" and cap: "within_capacity s" and step: "apply_action rt s d = Inr s'"
  shows "within_capacity s'"
proof (cases d)
  case (E_enqueue a spec)
  with step cap show ?thesis by (auto intro: capacity_enqueue)
next
  case (E_claim a c)
  with step show ?thesis
    by (auto simp: apply_claim_def result_simps job_lookup_id [OF wf] is_active_def
        intro!: capacity_put [OF cap])
next
  case (E_abandon a c reason evidence)
  with step show ?thesis
    by (auto simp: apply_abandon_def result_simps job_lookup_id [OF wf] is_active_def
        intro!: capacity_put [OF cap])
next
  case (E_retry a k reason evidence)
  with step show ?thesis
    by (auto simp: apply_retry_def result_simps job_lookup_id [OF wf] is_active_def
        intro!: capacity_put [OF cap] split: option.splits)
next
  case (E_complete a c result observations)
  with step show ?thesis
    by (auto simp: apply_complete_def Let_def result_simps job_lookup_id [OF wf] is_active_def
        intro!: capacity_put [OF cap])
next
  case (E_expand_limits a x)
  with step have "limits_grow (st_limits s) (st_limits s')" and same: "st_jobs s' = st_jobs s"
    "st_artifacts s' = st_artifacts s"
    using expand_extends [of s a x s'] by (auto simp: extends_def apply_expand_def result_simps)
  with cap show ?thesis
    by (auto simp: within_capacity_def limits_grow_def same_execution_limits_def growing_limits_def)
qed (use step in \<open>auto simp: apply_reconcile_def apply_quarantine_def apply_lift_def
    Let_def result_simps intro!: capacity_same [OF cap] split: option.splits\<close>)

lemma capacity_rows:
  assumes "within_capacity s" "apply_rows s rows = Inr s'"
  shows "within_capacity s'"
  using assms by (auto simp: apply_rows_def result_simps within_capacity_def install_def)

lemma capacity_event:
  assumes "wf_state rt s" "within_capacity s" "apply_event rt s d = Inr s'"
  shows "within_capacity s'"
proof (cases "action_of d = ''expand_limits''")
  case True
  with assms capacity_action show ?thesis by (auto simp: apply_event_Inr)
next
  case False
  with assms(3) obtain t where t: "apply_rows s (event_artifacts d) = Inr t" "apply_action rt t d = Inr s'"
    by (auto simp: apply_event_Inr)
  show ?thesis by (rule capacity_action [OF wf_rows [OF assms(1) t(1)] capacity_rows [OF assms(2) t(1)] t(2)])
qed

definition bounded_state :: "runtime \<Rightarrow> json set \<Rightarrow> registry_state \<Rightarrow> bool" where
  "bounded_state rt U s \<longleftrightarrow> trusted_state rt U s \<and> within_capacity s"

interpretation capacity_log: event_log "apply_event rt" "event_within U" "bounded_state rt U" for rt U
proof
  fix s t :: registry_state and e
  assume s: "bounded_state rt U s" "event_within U e" "apply_event rt s e = Inr t"
  then have "trusted_state rt U t" by (auto simp: bounded_state_def intro: trusted_step)
  moreover have "within_capacity t"
    using s capacity_event [of rt s e t] by (simp add: bounded_state_def trusted_state_def)
  ultimately show "bounded_state rt U t" by (simp add: bounded_state_def)
qed

lemma replay_capacity:
  assumes "collision_free rt (history_documents ds)" "valid_limits limits" "replay rt limits ds = Inr s"
  shows "within_capacity s"
proof -
  have "within_capacity (initial_state limits)"
    using assms(2) by (simp add: within_capacity_def initial_state_def active_count_def valid_limits_def between_def)
  then show ?thesis
    using capacity_log.replay_good [of rt "history_documents ds" "initial_state limits" ds s]
      events_within_prefix [of ds "[]"] initial_trusted assms(1,3)
    by (simp add: replay_def bounded_state_def)
qed

end
