(* ===== verification/RegistryStorage.thy ===== *)
theory RegistryStorage
  imports RegistryLifecycle
begin

text \<open>
  \<^verbatim>\<open>registry/storage.py\<close>: the SQLite event authority and its append-only JSONL projection. The
  database commits first; the journal is written afterwards and may be torn by a crash. \<open>load\<close>
  authenticates the hash chain, replays it and compares the materialized index; \<open>project\<close> completes
  the journal or blocks; \<open>change\<close> runs one request. The pydantic parser of an event body is a
  parameter (\<open>parse\<close>); file metadata, locking and the SQLite pragmas are not modelled.
\<close>

section \<open>Disk contents\<close>

abbreviation newline :: char where
  "newline \<equiv> CHR 0x0A"

record database =
  db_limits :: registry_limits
  db_acknowledged :: nat
  db_events :: "(nat \<times> string \<times> string) list"
  db_records :: "((string \<times> string) \<times> string) list"

record disk =
  dk_database :: database
  dk_journal :: string

definition bodies :: "database \<Rightarrow> string list" where
  "bodies db = map (\<lambda>(sequence, key, body). body) (db_events db)"

text \<open>\<open>initialize\<close>: the schema of an empty registry with the configured limits.\<close>

definition initial_disk :: "registry_limits \<Rightarrow> disk" where
  "initial_disk limits =
     \<lparr>dk_database = \<lparr>db_limits = limits, db_acknowledged = 0, db_events = [], db_records = []\<rparr>,
      dk_journal = []\<rparr>"

section \<open>Projection of the committed events into the journal\<close>

text \<open>\<open>original.split(b'\n')\<close>\<close>

fun pieces :: "string \<Rightarrow> string list" where
  "pieces [] = [[]]"
| "pieces (c # cs) =
     (if c = newline then [] # pieces cs
      else case pieces cs of [] \<Rightarrow> [[c]] | p # ps \<Rightarrow> (c # p) # ps)"

definition complete_lines :: "string \<Rightarrow> string list" where
  "complete_lines s = map (\<lambda>line. line @ [newline]) (butlast (pieces s))"

definition tail_of :: "string \<Rightarrow> string" where
  "tail_of s = last (pieces s)"

definition project ::
  "registry_limits \<Rightarrow> string list \<Rightarrow> disk \<Rightarrow> registry_error + disk \<times> recovery_report" where
  "project limits raw d =
     (let original = dk_journal d; complete = complete_lines original; rest = tail_of original;
          ack = db_acknowledged (dk_database d) in
      raise_if (int (length original) > max_journal_bytes limits)
        (RegistryLimit ''registry file exceeds configured byte limit'')
      (raise_if (ack > length complete \<or> ack > length raw)
        (RegistryIntegrityError ''acknowledged journal history is missing; preserve and block'')
      (raise_if (length complete > length raw \<or> complete \<noteq> take (length complete) raw)
        (RegistryIntegrityError ''journal differs from committed outbox; preserve and block'')
      (raise_if (rest \<noteq> [] \<and> (length complete = length raw \<or> \<not> starts_with rest (raw ! length complete)))
        (RegistryIntegrityError ''unknown or corrupt journal tail; preserve and block'')
      (let suffix = drop (length rest) (concat (drop (length complete) raw)) in
       Inr (d\<lparr>dk_journal := original @ suffix,
              dk_database := (dk_database d)\<lparr>db_acknowledged := length raw\<rparr>\<rparr>,
            \<lparr>rr_event_count = length raw, rr_appended_bytes = length suffix,
             rr_completed_tail_bytes = length rest\<rparr>))))))"

subsection \<open>Lines\<close>

definition is_line :: "string \<Rightarrow> bool" where
  "is_line b \<longleftrightarrow> (\<exists>t. newline_free t \<and> b = t @ [newline])"

lemma pieces_nonempty [simp]: "pieces s \<noteq> []"
  by (cases s) (auto split: list.splits)

lemma pieces_free: "newline_free t \<Longrightarrow> pieces t = [t]"
  by (induction t) (auto simp: newline_free_def)

lemma pieces_line: "newline_free t \<Longrightarrow> pieces (t @ newline # s) = t # pieces s"
  by (induction t) (auto simp: newline_free_def)

lemma tail_newline_free: "newline_free (tail_of s)"
  unfolding tail_of_def
proof (induction s)
  case (Cons c s)
  then show ?case by (cases "pieces s") (auto simp: newline_free_def split: if_splits)
qed (simp add: newline_free_def)

lemma complete_tail: "concat (complete_lines s) @ tail_of s = s"
  unfolding complete_lines_def tail_of_def
proof (induction s)
  case (Cons c s)
  then show ?case by (cases "pieces s") (auto split: if_splits)
qed simp

lemma lines_of_line:
  assumes "is_line b"
  shows "complete_lines (b @ s) = b # complete_lines s" "tail_of (b @ s) = tail_of s"
  using assms by (auto simp: is_line_def complete_lines_def tail_of_def pieces_line)

lemma lines_of_concat:
  "list_all is_line raw \<Longrightarrow> newline_free t \<Longrightarrow>
   complete_lines (concat raw @ t) = raw \<and> tail_of (concat raw @ t) = t"
proof (induction raw)
  case Nil
  then show ?case by (simp add: complete_lines_def tail_of_def pieces_free)
qed (simp add: lines_of_line)

lemma pieces_newline_free: "p \<in> set (pieces s) \<Longrightarrow> newline_free p"
  by (induction s arbitrary: p) (auto split: if_splits list.splits)

lemma complete_lines_line: "l \<in> set (complete_lines s) \<Longrightarrow> is_line l"
  by (auto simp: complete_lines_def is_line_def dest!: in_set_butlastD pieces_newline_free)

lemma line_prefix:
  assumes "is_line l" "is_line b"
  shows "prefix (l @ x) (b @ y) \<longleftrightarrow> l = b \<and> prefix x y"
proof
  assume "prefix (l @ x) (b @ y)"
  then obtain z where z: "b @ y = l @ x @ z" by (auto simp: prefix_def)
  have "b # complete_lines y = l # complete_lines (x @ z)"
    using arg_cong [OF z, of complete_lines] assms by (simp add: lines_of_line)
  with z show "l = b \<and> prefix x y" by (auto simp: prefix_def)
qed simp

text \<open>A journal is a prefix of the committed bytes exactly if its lines and its tail agree.\<close>

lemma prefix_lines:
  assumes "list_all is_line raw"
  shows "prefix s (concat raw) \<longleftrightarrow>
    length (complete_lines s) \<le> length raw \<and> complete_lines s = take (length (complete_lines s)) raw
    \<and> (tail_of s \<noteq> [] \<longrightarrow> length (complete_lines s) \<noteq> length raw
         \<and> starts_with (tail_of s) (raw ! length (complete_lines s)))"
  using assms
proof (induction raw arbitrary: s)
  case Nil
  then show ?case using complete_tail [of s]
    by (auto simp: complete_lines_def tail_of_def)
next
  case (Cons b raw)
  then obtain t where t: "newline_free t" "b = t @ [newline]" by (auto simp: is_line_def)
  have b: "is_line b" and raw: "list_all is_line raw" using Cons.prems by simp_all
  note IH = Cons.IH [OF raw]
  show ?case
  proof (cases "complete_lines s")
    case Nil
    with complete_tail [of s] have s: "tail_of s = s" by simp
    then have "newline_free s" using tail_newline_free [of s] by simp
    have "prefix s (b @ concat raw) \<longleftrightarrow> prefix s b"
    proof
      assume p: "prefix s (b @ concat raw)"
      show "prefix s b"
      proof (rule ccontr)
        assume "\<not> prefix s b"
        with p have "prefix b s" by (metis prefix_prefix prefix_same_cases prefixI)
        with \<open>newline_free s\<close> t show False by (auto simp: prefix_def newline_free_def)
      qed
    qed (auto simp: prefix_def)
    then show ?thesis using Nil s by (auto simp: starts_with_iff prefix_def)
  next
    case (Cons l ls)
    then have l: "is_line l"
      using complete_lines_line [of l s] by simp
    have s: "s = l @ concat ls @ tail_of s" using complete_tail [of s] Cons by simp
    let ?s = "concat ls @ tail_of s"
    have rest: "complete_lines ?s = ls" "tail_of ?s = tail_of s"
      using lines_of_line [OF l, of ?s] Cons s by auto
    have "prefix s (b @ concat raw) \<longleftrightarrow> l = b \<and> prefix ?s (concat raw)"
      using line_prefix [OF l b, of ?s "concat raw"] s by metis
    with IH [of ?s] show ?thesis using Cons rest by auto
  qed
qed

text \<open>
  The contract of recovery: the journal is completed exactly if it is a prefix of the committed
  bytes that still holds every acknowledged line, and then it becomes those bytes.
\<close>

definition journal_ok :: "string list \<Rightarrow> disk \<Rightarrow> bool" where
  "journal_ok raw d \<longleftrightarrow> prefix (dk_journal d) (concat raw)
     \<and> db_acknowledged (dk_database d) \<le> length (complete_lines (dk_journal d))"

definition projected :: "string list \<Rightarrow> disk \<Rightarrow> disk" where
  "projected raw d = d\<lparr>dk_journal := concat raw,
     dk_database := (dk_database d)\<lparr>db_acknowledged := length raw\<rparr>\<rparr>"

lemma project_suffix:
  assumes "list_all is_line raw" "prefix s (concat raw)"
  shows "s @ drop (length (tail_of s)) (concat (drop (length (complete_lines s)) raw)) = concat raw"
proof -
  let ?n = "length (complete_lines s)"
  have take: "complete_lines s = take ?n raw" using assms prefix_lines by blast
  have "concat raw = concat (take ?n raw) @ concat (drop ?n raw)"
    by (metis append_take_drop_id concat_append)
  moreover have "s = concat (take ?n raw) @ tail_of s" using complete_tail [of s] take by simp
  ultimately have "prefix (tail_of s) (concat (drop ?n raw))"
    using assms(2) by (metis same_prefix_prefix)
  then obtain z where "concat (drop ?n raw) = tail_of s @ z" by (auto simp: prefix_def)
  with \<open>concat raw = _\<close> \<open>s = _\<close> show ?thesis by simp
qed

lemma project_Inr:
  assumes "list_all is_line raw" "int (length (concat raw)) \<le> max_journal_bytes limits"
  shows "(\<exists>r. project limits raw d = Inr (d', r)) \<longleftrightarrow> journal_ok raw d \<and> d' = projected raw d"
proof (cases "journal_ok raw d")
  case True
  then have p: "prefix (dk_journal d) (concat raw)" by (simp add: journal_ok_def)
  have short: "length (dk_journal d) \<le> length (concat raw)" using p by (rule prefix_length_le)
  show ?thesis
    using True p [unfolded prefix_lines [OF assms(1)]] short assms(2) project_suffix [OF assms(1) p]
    by (auto simp: project_def Let_def raise_if_eq_Inr journal_ok_def projected_def)
next
  case False
  have "project limits raw d \<noteq> Inr (d', r)" for r
  proof
    assume "project limits raw d = Inr (d', r)"
    then show False
      using False prefix_lines [OF assms(1), of "dk_journal d"]
      by (auto simp: project_def Let_def raise_if_eq_Inr journal_ok_def)
  qed
  with False show ?thesis by blast
qed

lemma projected_ok: "list_all is_line raw \<Longrightarrow> journal_ok raw (projected raw d)"
  using lines_of_concat [of raw "[]"] by (simp add: journal_ok_def projected_def)

lemma projected_idem: "projected raw (projected raw d) = projected raw d"
  by (simp add: projected_def)

section \<open>Loading and authenticating the history\<close>

definition genesis :: digest where
  "genesis = replicate 64 CHR ''0''"

definition event_identity :: "runtime \<Rightarrow> registry_event \<Rightarrow> digest" where
  "event_identity rt e = identity rt (JObj (doc_event_body e))"

definition event_body :: "runtime \<Rightarrow> registry_event \<Rightarrow> string" where
  "event_body rt e = canonical_json rt (doc_event e) @ [newline]"

text \<open>One row of the event table against the events before it.\<close>

definition load_row ::
  "runtime \<Rightarrow> (string \<Rightarrow> registry_event option) \<Rightarrow> registry_event list \<Rightarrow> nat \<times> string \<times> string
     \<Rightarrow> registry_error + registry_event list" where
  "load_row rt parse events row =
     (case row of (sequence, key, body) \<Rightarrow>
      case parse body of
        None \<Rightarrow> Inl (RegistryIntegrityError ''invalid authoritative event history'')
      | Some event \<Rightarrow>
          raise_if (sequence \<noteq> length events + 1 \<or> re_sequence event \<noteq> sequence
              \<or> re_semantic_key event \<noteq> key
              \<or> re_previous event \<noteq> (if events = [] then genesis else re_event_id (last events))
              \<or> event_body rt event \<noteq> body \<or> re_event_id event \<noteq> event_identity rt event)
            (RegistryIntegrityError ''event ordering, canonical bytes or hash chain mismatch'')
            (Inr (events @ [event])))"

text \<open>The exceptions \<open>load\<close> turns into an integrity error; limits and unknown identities pass through.\<close>

fun wrap_history :: "registry_error \<Rightarrow> registry_error" where
  "wrap_history (ValidationError m) = RegistryIntegrityError ''invalid authoritative event history''"
| "wrap_history (KeyError m) = RegistryIntegrityError ''invalid authoritative event history''"
| "wrap_history e = (if is_conflict e then RegistryIntegrityError ''invalid authoritative event history'' else e)"

definition wrap_result :: "registry_error + 'a \<Rightarrow> registry_error + 'a" where
  "wrap_result m = (case m of Inl e \<Rightarrow> Inl (wrap_history e) | Inr x \<Rightarrow> Inr x)"

lemma wrap_result_Inr [result_simps]: "wrap_result m = Inr x \<longleftrightarrow> m = Inr x"
  by (cases m) (simp_all add: wrap_result_def)

text \<open>The limits the history started from, and the limits after each audited expansion.\<close>

fun expansion_of :: "event_data \<Rightarrow> limit_expansion option" where
  "expansion_of (E_expand_limits a x) = Some x"
| "expansion_of _ = None"

definition expansions :: "registry_event list \<Rightarrow> limit_expansion list" where
  "expansions events = List.map_filter (\<lambda>e. expansion_of (re_data e)) events"

definition first_limits :: "registry_limits \<Rightarrow> registry_event list \<Rightarrow> registry_limits" where
  "first_limits limits events =
     (case expansions events of [] \<Rightarrow> limits | x # xs \<Rightarrow> le_previous_limits x)"

definition capacities :: "registry_limits \<Rightarrow> registry_event list \<Rightarrow> registry_limits list" where
  "capacities limits events = first_limits limits events # map le_limits (expansions events)"

text \<open>\<open>State.rows\<close>: the canonical bytes of every table row.\<close>

definition state_rows :: "runtime \<Rightarrow> registry_state \<Rightarrow> ((string \<times> string) \<times> string) list" where
  "state_rows rt s =
     map (\<lambda>(k, v). ((''artifacts'', k), canonical_json rt (doc_artifact_record v))) (st_artifacts s)
   @ map (\<lambda>(k, v). ((''jobs'', k), canonical_json rt (doc_job v))) (st_jobs s)
   @ map (\<lambda>(k, v). ((''attempts'', k), canonical_json rt (doc_attempt v))) (st_attempts s)
   @ map (\<lambda>(k, v). ((''observations'', k), canonical_json rt (doc_observation_record v))) (st_observations s)
   @ map (\<lambda>(k, v). ((''notices'', k), canonical_json rt (doc_notice v))) (st_notices s)"

definition total_bytes :: "string list \<Rightarrow> int" where
  "total_bytes bs = sum_list (map (\<lambda>b. int (length b)) bs)"

definition longest :: "string list \<Rightarrow> int" where
  "longest bs = foldl max 0 (map (\<lambda>b. int (length b)) bs)"

definition check_record_bounds :: "registry_limits \<Rightarrow> string list \<Rightarrow> registry_error + unit" where
  "check_record_bounds limits bs =
     raise_if (int (length bs) > max_artifacts limits + max_jobs limits + max_events limits * 2
         \<or> total_bytes bs > max_journal_bytes limits * 4 \<or> longest bs > max_event_bytes limits)
       (RegistryLimit ''materialized index exceeds configured bounds'') (Inr ())"

definition load_history ::
  "runtime \<Rightarrow> (string \<Rightarrow> registry_event option) \<Rightarrow> registry_limits \<Rightarrow> database
     \<Rightarrow> registry_error + registry_state \<times> registry_event list" where
  "load_history rt parse requested db =
     bind_result (fold_result (load_row rt parse) [] (db_events db)) (\<lambda>events.
     raise_if (expansions events \<noteq> [] \<and> \<not> valid_limits (first_limits (db_limits db) events))
       (ValidationError ''model validation failed'')
     (bind_result (replay rt (first_limits (db_limits db) events) (map re_data events)) (\<lambda>state.
     raise_if (st_limits state \<noteq> db_limits db
         \<or> requested \<notin> set (capacities (db_limits db) events))
       (RegistryIntegrityError ''registry limits drift from the audited capacity chain'')
     (Inr (state, events)))))"

definition load ::
  "runtime \<Rightarrow> (string \<Rightarrow> registry_event option) \<Rightarrow> registry_limits \<Rightarrow> database
     \<Rightarrow> registry_error + registry_state \<times> registry_event list" where
  "load rt parse requested db =
     (let limits = db_limits db; bs = bodies db in
     raise_if (int (length (db_events db)) > max_events limits \<or> total_bytes bs > max_journal_bytes limits
         \<or> longest bs > max_event_bytes limits)
       (RegistryLimit ''authoritative history exceeds configured bounds'')
     (bind_result (wrap_result (load_history rt parse requested db)) (\<lambda>(state, events).
     bind_result (check_record_bounds limits (map snd (db_records db))) (\<lambda>_.
     raise_if (set (state_rows rt state) \<noteq> set (db_records db))
       (RegistryIntegrityError ''materialized index differs from authoritative history'')
     (Inr (state, events))))))"

section \<open>Persisting and changing\<close>

definition persist ::
  "runtime \<Rightarrow> registry_limits \<Rightarrow> registry_event \<Rightarrow> registry_state \<Rightarrow> database \<Rightarrow> registry_error + database" where
  "persist rt limits event state db =
     (let rows = state_rows rt state in
     bind_result (check_record_bounds limits (map snd rows)) (\<lambda>_.
     raise_if (re_sequence event \<in> set (map fst (db_events db))
         \<or> re_semantic_key event \<in> set (map (fst \<circ> snd) (db_events db)))
       (RegistryIOError ''registry storage failed; recover/query before retrying work'')
     (Inr (db\<lparr>db_events := db_events db @ [(re_sequence event, re_semantic_key event, event_body rt event)],
              db_records := rows\<rparr>))))"

text \<open>\<open>recovered\<close> without the snapshot cache: authenticate the history, then complete the journal.\<close>

definition recovered ::
  "runtime \<Rightarrow> (string \<Rightarrow> registry_event option) \<Rightarrow> registry_limits \<Rightarrow> disk
     \<Rightarrow> registry_error + disk \<times> registry_state \<times> registry_event list \<times> recovery_report" where
  "recovered rt parse requested d =
     bind_result (load rt parse requested (dk_database d)) (\<lambda>(state, events).
     bind_result (project (st_limits state) (bodies (dk_database d)) d) (\<lambda>(d', report).
     Inr (d', state, events, report)))"

text \<open>Readers see the recovered state and its events.\<close>

definition view ::
  "runtime \<Rightarrow> (string \<Rightarrow> registry_event option) \<Rightarrow> registry_limits
     \<Rightarrow> (registry_state \<Rightarrow> registry_event list \<Rightarrow> registry_error + 'a) \<Rightarrow> disk \<Rightarrow> registry_error + disk \<times> 'a" where
  "view rt parse requested reader d0 =
     bind_result (recovered rt parse requested d0) (\<lambda>(dk, state, events, report).
     bind_result (reader state events) (\<lambda>v. Inr (dk, v)))"

text \<open>A request under a semantic key that already has an event must repeat that event.\<close>

definition same_request ::
  "runtime \<Rightarrow> registry_state \<Rightarrow> registry_event \<Rightarrow> event_data \<Rightarrow> registry_error + bool" where
  "same_request rt state prior d =
     bind_result (map_result (validated valid_artifact_record) (event_artifacts d)) (\<lambda>rows.
     let records = foldl (\<lambda>m r. dict_put (ref_sha256 (rec_ref r)) r m) [] rows in
     Inr (action_of (re_data prior) = action_of d
       \<and> canonical_json rt (doc_request (re_data prior)) = canonical_json rt (doc_request d)
       \<and> list_all (\<lambda>(k, r). map_of (st_artifacts state) k = Some r) records
       \<and> list_all (\<lambda>r. map_of records (ref_sha256 (rec_ref r)) = Some r) (event_artifacts (re_data prior))))"

text \<open>The event a new request becomes: only its new rows, chained to the last event.\<close>

definition new_rows :: "registry_state \<Rightarrow> event_data \<Rightarrow> event_data" where
  "new_rows state d =
     with_artifacts (filter (\<lambda>r. map_of (st_artifacts state) (ref_sha256 (rec_ref r)) \<noteq> Some r) (event_artifacts d)) d"

definition next_event ::
  "runtime \<Rightarrow> registry_event list \<Rightarrow> string \<Rightarrow> utc_datetime \<Rightarrow> event_data \<Rightarrow> registry_event" where
  "next_event rt events key now d =
     (let prototype = \<lparr>re_sequence = length events + 1, re_event_id = genesis,
        re_previous = (if events = [] then genesis else re_event_id (last events)),
        re_semantic_key = key, re_recorded_at = now, re_data = d\<rparr>
      in prototype\<lparr>re_event_id := event_identity rt prototype\<rparr>)"

text \<open>
  A capacity expansion is applied before the limits are checked, every other event afterwards; the
  database commits the event, the index and the limits together.
\<close>

definition append_event ::
  "runtime \<Rightarrow> registry_state \<Rightarrow> registry_event list \<Rightarrow> string \<Rightarrow> utc_datetime \<Rightarrow> event_data \<Rightarrow> disk
     \<Rightarrow> registry_error + disk \<times> registry_state" where
  "append_event rt state events key now d dk =
     (let expanding = action_of d = ''expand_limits'' in
     bind_result (if expanding then apply_event rt state d else Inr state) (\<lambda>state0.
     let limits = st_limits state0; raw = bodies (dk_database dk);
         event = next_event rt events key now d; body = event_body rt event in
     raise_if (int (length events) \<ge> max_events limits) (RegistryLimit ''event capacity exceeded'')
     (raise_if (\<not> valid_event event) (ValidationError ''model validation failed'')
     (raise_if (int (length body) > max_event_bytes limits
         \<or> total_bytes raw + int (length body) > max_journal_bytes limits)
       (RegistryLimit ''event or journal byte capacity exceeded'')
     (bind_result (if expanding then Inr state0 else apply_event rt state0 d) (\<lambda>state'.
      bind_result (persist rt limits event state' (dk_database dk)) (\<lambda>db.
      Inr (dk\<lparr>dk_database := db\<lparr>db_limits := limits\<rparr>\<rparr>, state'))))))))"

definition change ::
  "runtime \<Rightarrow> (string \<Rightarrow> registry_event option) \<Rightarrow> registry_limits \<Rightarrow> utc_datetime
     \<Rightarrow> (registry_state \<Rightarrow> registry_error + (string \<times> event_data) option)
     \<Rightarrow> disk \<Rightarrow> registry_error + disk \<times> registry_state" where
  "change rt parse requested now builder d0 =
     bind_result (recovered rt parse requested d0) (\<lambda>(dk, state, events, report).
     bind_result (builder state) (\<lambda>built.
     case built of None \<Rightarrow> Inr (dk, state)
     | Some (key, d) \<Rightarrow>
        (case find (\<lambda>e. re_semantic_key e = key) events of
           Some prior \<Rightarrow>
             bind_result (same_request rt state prior d) (\<lambda>same.
             raise_if (\<not> same) (RegistryConflict ''semantic event key reused with different content'')
             (Inr (dk, state)))
         | None \<Rightarrow>
             bind_result (append_event rt state events key now (new_rows state d) dk) (\<lambda>(dk', state').
             bind_result (project (st_limits state') (bodies (dk_database dk')) dk') (\<lambda>(dk'', report').
             Inr (dk'', state'))))))"

text \<open>\<open>expand_limits\<close>: already-current limits are an idempotent no-op.\<close>

definition expand_builder ::
  "runtime \<Rightarrow> registry_limits \<Rightarrow> string \<Rightarrow> registry_state \<Rightarrow> registry_error + (string \<times> event_data) option" where
  "expand_builder rt limits reason state =
     (if st_limits state = limits then Inr None
      else let x = \<lparr>le_previous_limits = st_limits state, le_limits = limits, le_reason = reason\<rparr> in
        raise_if (\<not> valid_limit_expansion x) (RegistryConflict ''capacity expansion rejected'')
        (Inr (Some (''expand_limits/'' @ identity rt (doc_limits limits), E_expand_limits [] x))))"

section \<open>A committed event reloads\<close>

lemma bodies_append:
  "bodies (db\<lparr>db_events := db_events db @ [(q, k, b)], db_records := rows\<rparr>) = bodies db @ [b]"
  by (simp add: bodies_def)

lemma total_bytes_append [simp]: "total_bytes (bs @ [b]) = total_bytes bs + int (length b)"
  by (simp add: total_bytes_def)

lemma total_bytes_concat: "total_bytes bs = int (length (concat bs))"
  by (induction bs) (simp_all add: total_bytes_def)

lemma longest_append [simp]: "longest (bs @ [b]) = max (longest bs) (int (length b))"
  by (simp add: longest_def)

lemma expansions_append [simp]: "expansions (es @ [e]) = expansions es @ (case expansion_of (re_data e) of None \<Rightarrow> [] | Some x \<Rightarrow> [x])"
  by (induction es) (auto simp: expansions_def List.map_filter_def split: option.splits)

lemma load_row_Inr:
  "load_row rt parse es row = Inr es' \<longleftrightarrow>
     (\<exists>e. parse (event_body rt e) = Some e \<and> row = (re_sequence e, re_semantic_key e, event_body rt e)
        \<and> re_sequence e = length es + 1 \<and> re_previous e = (if es = [] then genesis else re_event_id (last es))
        \<and> re_event_id e = event_identity rt e \<and> es' = es @ [e])"
  by (cases row) (auto simp: load_row_def raise_if_eq_Inr split: option.splits)

lemma load_length:
  "fold_result (load_row rt parse) es rows = Inr events \<Longrightarrow> length events = length es + length rows"
proof (induction rows arbitrary: es)
  case (Cons row rows)
  then obtain e where "fold_result (load_row rt parse) (es @ [e]) rows = Inr events"
    by (auto simp: load_row_Inr bind_result_eq_Inr)
  with Cons.IH [of "es @ [e]"] show ?case by simp
qed simp

lemma next_event_data [simp]: "re_data (next_event rt events key now d) = d"
  by (simp add: next_event_def Let_def)

lemma load_row_next:
  assumes "parse (event_body rt e) = Some e" "e = next_event rt events key now d"
  shows "load_row rt parse events (re_sequence e, re_semantic_key e, event_body rt e) = Inr (events @ [e])"
  using assms by (simp add: load_row_Inr) (simp add: next_event_def Let_def event_identity_def doc_event_body_def)

lemma apply_keeps_limits:
  assumes "apply_event rt s d = Inr s'" "action_of d \<noteq> ''expand_limits''"
  shows "st_limits s' = st_limits s"
proof -
  have "st_limits t = st_limits s" if "apply_rows s rows = Inr t" for t rows
    using apply_rows_same [OF that] by simp
  with assms show ?thesis
    by (cases d) (auto simp: apply_event_Inr apply_enqueue_def apply_claim_def apply_abandon_def apply_retry_def
        apply_reconcile_def apply_complete_def apply_quarantine_def apply_lift_def Let_def result_simps
        split: option.splits)
qed

lemma append_event_Inr:
  assumes "append_event rt state events key now d dk = Inr (dk', state')"
  shows "apply_event rt state d = Inr state'"
    "int (length events) < max_events (st_limits state')"
    "int (length (event_body rt (next_event rt events key now d))) \<le> max_event_bytes (st_limits state')"
    "total_bytes (bodies (dk_database dk)) + int (length (event_body rt (next_event rt events key now d)))
       \<le> max_journal_bytes (st_limits state')"
    "\<exists>db. persist rt (st_limits state') (next_event rt events key now d) state' (dk_database dk) = Inr db
       \<and> dk' = dk\<lparr>dk_database := db\<lparr>db_limits := st_limits state'\<rparr>\<rparr>"
  using assms apply_keeps_limits [of rt state d state']
  by (cases "action_of d = ''expand_limits''"; auto simp: append_event_def Let_def result_simps)+

lemma apply_limits_grow:
  assumes "apply_event rt s d = Inr s'"
  shows "limits_grow (st_limits s) (st_limits s')"
proof (cases "action_of d = ''expand_limits''")
  case True
  then obtain a x where "d = E_expand_limits a x" by (cases d) simp_all
  with assms expand_extends [of s a x s'] show ?thesis by (simp add: apply_event_def extends_def)
next
  case False
  with apply_keeps_limits [OF assms] show ?thesis by (simp add: limits_grow_refl)
qed

lemma expand_facts:
  "apply_event rt s (E_expand_limits a x) = Inr s' \<Longrightarrow>
     le_previous_limits x = st_limits s \<and> le_limits x = st_limits s' \<and> valid_limits (st_limits s)"
  by (auto simp: apply_event_def apply_expand_def valid_limit_expansion_def result_simps)

lemma capacities_append:
  assumes "apply_event rt s (re_data e) = Inr s'" "st_limits s = limits"
  shows "first_limits (st_limits s') (events @ [e]) = first_limits limits events"
    and "set (capacities limits events) \<subseteq> set (capacities (st_limits s') (events @ [e]))"
proof -
  show *: "first_limits (st_limits s') (events @ [e]) = first_limits limits events"
    using assms expand_facts apply_keeps_limits [OF assms(1)]
    by (cases "re_data e") (auto simp: first_limits_def split: list.splits)
  show "set (capacities limits events) \<subseteq> set (capacities (st_limits s') (events @ [e]))"
    unfolding capacities_def * by auto
qed

lemma persist_Inr:
  "persist rt limits e s db = Inr db' \<longleftrightarrow>
     check_record_bounds limits (map snd (state_rows rt s)) = Inr ()
     \<and> re_sequence e \<notin> set (map fst (db_events db)) \<and> re_semantic_key e \<notin> set (map (fst \<circ> snd) (db_events db))
     \<and> db' = db\<lparr>db_events := db_events db @ [(re_sequence e, re_semantic_key e, event_body rt e)],
                db_records := state_rows rt s\<rparr>"
  by (auto simp: persist_def Let_def result_simps)

lemma load_Inr:
  "load rt parse requested db = Inr (state, events) \<longleftrightarrow>
     int (length (db_events db)) \<le> max_events (db_limits db)
     \<and> total_bytes (bodies db) \<le> max_journal_bytes (db_limits db) \<and> longest (bodies db) \<le> max_event_bytes (db_limits db)
     \<and> load_history rt parse requested db = Inr (state, events)
     \<and> check_record_bounds (db_limits db) (map snd (db_records db)) = Inr ()
     \<and> set (state_rows rt state) = set (db_records db)"
  by (auto simp: load_def Let_def result_simps not_less)

lemma load_history_Inr:
  "load_history rt parse requested db = Inr (state, events) \<longleftrightarrow>
     fold_result (load_row rt parse) [] (db_events db) = Inr events
     \<and> (expansions events \<noteq> [] \<longrightarrow> valid_limits (first_limits (db_limits db) events))
     \<and> replay rt (first_limits (db_limits db) events) (map re_data events) = Inr state
     \<and> st_limits state = db_limits db \<and> requested \<in> set (capacities (db_limits db) events)"
  by (auto simp: load_history_def result_simps)

lemma append_reloads:
  assumes load: "load rt parse requested (dk_database dk) = Inr (state, events)"
    and step: "append_event rt state events key now d dk = Inr (dk', state')"
    and parse: "parse (event_body rt (next_event rt events key now d)) = Some (next_event rt events key now d)"
  shows "load rt parse requested (dk_database dk') = Inr (state', events @ [next_event rt events key now d])"
proof -
  let ?e = "next_event rt events key now d" and ?db = "dk_database dk"
  note step' = append_event_Inr [OF step]
  from step'(5) obtain db where p: "persist rt (st_limits state') ?e state' ?db = Inr db"
    and dk': "dk' = dk\<lparr>dk_database := db\<lparr>db_limits := st_limits state'\<rparr>\<rparr>" by blast
  note old = load [unfolded load_Inr load_history_Inr]
  have lim: "st_limits state = db_limits ?db" using old by simp
  note grow = apply_limits_grow [OF step'(1), unfolded lim]
  have caps: "first_limits (st_limits state') (events @ [?e]) = first_limits (db_limits ?db) events"
    "requested \<in> set (capacities (st_limits state') (events @ [?e]))"
    using capacities_append [of rt state ?e state' "db_limits ?db" events] step'(1) lim old
    by auto
  have "valid_limits (first_limits (db_limits ?db) events)" if "expansions (events @ [?e]) \<noteq> []"
  proof (cases "expansions events = []")
    case True
    with that obtain a x where "d = E_expand_limits a x" by (cases d) simp_all
    with step'(1) expand_facts [of rt state a x state'] lim True show ?thesis by (simp add: first_limits_def)
  qed (use old in simp)
  moreover have "fold_result (load_row rt parse) [] (db_events db) = Inr (events @ [?e])"
    using old p load_row_next [of parse rt ?e, OF parse refl] by (simp add: persist_Inr fold_result_append)
  moreover have "replay rt (first_limits (db_limits ?db) events) (map re_data (events @ [?e])) = Inr state'"
    using old step'(1) by (simp add: replay_append)
  moreover have "bodies (db\<lparr>db_limits := l\<rparr>) = bodies ?db @ [event_body rt ?e]" for l
    using p by (simp add: persist_Inr bodies_def)
  moreover have "length events = length (db_events ?db)"
    using old load_length [of rt parse "[]"] by simp
  moreover have "longest (bodies ?db) \<le> max_event_bytes (st_limits state')"
    using old grow by (auto simp: limits_grow_def growing_limits_def)
  ultimately show ?thesis
    using caps p step'(2-4) by (auto simp: load_Inr load_history_Inr persist_Inr dk')
qed

section \<open>Tamper evidence of the hash chain\<close>

definition event_documents_of :: "registry_event list \<Rightarrow> json set" where
  "event_documents_of es = (\<lambda>e. JObj (doc_event_body e)) ` set es"

lemma loaded_snoc:
  assumes "fold_result (load_row rt parse) [] rows = Inr events" "events \<noteq> []"
  obtains rows0 e where "events = butlast events @ [e]" "rows = rows0 @ [(re_sequence e, re_semantic_key e, event_body rt e)]"
    "fold_result (load_row rt parse) [] rows0 = Inr (butlast events)" "re_sequence e = length events"
    "re_event_id e = event_identity rt e"
    "re_previous e = (if butlast events = [] then genesis else re_event_id (last (butlast events)))"
proof -
  have "rows \<noteq> []" using assms by auto
  then obtain rows0 row where rows: "rows = rows0 @ [row]" by (metis append_butlast_last_id)
  with assms(1) obtain es where es: "fold_result (load_row rt parse) [] rows0 = Inr es"
    "load_row rt parse es row = Inr events"
    by (auto simp: fold_result_append bind_result_eq_Inr)
  then obtain e where "events = es @ [e]" "row = (re_sequence e, re_semantic_key e, event_body rt e)"
    "re_sequence e = length es + 1" "re_previous e = (if es = [] then genesis else re_event_id (last es))"
    "re_event_id e = event_identity rt e"
    by (auto simp: load_row_Inr)
  with es rows that show ?thesis by simp
qed

lemma chain_determines_history:
  assumes "collision_free rt (event_documents_of events \<union> event_documents_of events')"
    and "fold_result (load_row rt parse) [] rows = Inr events" "fold_result (load_row rt parse) [] rows' = Inr events'"
    and "events \<noteq> []" "events' \<noteq> []" "re_event_id (last events) = re_event_id (last events')"
  shows "events = events' \<and> rows = rows'"
  using assms
proof (induction "length events" arbitrary: events events' rows rows')
  case 0
  then show ?case by simp
next
  case (Suc n)
  from loaded_snoc [OF Suc.prems(2,4)] obtain rows0 e where e: "events = butlast events @ [e]"
    "rows = rows0 @ [(re_sequence e, re_semantic_key e, event_body rt e)]"
    "fold_result (load_row rt parse) [] rows0 = Inr (butlast events)" "re_sequence e = length events"
    "re_event_id e = event_identity rt e"
    "re_previous e = (if butlast events = [] then genesis else re_event_id (last (butlast events)))" .
  from loaded_snoc [OF Suc.prems(3,5)] obtain rows0' e' where e': "events' = butlast events' @ [e']"
    "rows' = rows0' @ [(re_sequence e', re_semantic_key e', event_body rt e')]"
    "fold_result (load_row rt parse) [] rows0' = Inr (butlast events')" "re_sequence e' = length events'"
    "re_event_id e' = event_identity rt e'"
    "re_previous e' = (if butlast events' = [] then genesis else re_event_id (last (butlast events')))" .
  have last: "last events = e" "last events' = e'" using e(1) e'(1) by (metis last_snoc)+
  have mem: "e \<in> set events" "e' \<in> set events'" using last Suc.prems(4,5) by auto
  have "event_identity rt e = event_identity rt e'" using Suc.prems(6) last e(5) e'(5) by simp
  then have doc: "same_json (JObj (doc_event_body e)) (JObj (doc_event_body e'))"
    using Suc.prems(1) mem
    by (subst (asm) (1 2) event_identity_def, subst (asm) identity_eq_iff) (auto simp: event_documents_of_def)
  then have same: "re_sequence e = re_sequence e'" "re_previous e = re_previous e'" "e = e'"
    using e(5) e'(5) \<open>event_identity rt e = event_identity rt e'\<close>
    by (auto simp: doc_event_body_same intro: registry_event.equality)
  then have len: "length events = length events'" using e(4) e'(4) by simp
  show ?case
  proof (cases "butlast events = []")
    case True
    then have "butlast events' = []" using len by (metis length_butlast length_0_conv)
    moreover have "rows0 = []" "rows0' = []"
      using load_length [OF e(3)] load_length [OF e'(3)] True \<open>butlast events' = []\<close> by simp_all
    ultimately show ?thesis using True e(1,2) e'(1,2) same(3) by simp
  next
    case False
    then have ne: "butlast events' \<noteq> []" using len by (metis length_butlast length_0_conv)
    have "butlast events = butlast events' \<and> rows0 = rows0'"
    proof (rule Suc.hyps(1) [OF _ _ e(3) e'(3) False ne])
      show "n = length (butlast events)" using Suc.hyps(2) by simp
      show "collision_free rt (event_documents_of (butlast events) \<union> event_documents_of (butlast events'))"
        by (rule collision_free_subset [OF Suc.prems(1)])
          (auto simp: event_documents_of_def dest: in_set_butlastD)
      show "re_event_id (last (butlast events)) = re_event_id (last (butlast events'))"
        using e(6) e'(6) same(2) False ne by simp
    qed
    then show ?thesis using e(1,2) e'(1,2) same(3) by metis
  qed
qed

section \<open>Crashes\<close>

text \<open>
  The steps of the storage, with a crash possible between any two and inside the journal write: the
  database commits an event, a prefix of the missing journal bytes reaches the file, or the
  projection runs to its own commit.
\<close>

inductive storage_step :: "runtime \<Rightarrow> disk \<Rightarrow> disk \<Rightarrow> bool" for rt where
  committed: "append_event rt state events key now d dk = Inr (dk', state') \<Longrightarrow> storage_step rt dk dk'"
| torn: "project limits (bodies (dk_database dk)) dk = Inr (dk', report) \<Longrightarrow>
    storage_step rt dk (dk\<lparr>dk_journal := dk_journal dk
      @ take n (drop (length (dk_journal dk)) (dk_journal dk'))\<rparr>)"
| synced: "project limits (bodies (dk_database dk)) dk = Inr (dk', report) \<Longrightarrow> storage_step rt dk dk'"

inductive_cases storage_step_elim: "storage_step rt dk dk'"

inductive crash_reachable :: "runtime \<Rightarrow> registry_limits \<Rightarrow> disk \<Rightarrow> bool" for rt limits where
  start: "valid_limits limits \<Longrightarrow> crash_reachable rt limits (initial_disk limits)"
| step: "crash_reachable rt limits dk \<Longrightarrow> storage_step rt dk dk' \<Longrightarrow> crash_reachable rt limits dk'"

definition recoverable :: "disk \<Rightarrow> bool" where
  "recoverable d \<longleftrightarrow> list_all is_line (bodies (dk_database d)) \<and> journal_ok (bodies (dk_database d)) d
     \<and> total_bytes (bodies (dk_database d)) \<le> max_journal_bytes (db_limits (dk_database d))"

lemma event_body_line: "float_text_ok rt \<Longrightarrow> is_line (event_body rt e)"
  by (auto simp: is_line_def event_body_def canonical_json_no_newline)

lemma project_Inr_facts:
  assumes "project limits raw d = Inr (d', r)" "list_all is_line raw"
  shows "prefix (dk_journal d) (concat raw)" "d' = projected raw d" "journal_ok raw d"
proof -
  have p: "prefix (dk_journal d) (concat raw)"
    using assms by (auto simp: project_def Let_def raise_if_eq_Inr prefix_lines [OF assms(2)])
  then show "prefix (dk_journal d) (concat raw)" .
  show "d' = projected raw d" using assms(1) project_suffix [OF assms(2) p]
    by (auto simp: project_def Let_def raise_if_eq_Inr projected_def)
  show "journal_ok raw d" using assms(1) p by (simp add: project_def Let_def raise_if_eq_Inr journal_ok_def)
qed

lemma complete_lines_mono: "prefix s t \<Longrightarrow> length (complete_lines s) \<le> length (complete_lines t)"
proof -
  assume "prefix s t"
  then obtain u where u: "t = s @ u" by (auto simp: prefix_def)
  have "length (pieces s) \<le> length (pieces (s @ u))" by (induction s) (auto split: list.splits simp: Suc_le_eq)
  with u show ?thesis by (simp add: complete_lines_def)
qed

lemma recoverable_initial: "valid_limits limits \<Longrightarrow> recoverable (initial_disk limits)"
  by (simp add: recoverable_def initial_disk_def bodies_def journal_ok_def total_bytes_def valid_limits_def between_def)

lemma recoverable_committed:
  assumes rec: "recoverable dk" and ok: "float_text_ok rt"
    and step: "append_event rt state events key now d dk = Inr (dk', state')"
  shows "recoverable dk'"
proof -
  note s = append_event_Inr [OF step]
  from s(5) obtain db where p: "persist rt (st_limits state') (next_event rt events key now d) state' (dk_database dk) = Inr db"
    and dk': "dk' = dk\<lparr>dk_database := db\<lparr>db_limits := st_limits state'\<rparr>\<rparr>" by blast
  have "bodies (dk_database dk') = bodies (dk_database dk) @ [event_body rt (next_event rt events key now d)]"
    using p by (simp add: persist_Inr bodies_def dk')
  moreover have "db_acknowledged (dk_database dk') = db_acknowledged (dk_database dk)"
    "dk_journal dk' = dk_journal dk" "db_limits (dk_database dk') = st_limits state'"
    using p by (simp_all add: persist_Inr dk')
  ultimately show ?thesis
    using rec s(4) event_body_line [OF ok]
    by (auto simp: recoverable_def journal_ok_def intro: prefix_prefix)
qed

lemma recoverable_torn:
  assumes rec: "recoverable dk" and p: "project limits (bodies (dk_database dk)) dk = Inr (dk', report)"
  shows "recoverable (dk\<lparr>dk_journal := dk_journal dk @ take n (drop (length (dk_journal dk)) (dk_journal dk'))\<rparr>)"
proof -
  let ?raw = "bodies (dk_database dk)" and ?j = "dk_journal dk"
  note f = project_Inr_facts [OF p]
  have lines: "list_all is_line ?raw" using rec by (simp add: recoverable_def)
  have "dk_journal dk' = concat ?raw" using f(2) lines by (simp add: projected_def)
  moreover obtain z where z: "concat ?raw = ?j @ z" using f(1) lines by (auto simp: prefix_def)
  ultimately have j: "?j @ take n (drop (length ?j) (dk_journal dk')) = ?j @ take n z" by simp
  have "prefix (?j @ take n z) (concat ?raw)" unfolding z by (simp add: take_is_prefix)
  moreover have "length (complete_lines ?j) \<le> length (complete_lines (?j @ take n z))"
    by (rule complete_lines_mono) simp
  ultimately show ?thesis unfolding j using rec by (auto simp: recoverable_def journal_ok_def)
qed

lemma recoverable_synced:
  assumes "recoverable dk" "project limits (bodies (dk_database dk)) dk = Inr (dk', report)"
  shows "recoverable dk'"
proof -
  have lines: "list_all is_line (bodies (dk_database dk))" using assms(1) by (simp add: recoverable_def)
  have dk': "dk' = projected (bodies (dk_database dk)) dk" by (rule project_Inr_facts [OF assms(2) lines])
  moreover have "bodies (dk_database dk') = bodies (dk_database dk)"
    "db_limits (dk_database dk') = db_limits (dk_database dk)"
    by (simp_all add: dk' projected_def bodies_def)
  ultimately show ?thesis using assms(1) projected_ok [OF lines, of dk] by (simp add: recoverable_def)
qed

lemma crash_recoverable: "crash_reachable rt limits dk \<Longrightarrow> float_text_ok rt \<Longrightarrow> recoverable dk"
proof (induction rule: crash_reachable.induct)
  case (step dk dk')
  then show ?case
    by (auto elim!: storage_step_elim intro: recoverable_committed recoverable_torn recoverable_synced)
qed (rule recoverable_initial)

lemma recoverable_projects:
  assumes "recoverable dk"
  shows "\<exists>report. project (db_limits (dk_database dk)) (bodies (dk_database dk)) dk
     = Inr (projected (bodies (dk_database dk)) dk, report)"
  using assms project_Inr [of "bodies (dk_database dk)" "db_limits (dk_database dk)" dk
      "projected (bodies (dk_database dk)) dk"]
  by (auto simp: recoverable_def total_bytes_concat)

text \<open>What the journal holds is at any time a prefix of the committed bytes.\<close>

lemma crash_journal_prefix:
  "crash_reachable rt limits dk \<Longrightarrow> float_text_ok rt \<Longrightarrow> prefix (dk_journal dk) (concat (bodies (dk_database dk)))"
  using crash_recoverable by (force simp: recoverable_def journal_ok_def)

end
