(* ===== verification/RegistryGuarantees.thy ===== *)
theory RegistryGuarantees
  imports RegistrySamples RegistryStorage
begin

text \<open>
  The guarantees of the replayed registry: what holds in every state a history of accepted events
  leads to, each applied to the sample history.
\<close>

lemmas sample_history = sample_documents_apart sample_run

lemma sample_start_apart: "collision_free sample_runtime (history_documents sample_start)"
  by (rule collision_free_subset [OF sample_documents_apart]) (auto simp: history_documents_def)

lemma sample_tables:
  "st_jobs completed_sample = [(sample_job, (sample_job_record J_completed [sample_attempt])
     \<lparr>job_result := Some (sample_result 3), job_result_observations := [sample_observation_id 2]\<rparr>)]"
  "st_attempts completed_sample = [(sample_attempt, sample_attempt_record\<lparr>at_state := A_completed\<rparr>)]"
  "st_observations completed_sample = [(sample_observation_id 1, sample_row_of 1 2),
     (sample_observation_id 2, sample_row_of 2 3)]"
  "st_notices completed_sample = []" "st_limits completed_sample = default_limits"
  by (simp_all add: sample_states)

section \<open>Well-formedness\<close>

text \<open>
  C1: every state reached by replaying accepted events is well formed: each table is keyed by the
  content identity of its rows, dependencies are registered and acyclic, each attempt belongs to
  exactly one job, no job exceeds its attempt limit, the attempt states of a job are those its state
  asks for, claim keys are unique, and every reference a job mentions is registered.
\<close>

theorem replay_well_formed:
  assumes "collision_free rt (history_documents ds)" "replay rt limits ds = Inr s"
  shows "wf_state rt s"
  using replay_wf [OF assms] .

theorem replay_well_formed_witness: "wf_state sample_runtime completed_sample"
  by (rule replay_well_formed [OF sample_history])

text \<open>
  C2: a job never has two running attempts: in every replayed state two running attempts of the same
  job are the same attempt, it is the last attempt of the job, and the job is in state running.
\<close>

theorem one_running_attempt:
  assumes "collision_free rt (history_documents ds)" "replay rt limits ds = Inr s"
    and "map_of (st_attempts s) a = Some x" "at_state x = A_running"
    and "map_of (st_attempts s) b = Some y" "at_state y = A_running"
    and "cl_job_id (at_claim x) = cl_job_id (at_claim y)"
  shows "a = b \<and> (\<exists>j. map_of (st_jobs s) (cl_job_id (at_claim x)) = Some j \<and> job_state j = J_running
    \<and> last (job_attempts j) = a)"
proof -
  have wf: "wf_state rt s" by (rule replay_wf [OF assms(1,2)])
  have run: "\<exists>j. map_of (st_jobs s) (cl_job_id (at_claim z)) = Some j \<and> job_state j = J_running
      \<and> last (job_attempts j) = c"
    if z: "map_of (st_attempts s) c = Some z" "at_state z = A_running" for c z
  proof -
    from wf z(1) have "attempt_wf rt s c z" by (simp add: wf_state_def)
    then obtain j where j: "map_of (st_jobs s) (cl_job_id (at_claim z)) = Some j" "c \<in> set (job_attempts j)"
      by (auto simp: attempt_wf_def)
    then have "lifecycle (st_attempts s) j" using wf by (simp add: wf_state_def job_wf_def)
    then have "job_state j = J_running \<and> last (job_attempts j) = c"
      using j(2) z by (auto simp: state_of_attempt_def dest!: lifecycle_running)
    with j(1) show ?thesis by blast
  qed
  from run [OF assms(3,4)] run [OF assms(5,6)] assms(7) show ?thesis by auto
qed

lemma lookup_sample_attempt: "map_of (st_attempts running_sample) sample_attempt = Some sample_attempt_record"
  by (simp add: sample_states)

lemma run_running: "replay sample_runtime default_limits (take 3 sample_start) = Inr running_sample"
  by (simp add: replay_def sample_start_def run_register run_enqueue run_claim)

lemma take_apart: "collision_free sample_runtime (history_documents (take n sample_start))"
  by (rule collision_free_subset [OF sample_start_apart])
    (auto simp: history_documents_def dest: in_set_takeD)

theorem one_running_attempt_witness:
  "sample_attempt = sample_attempt \<and> (\<exists>j. map_of (st_jobs running_sample) sample_job = Some j
     \<and> job_state j = J_running \<and> last (job_attempts j) = sample_attempt)"
  using one_running_attempt [OF take_apart run_running lookup_sample_attempt _ lookup_sample_attempt]
  by simp

section \<open>History\<close>

text \<open>
  C3: history is never rewritten: if a history is extended, every artifact record and every
  accounting snapshot of the earlier state is still there unchanged, completed and exhausted jobs
  and finished attempts are unchanged, jobs keep their specification and only gain attempts, lifted
  quarantine notices stay lifted, and limits only grow.
\<close>

theorem history_extends:
  assumes "collision_free rt (history_documents (ds @ es))"
    and "replay rt limits ds = Inr s" "replay rt limits (ds @ es) = Inr t"
  shows "extends s t"
proof -
  have "trusted_state rt (history_documents (ds @ es)) s" by (rule replay_trusted [OF assms(1,2)])
  moreover have "fold_result (apply_event rt) s es = Inr t" using assms(2,3) by (simp add: replay_append)
  ultimately show ?thesis by (rule registry_order.replay_le [OF _ events_within])
qed

theorem history_extends_witness: "extends observed_sample completed_sample"
  by (rule history_extends [OF sample_documents_apart sample_start_run sample_run])

text \<open>
  C4: the accounting ledger never loses a cost: in every replayed state the snapshots of one
  upstream attempt have revisions 1, 2, ... without gaps, belong to one registry attempt, and a
  later revision keeps all receipts, all cost categories and never lowers or erases a known cost.
\<close>

theorem ledger_never_loses_costs:
  assumes "collision_free rt (history_documents ds)" "replay rt limits ds = Inr s"
    and "map_of (st_observations s) k = Some b" "map_of (st_observations s) k' = Some b'"
    and "upstream_key b = upstream_key b'"
  shows "(revision_of b \<le> revision_of b' \<longrightarrow> snapshot_le b b') \<and> (revision_of b = revision_of b' \<longrightarrow> k = k')
    \<and> (\<forall>r. 1 \<le> r \<and> r \<le> revision_of b \<longrightarrow> (\<exists>k'' b''. map_of (st_observations s) k'' = Some b''
         \<and> upstream_key b'' = upstream_key b \<and> revision_of b'' = r))"
proof -
  have wf: "wf_state rt s" and l: "ledger_wf s" using assms(1,2) by (rule replay_wf, rule replay_ledger)
  then have keyed: "obr_observation_id x = i" if "map_of (st_observations s) i = Some x" for i x
    using that by (simp add: wf_state_def observation_wf_def)
  have dist: "distinct (keys (st_observations s))" using wf by (simp add: wf_state_def)
  note vals = values_iff [OF dist]
  have "b \<in> set (dict_values (st_observations s))" "b' \<in> set (dict_values (st_observations s))"
    using assms(3,4) vals by blast+
  with l assms(5) have "(revision_of b \<le> revision_of b' \<longrightarrow> snapshot_le b b') \<and> (revision_of b = revision_of b' \<longrightarrow> b = b')"
    "\<forall>r. 1 \<le> r \<and> r \<le> revision_of b \<longrightarrow> (\<exists>b'' \<in> set (dict_values (st_observations s)).
        upstream_key b'' = upstream_key b \<and> revision_of b'' = r)"
    unfolding ledger_wf_def snapshot_chain_def by blast+
  with keyed [OF assms(3)] keyed [OF assms(4)] vals show ?thesis by blast
qed

theorem ledger_never_loses_costs_witness: "snapshot_le (sample_row_of 1 2) (sample_row_of 2 3)"
proof -
  have "revision_of (sample_row_of 1 2) \<le> revision_of (sample_row_of 2 3)"
    "upstream_key (sample_row_of 1 2) = upstream_key (sample_row_of 2 3)"
    by (simp_all add: upstream_key_def sample_row_of_def sample_observation_def)
  moreover have "map_of (st_observations completed_sample) (sample_observation_id 1) = Some (sample_row_of 1 2)"
    "map_of (st_observations completed_sample) (sample_observation_id 2) = Some (sample_row_of 2 3)"
    by (simp_all add: sample_tables sample_digests(4) [THEN not_sym])
  ultimately show ?thesis using ledger_never_loses_costs [OF sample_history] by blast
qed

section \<open>Quarantine\<close>

text \<open>
  C5: \<open>State.affected\<close> decides the impact of a quarantine root exactly: on a registered root it
  returns the least set of digests closed under registered dependency and under the outputs of jobs
  with a tainted input, configuration or evidence, with exactly those jobs; on any other reference
  it raises.
\<close>

theorem affected_is_least_closure:
  "affected s r = (if registered (st_artifacts s) r
     then Inr ({k. tainted s (ref_sha256 r) k}, {k. tainted_job s (ref_sha256 r) k})
     else Inl (UnknownIdentity ''unregistered exact artifact reference''))"
  using affected_Inr [of s r "{k. tainted s (ref_sha256 r) k}" "{k. tainted_job s (ref_sha256 r) k}"]
  by (auto simp: affected_def raise_if_def)



section \<open>Lifecycle and capacity\<close>

text \<open>
  C7: jobs follow their state machine: an accepted event leaves every job unchanged or moves it along
  one transition that belongs to the event's action: claim starts a queued job, abandon pauses or
  exhausts a running one, retry requeues a paused one, complete finishes a running one.
\<close>

theorem jobs_follow_state_machine:
  assumes "wf_state rt s" "apply_event rt s d = Inr s'" "map_of (st_jobs s) k = Some j"
  shows "\<exists>j'. map_of (st_jobs s') k = Some j' \<and> (j' = j \<or> job_transition (action_of d) (job_state j) (job_state j'))"
  using event_moves [OF assms(1,2)] assms(3) by (simp add: moves_def)

theorem jobs_follow_state_machine_witness:
  "\<exists>j'. map_of (st_jobs running_sample) sample_job = Some j'
     \<and> (j' = sample_job_record J_queued [] \<or> job_transition ''claim'' J_queued (job_state j'))"
proof -
  have "replay sample_runtime default_limits (take 2 sample_start) = Inr queued_sample"
    by (simp add: replay_def sample_start_def run_register run_enqueue)
  then have "wf_state sample_runtime queued_sample" by (rule replay_wf [OF take_apart])
  from jobs_follow_state_machine [OF this run_claim, of sample_job "sample_job_record J_queued []"]
  show ?thesis by (simp add: sample_states)
qed

text \<open>
  C8: the tables never outgrow their limits: after any accepted history from valid limits there are
  at most \<open>max_active_jobs\<close> queued, running or paused jobs, at most \<open>max_jobs\<close> jobs and
  \<open>max_artifacts\<close> artifacts, and no job was admitted with more attempts than the policy allows.
\<close>

theorem replay_within_capacity:
  assumes "collision_free rt (history_documents ds)" "valid_limits limits" "replay rt limits ds = Inr s"
  shows "within_capacity s"
  using replay_capacity [OF assms] .

lemma default_limits_valid: "valid_limits default_limits"
  by (simp add: valid_limits_def default_limits_def between_def)

theorem replay_within_capacity_witness: "within_capacity completed_sample"
  by (rule replay_within_capacity [OF sample_documents_apart default_limits_valid sample_run])



section \<open>Storage\<close>

text \<open>
  C10: the journal is repaired exactly when that loses nothing: on canonical event lines within the
  byte limit, \<open>project\<close> succeeds if and only if the journal file is a prefix of the committed bytes
  that still contains every acknowledged line; then the file becomes exactly the committed bytes,
  and a second projection changes nothing.
\<close>

theorem projection_exact:
  assumes "list_all is_line raw" "int (length (concat raw)) \<le> max_journal_bytes limits"
  shows "((\<exists>r. project limits raw d = Inr (d', r)) \<longleftrightarrow> journal_ok raw d \<and> d' = projected raw d)
    \<and> (\<exists>r. project limits raw (projected raw d) = Inr (projected raw d, r))"
  using project_Inr [OF assms] projected_ok [OF assms(1)] projected_idem by metis

theorem projection_exact_witness:
  "\<exists>r. project default_limits [[CHR ''x'', newline]] (projected [[CHR ''x'', newline]] (initial_disk default_limits))
     = Inr (projected [[CHR ''x'', newline]] (initial_disk default_limits), r)"
proof -
  have "list_all is_line [[CHR ''x'', newline]]"
    by (auto simp: is_line_def intro!: exI [of _ "[CHR ''x'']"])
  moreover have "int (length (concat [[CHR ''x'', newline]])) \<le> max_journal_bytes default_limits"
    by (simp add: default_limits_def)
  ultimately show ?thesis using projection_exact by blast
qed

text \<open>
  C11: a crash never loses or corrupts committed history: whatever sequence of commits, torn journal
  writes and interrupted or finished projections led to the disk contents, the journal is a prefix
  of the committed bytes, and the next recovery completes it to exactly those bytes.
\<close>

theorem crash_recovers:
  assumes "crash_reachable rt limits dk" "float_text_ok rt"
  shows "prefix (dk_journal dk) (concat (bodies (dk_database dk)))
    \<and> (\<exists>report. project (db_limits (dk_database dk)) (bodies (dk_database dk)) dk
         = Inr (projected (bodies (dk_database dk)) dk, report))"
  using crash_journal_prefix [OF assms] recoverable_projects [OF crash_recoverable [OF assms]] by simp

definition sample_event :: registry_event where
  "sample_event = \<lparr>re_sequence = 1, re_event_id = genesis, re_previous = genesis,
     re_semantic_key = ''register/a'', re_recorded_at = ''2024-01-01T00:00:00Z'',
     re_data = E_register [sample_row CHR ''a'' []]\<rparr>"

definition committed_sample :: disk where
  "committed_sample = (initial_disk default_limits)\<lparr>dk_database :=
     \<lparr>db_limits = default_limits, db_acknowledged = 0,
      db_events = [(1, ''register/a'', event_body sample_runtime sample_event)],
      db_records = state_rows sample_runtime registered_sample\<rparr>\<rparr>"

lemma sample_event_identity: "event_identity sample_runtime (sample_event\<lparr>re_event_id := x\<rparr>) = genesis"
proof -
  have "\<not> same_json (doc_spec sp) (JObj (doc_event_body e))"
    "\<not> same_json (attempt_document j k u) (JObj (doc_event_body e))"
    "\<not> same_json (observation_document a b) (JObj (doc_event_body e))" for sp j k u a b e
    by (auto simp: doc_spec_def attempt_document_def observation_document_def doc_event_body_def
        dest!: same_json_keys)
  then show ?thesis
    by (simp add: event_identity_def sample_runtime_def table_identity genesis_def)
qed

lemma sample_next_event:
  "next_event sample_runtime [] ''register/a'' ''2024-01-01T00:00:00Z'' (E_register [sample_row CHR ''a'' []])
     = sample_event"
  using sample_event_identity [of genesis]
  by (simp add: next_event_def Let_def sample_event_def)

lemma sample_body_length: "int (length (event_body sample_runtime sample_event)) \<le> 10000"
  by code_simp

lemma sample_rows_length:
  "check_record_bounds default_limits (map snd (state_rows sample_runtime registered_sample)) = Inr ()"
  by code_simp

lemma sample_event_valid: "valid_event sample_event"
  by code_simp

lemma sample_append:
  "append_event sample_runtime (initial_state default_limits) [] ''register/a'' ''2024-01-01T00:00:00Z''
     (E_register [sample_row CHR ''a'' []]) (initial_disk default_limits) = Inr (committed_sample, registered_sample)"
proof -
  have "persist sample_runtime default_limits sample_event registered_sample (dk_database (initial_disk default_limits))
      = Inr (dk_database committed_sample)"
    by (simp add: persist_Inr sample_rows_length initial_disk_def committed_sample_def)
      (simp add: sample_event_def)
  moreover have "st_limits (initial_state default_limits) = default_limits" by (simp add: initial_state_def)
  moreover have "(dk_database committed_sample)\<lparr>db_limits := default_limits\<rparr> = dk_database committed_sample"
    "(initial_disk default_limits)\<lparr>dk_database := dk_database committed_sample\<rparr> = committed_sample"
    by (simp_all add: committed_sample_def)
  ultimately show ?thesis
    using sample_body_length
    by (simp add: append_event_def Let_def sample_next_event run_register sample_event_valid)
      (simp add: default_limits_def initial_disk_def bodies_def total_bytes_def)
qed

theorem crash_recovers_witness:
  "\<exists>report. project default_limits (bodies (dk_database committed_sample)) committed_sample
     = Inr (projected (bodies (dk_database committed_sample)) committed_sample, report)"
proof -
  have "crash_reachable sample_runtime default_limits committed_sample"
    by (rule crash_reachable.step [OF crash_reachable.start storage_step.committed [OF sample_append]])
      (rule default_limits_valid)
  moreover have "float_text_ok sample_runtime"
    using sample_documents_apart by (simp add: collision_free_def)
  moreover have "db_limits (dk_database committed_sample) = default_limits" by (simp add: committed_sample_def)
  ultimately show ?thesis using crash_recovers by metis
qed

text \<open>
  C12: what a request commits is what the next client loads: if the stored history authenticates and
  a new event is appended to it, then the database with the event authenticates again and yields
  exactly the state the request computed, provided the parser reads back the event's canonical bytes.
\<close>

theorem committed_event_reloads:
  assumes "load rt parse requested (dk_database dk) = Inr (state, events)"
    and "append_event rt state events key now d dk = Inr (dk', state')"
    and "parse (event_body rt (next_event rt events key now d)) = Some (next_event rt events key now d)"
  shows "load rt parse requested (dk_database dk') = Inr (state', events @ [next_event rt events key now d])"
  using append_reloads [OF assms] .

lemma load_initial: "valid_limits limits \<Longrightarrow>
   load rt parse limits (dk_database (initial_disk limits)) = Inr (initial_state limits, [])"
  by (auto simp: load_Inr load_history_Inr initial_disk_def bodies_def total_bytes_def longest_def
      check_record_bounds_def replay_def first_limits_def expansions_def capacities_def state_rows_def
      List.map_filter_def initial_state_def valid_limits_def between_def)

theorem committed_event_reloads_witness:
  "load sample_runtime (\<lambda>_. Some sample_event) default_limits (dk_database committed_sample)
     = Inr (registered_sample, [sample_event])"
  using committed_event_reloads [OF load_initial [OF default_limits_valid] sample_append, of "\<lambda>_. Some sample_event"]
  by (simp add: sample_next_event)

text \<open>
  C13: the last event identity authenticates the whole history: two event tables that both
  authenticate and end in the same event identity are equal, row for row, unless SHA-256 collides on
  two of their events.
\<close>

theorem last_identity_determines_history:
  assumes "collision_free rt (event_documents_of events \<union> event_documents_of events')"
    and "fold_result (load_row rt parse) [] rows = Inr events" "fold_result (load_row rt parse) [] rows' = Inr events'"
    and "events \<noteq> []" "events' \<noteq> []" "re_event_id (last events) = re_event_id (last events')"
  shows "events = events' \<and> rows = rows'"
  using chain_determines_history [OF assms] .

theorem last_identity_determines_history_witness:
  "fold_result (load_row sample_runtime (\<lambda>_. Some sample_event)) []
     [(1, ''register/a'', event_body sample_runtime sample_event)] = Inr [sample_event] \<and>
   [sample_event] = [sample_event] \<and> db_events (dk_database committed_sample)
     = [(1, ''register/a'', event_body sample_runtime sample_event)]"
proof -
  have load: "fold_result (load_row sample_runtime (\<lambda>_. Some sample_event)) []
      [(1, ''register/a'', event_body sample_runtime sample_event)] = Inr [sample_event]"
    using append_reloads [OF load_initial [OF default_limits_valid] sample_append, of "\<lambda>_. Some sample_event",
        unfolded load_Inr load_history_Inr]
    by (simp add: committed_sample_def sample_next_event)
  moreover have "collision_free sample_runtime (event_documents_of [sample_event] \<union> event_documents_of [sample_event])"
    using sample_documents_apart by (simp add: collision_free_def event_documents_of_def)
  ultimately show ?thesis
    using last_identity_determines_history [OF _ load load] by (simp add: committed_sample_def)
qed

end
