(* ===== verification/SplitClosure.thy ===== *)
theory SplitClosure
  imports Json "HOL-Library.Product_Lexorder" "HOL-Library.Multiset"
begin

text \<open>
  \<^verbatim>\<open>splits/closure.py\<close>: the planner that assigns related sources to one partition. The relations that
  close a component are merged in a disjoint-set forest with path halving; the loop of \<open>find\<close> is a
  partial function over the mutated parent table, so its termination is a theorem
  (\<open>find_root_total\<close>). The components computed are the connected components of the closing relations
  (\<open>merged_components\<close>), whatever the order the relations are given in.
\<close>

section \<open>Relations\<close>

datatype relation_kind = K_fork | K_backport | K_copied_code | K_monorepo | K_descendant
  | K_same_request | K_dependency

fun relation_kind_value :: "relation_kind \<Rightarrow> string" where
  "relation_kind_value K_fork = ''fork''"
| "relation_kind_value K_backport = ''backport''"
| "relation_kind_value K_copied_code = ''copied_code''"
| "relation_kind_value K_monorepo = ''monorepo''"
| "relation_kind_value K_descendant = ''descendant''"
| "relation_kind_value K_same_request = ''same_request''"
| "relation_kind_value K_dependency = ''dependency''"

definition CLOSING_RELATIONS :: "relation_kind list" where
  "CLOSING_RELATIONS =
     [K_fork, K_backport, K_copied_code, K_monorepo, K_descendant, K_same_request]"

record relation =
  rel_left :: string
  rel_right :: string
  rel_kind :: relation_kind
  rel_proof :: string

definition relation_checks :: "relation \<Rightarrow> checks" where
  "relation_checks r =
     [(\<not> is_identifier (rel_left r) \<or> \<not> is_identifier (rel_right r),
       ''relation endpoints must be safe source identifiers''),
      (rel_left r = rel_right r, ''relation endpoints must differ''),
      (rel_kind r \<notin> set CLOSING_RELATIONS \<and> rel_kind r \<noteq> K_dependency,
       ''unsupported source relation''),
      (\<not> is_text (rel_proof r), ''relation requires recorded proof'')]"

definition valid_relation :: "relation \<Rightarrow> bool" where
  "valid_relation r \<longleftrightarrow> passes (relation_checks r)"

record split_assignment =
  sa_source :: string
  sa_partition :: partition
  sa_component :: string

record partition_manifest =
  pm_assignments :: "split_assignment list"
  pm_relations :: "relation list"
  pm_review_required :: "relation list"

datatype split_error =
    SplitValueError string
  | SplitKeyError string
  | SplitConflict "string list" "string list"

text \<open>The dataclasses are ordered field by field.\<close>

definition relation_key :: "relation \<Rightarrow> string \<times> string \<times> string \<times> string" where
  "relation_key r = (rel_left r, rel_right r, relation_kind_value (rel_kind r), rel_proof r)"

definition assignment_key :: "split_assignment \<Rightarrow> string \<times> string \<times> string" where
  "assignment_key a = (sa_source a, partition_value (sa_partition a), sa_component a)"

definition closing :: "relation \<Rightarrow> bool" where
  "closing r \<longleftrightarrow> rel_kind r \<in> set CLOSING_RELATIONS"

lemma closing_iff: "closing r \<longleftrightarrow> rel_kind r \<noteq> K_dependency"
  by (cases "rel_kind r") (simp_all add: closing_def CLOSING_RELATIONS_def)

text \<open>\<open>SplitPlanner.__init__\<close>\<close>

definition planner :: "relation list \<Rightarrow> split_error + relation list" where
  "planner rels =
     raise_if (\<not> distinct rels) (SplitValueError ''duplicate source relation'') (Inr rels)"


definition component_id :: "runtime \<Rightarrow> string list \<Rightarrow> string" where
  "component_id rt members = ''component-'' @ sha256 rt (join_text [CHR 0x00] members)"

section \<open>The disjoint-set forest\<close>

type_synonym parents = "string \<rightharpoonup> string"

text \<open>
  The local functions run over the shared \<open>parent\<close> table. \<^term>\<open>None\<close> is a run that does not return;
  a lookup of an absent node is a \<open>KeyError\<close>.
\<close>

definition bind_run ::
  "(split_error + 'a) option \<Rightarrow> ('a \<Rightarrow> (split_error + 'b) option) \<Rightarrow> (split_error + 'b) option" where
  "bind_run m f = (case m of None \<Rightarrow> None | Some (Inl e) \<Rightarrow> Some (Inl e) | Some (Inr x) \<Rightarrow> f x)"

lemma bind_run_simps [simp]:
  "bind_run None f = None" "bind_run (Some (Inl e)) f = Some (Inl e)" "bind_run (Some (Inr x)) f = f x"
  by (simp_all add: bind_run_def)

partial_function (option) find_root ::
  "parents \<Rightarrow> string \<Rightarrow> (split_error + parents \<times> string) option" where
  "find_root parent node =
     (case parent node of
        None \<Rightarrow> Some (Inl (SplitKeyError node))
      | Some up \<Rightarrow>
          if up = node then Some (Inr (parent, node))
          else (case parent up of
                  None \<Rightarrow> Some (Inl (SplitKeyError up))
                | Some next \<Rightarrow> find_root (parent(node \<mapsto> next)) next))"

declare find_root.simps [code]

definition unite :: "parents \<Rightarrow> string \<Rightarrow> string \<Rightarrow> (split_error + parents) option" where
  "unite parent left right =
     bind_run (find_root parent left) (\<lambda>(parent, left_root).
     bind_run (find_root parent right) (\<lambda>(parent, right_root).
     if left_root = right_root then Some (Inr parent)
     else let lower = min left_root right_root; higher = max left_root right_root in
       Some (Inr (parent(higher \<mapsto> lower)))))"

fun unite_all :: "parents \<Rightarrow> relation list \<Rightarrow> (split_error + parents) option" where
  "unite_all parent [] = Some (Inr parent)"
| "unite_all parent (r # rs) =
     bind_run (if closing r then unite parent (rel_left r) (rel_right r) else Some (Inr parent))
       (\<lambda>parent. unite_all parent rs)"

text \<open>\<open>components.setdefault(find(node), []).append(node)\<close> for each node in order.\<close>

fun group_nodes ::
  "parents \<Rightarrow> string list \<Rightarrow> string list dict \<Rightarrow> (split_error + string list dict) option" where
  "group_nodes parent [] components = Some (Inr components)"
| "group_nodes parent (node # nodes) components =
     bind_run (find_root parent node) (\<lambda>(parent, top).
     group_nodes parent nodes (dict_append top node components))"

definition source_nodes :: "relation list \<Rightarrow> partition dict \<Rightarrow> string list" where
  "source_nodes rels requested =
     sort (remdups (keys requested @ concat (map (\<lambda>r. [rel_left r, rel_right r]) rels)))"

definition explicit_partitions :: "partition dict \<Rightarrow> string list \<Rightarrow> partition list" where
  "explicit_partitions requested members = remdups (List.map_filter (map_of requested) members)"

definition assign_component ::
  "runtime \<Rightarrow> partition dict \<Rightarrow> split_assignment list \<Rightarrow> string list
     \<Rightarrow> split_error + split_assignment list" where
  "assign_component rt requested assignments members_list =
     (let members = sort members_list; explicit = explicit_partitions requested members in
      raise_if (length explicit > 1)
        (SplitConflict members (sort (map partition_value explicit)))
      (let partition = (case explicit of [] \<Rightarrow> P_UNASSIGNED | p # _ \<Rightarrow> p) in
       Inr (assignments @ map (\<lambda>item. \<lparr>sa_source = item, sa_partition = partition,
                                       sa_component = component_id rt members\<rparr>) members)))"

definition assign ::
  "runtime \<Rightarrow> relation list \<Rightarrow> partition dict \<Rightarrow> (split_error + partition_manifest) option" where
  "assign rt rels requested =
     (if list_ex (\<lambda>source. \<not> is_identifier source) (keys requested)
      then Some (Inl (SplitValueError ''assignment source must be a safe identifier''))
      else
        let nodes = source_nodes rels requested in
        bind_run (unite_all (map_of (map (\<lambda>n. (n, n)) nodes)) (sort_key relation_key rels)) (\<lambda>parent.
        bind_run (group_nodes parent nodes []) (\<lambda>components.
        bind_run (Some (fold_result (assign_component rt requested) [] (dict_values components))) (\<lambda>assignments.
        Some (Inr \<lparr>pm_assignments = sort_key assignment_key assignments,
                   pm_relations = sort_key relation_key rels,
                   pm_review_required =
                     sort_key relation_key (filter (\<lambda>r. rel_kind r = K_dependency) rels)\<rparr>)))))"

section \<open>Representatives\<close>

inductive rooted :: "parents \<Rightarrow> string \<Rightarrow> string \<Rightarrow> bool" for parent where
  top: "parent n = Some n \<Longrightarrow> rooted parent n n"
| up: "parent n = Some m \<Longrightarrow> m \<noteq> n \<Longrightarrow> rooted parent m r \<Longrightarrow> rooted parent n r"


definition forest :: "string set \<Rightarrow> parents \<Rightarrow> bool" where
  "forest N parent \<longleftrightarrow> finite N \<and> dom parent = N \<and> (\<forall>n m. parent n = Some m \<longrightarrow> m \<in> N \<and> m \<le> n)"

lemma rooted_unique: "rooted parent n r \<Longrightarrow> rooted parent n s \<Longrightarrow> r = s"
proof (induction arbitrary: s rule: rooted.induct)
  case (top n)
  from top(2,1) show ?case by (cases rule: rooted.cases) simp_all
next
  case (up n m r)
  from up.prems up(1,2) have "rooted parent m s" by (cases rule: rooted.cases) simp_all
  then show ?case by (rule up.IH)
qed

lemma rooted_top: "rooted parent n r \<Longrightarrow> parent r = Some r"
  by (induction rule: rooted.induct)

lemma rooted_in: "forest N parent \<Longrightarrow> rooted parent n r \<Longrightarrow> n \<in> N \<and> r \<in> N"
  by (metis (no_types, lifting) domI forest_def rooted.cases rooted_top)

lemma rooted_le:
  assumes "forest N parent" "rooted parent n r"
  shows "r \<le> n"
  using assms(2,1) by (induction rule: rooted.induct) (auto simp: forest_def intro: order_trans)

text \<open>Parents are smaller, so the nodes below a node bound every walk.\<close>

lemma node_induct [consumes 2, case_names node]:
  assumes "finite N" "n \<in> N"
    and step: "\<And>n. n \<in> N \<Longrightarrow> (\<And>m. m \<in> N \<Longrightarrow> m < n \<Longrightarrow> P m) \<Longrightarrow> P (n :: string)"
  shows "P n"
  using assms(2)
proof (induction "card {m \<in> N. m < n}" arbitrary: n rule: less_induct)
  case less
  show ?case
  proof (rule step [OF less.prems])
    fix m
    assume m: "m \<in> N" "m < n"
    then have "{k \<in> N. k < m} \<subset> {k \<in> N. k < n}" by (auto intro: less_trans)
    then have "card {k \<in> N. k < m} < card {k \<in> N. k < n}"
      by (rule psubset_card_mono [rotated]) (use assms(1) in auto)
    with m show "P m" by (intro less.hyps)
  qed
qed

lemma rooted_exists:
  assumes "forest N parent" "n \<in> N"
  shows "\<exists>r. rooted parent n r"
  using assms(1) [unfolded forest_def, THEN conjunct1] assms(2)
proof (induction rule: node_induct)
  case (node n)
  obtain m where m: "parent n = Some m" "m \<in> N" "m \<le> n"
    using assms(1) node(1) by (auto simp: forest_def)
  show ?case
  proof (cases "m = n")
    case True
    with m show ?thesis by (auto intro: rooted.top)
  next
    case False
    with m have "m < n" by simp
    with node(2) m obtain r where "rooted parent m r" by auto
    with m(1) False show ?thesis by (auto intro: rooted.up)
  qed
qed

text \<open>Path halving changes no representative.\<close>

lemma halve_forest:
  assumes "forest N parent" "parent n = Some m" "parent m = Some g"
  shows "forest N (parent(n \<mapsto> g))"
  using assms unfolding forest_def by (auto split: if_splits intro: order_trans)

lemma halve_rooted:
  assumes f: "forest N parent" and n: "parent n = Some m" "m \<noteq> n" "parent m = Some g"
  shows "rooted (parent(n \<mapsto> g)) = rooted parent"
proof -
  let ?q = "parent(n \<mapsto> g)"
  have "m \<le> n" "g \<le> m" using f n by (auto simp: forest_def)
  with n(2) have "g \<noteq> n" by (auto dest: order.antisym)
  have keep: "rooted ?q x r" if "rooted parent x r" for x r
    using that
  proof (induction rule: rooted.induct)
    case (top x)
    then have "x \<noteq> n" using n by auto
    with top show ?case by (auto intro: rooted.top)
  next
    case (up x y r)
    show ?case
    proof (cases "x = n")
      case False
      with up show ?thesis by (auto intro: rooted.up)
    next
      case True
      with up(1) n have "y = m" by simp
      note y = this up.IH [unfolded this]
      have m: "?q m = Some g" using n by auto
      show ?thesis
      proof (cases "g = m")
        case True
        with y m n \<open>x = n\<close> show ?thesis by (auto intro: rooted.up)
      next
        case False
        with y(2) m have "rooted ?q g r" by (cases rule: rooted.cases) simp_all
        then have "rooted ?q n r" by (rule rooted.up [rotated 2]) (use \<open>g \<noteq> n\<close> in auto)
        with \<open>x = n\<close> show ?thesis by (simp only:)
      qed
    qed
  qed
  have "rooted parent x r" if "rooted ?q x r" for x r
  proof -
    have "x \<in> N" using rooted_in [OF halve_forest [OF f n(1,3)] that] by simp
    then obtain s where "rooted parent x s" using rooted_exists [OF f] by auto
    with keep rooted_unique that show ?thesis by metis
  qed
  with keep show ?thesis by blast
qed

theorem find_root_total:
  assumes "forest N parent" "n \<in> N"
  shows "\<exists>parent' r. find_root parent n = Some (Inr (parent', r)) \<and> rooted parent n r
    \<and> forest N parent' \<and> rooted parent' = rooted parent"
  using assms(1) [unfolded forest_def, THEN conjunct1] assms(2,1)
proof (induction arbitrary: parent rule: node_induct)
  case (node n)
  from node.prems node(1) obtain m where m: "parent n = Some m" "m \<in> N" "m \<le> n"
    by (auto simp: forest_def)
  then obtain g where g: "parent m = Some g" "g \<in> N" "g \<le> m"
    using node.prems by (auto simp: forest_def)
  show ?case
  proof (cases "m = n")
    case True
    with m node.prems show ?thesis by (auto simp: find_root.simps [of parent] intro: rooted.top)
  next
    case False
    let ?q = "parent(n \<mapsto> g)"
    have "g < n" using g m False by auto
    note q = halve_forest [OF node.prems m(1) g(1)] halve_rooted [OF node.prems m(1) False g(1)]
    obtain parent' r where r: "find_root ?q g = Some (Inr (parent', r))" "rooted ?q g r"
      "forest N parent'" "rooted parent' = rooted ?q"
      using node(2) [OF g(2) \<open>g < n\<close> q(1)] by blast
    have "g \<noteq> n" using \<open>g < n\<close> by auto
    then have "rooted ?q n r" using r(2) by (auto intro: rooted.up)
    with r m g False q(2) show ?thesis by (auto simp: find_root.simps [of parent])
  qed
qed

text \<open>The representative as a function, for stating what the merge does.\<close>

definition rep :: "parents \<Rightarrow> string \<Rightarrow> string" where
  "rep parent n = (THE r. rooted parent n r)"

lemma rep_eq: "rooted parent n r \<Longrightarrow> rep parent n = r"
  unfolding rep_def by (rule the_equality) (auto dest: rooted_unique)

lemma rep_rooted: "forest N parent \<Longrightarrow> n \<in> N \<Longrightarrow> rooted parent n (rep parent n)"
  using rooted_exists rep_eq by metis

lemma find_root_rep:
  assumes "forest N parent" "n \<in> N"
  obtains parent' where "find_root parent n = Some (Inr (parent', rep parent n))" "forest N parent'"
    "rep parent' = rep parent" "rooted parent' = rooted parent"
  using find_root_total [OF assms] rep_eq unfolding rep_def by metis

lemma link_forest:
  assumes "forest N parent" "parent hi = Some hi" "parent lo = Some lo" "lo < hi"
  shows "forest N (parent(hi \<mapsto> lo))"
  using assms by (auto simp: forest_def)

lemma link_rep:
  assumes f: "forest N parent" and hi: "parent hi = Some hi" and lo: "parent lo = Some lo" "lo < hi"
    and x: "x \<in> N"
  shows "rep (parent(hi \<mapsto> lo)) x = (if rep parent x = hi then lo else rep parent x)"
proof -
  let ?q = "parent(hi \<mapsto> lo)"
  have "rooted ?q y (if r = hi then lo else r)" if "rooted parent y r" for y r
    using that
  proof (induction rule: rooted.induct)
    case (top y)
    have "rooted ?q lo lo" using lo by (intro rooted.top) auto
    then have "rooted ?q hi lo" using lo by (intro rooted.up [of ?q hi lo]) auto
    moreover have "rooted ?q y y" if "y \<noteq> hi" using top that by (intro rooted.top) auto
    ultimately show ?case by (simp only: split: if_split) blast
  next
    case (up y m r)
    then have "y \<noteq> hi" using hi by auto
    with up show ?case by (auto intro: rooted.up)
  qed
  from rep_eq [OF this [OF rep_rooted [OF f x]]] show ?thesis .
qed

lemma unite_rep:
  assumes f: "forest N parent" and l: "l \<in> N" and r: "r \<in> N"
  obtains parent' where "unite parent l r = Some (Inr parent')" "forest N parent'"
    "\<And>x y. x \<in> N \<Longrightarrow> y \<in> N \<Longrightarrow> rep parent' x = rep parent' y \<longleftrightarrow>
       rep parent x = rep parent y
       \<or> rep parent x \<in> {rep parent l, rep parent r} \<and> rep parent y \<in> {rep parent l, rep parent r}"
proof -
  obtain p1 where p1: "find_root parent l = Some (Inr (p1, rep parent l))" "forest N p1"
    "rep p1 = rep parent" "rooted p1 = rooted parent"
    using find_root_rep [OF f l] by blast
  obtain p2 where p2: "find_root p1 r = Some (Inr (p2, rep p1 r))" "forest N p2"
    "rep p2 = rep p1" "rooted p2 = rooted p1"
    using find_root_rep [OF p1(2) r] by blast
  note same = p1(3) p2(3)
  have tops: "p2 (rep parent x) = Some (rep parent x)" if "x \<in> N" for x
    using rooted_top rep_rooted [OF p2(2) that] same by metis
  show thesis
  proof (cases "rep parent l = rep parent r")
    case True
    show thesis
      by (rule that [of p2]) (use p1 p2 True same in \<open>auto simp: unite_def\<close>)
  next
    case False
    let ?lo = "min (rep parent l) (rep parent r)" and ?hi = "max (rep parent l) (rep parent r)"
    have "?lo < ?hi" using False by (auto simp: min_def max_def)
    have top: "p2 ?hi = Some ?hi" "p2 ?lo = Some ?lo"
      using tops [OF l] tops [OF r] by (auto simp: min_def max_def)
    show thesis
    proof (rule that [of "p2(?hi \<mapsto> ?lo)"])
      show "unite parent l r = Some (Inr (p2(?hi \<mapsto> ?lo)))"
        using p1 p2 False same by (simp add: unite_def Let_def)
      show "forest N (p2(?hi \<mapsto> ?lo))"
        by (rule link_forest [OF p2(2) top \<open>?lo < ?hi\<close>])
      show "rep (p2(?hi \<mapsto> ?lo)) x = rep (p2(?hi \<mapsto> ?lo)) y \<longleftrightarrow>
          rep parent x = rep parent y
          \<or> rep parent x \<in> {rep parent l, rep parent r} \<and> rep parent y \<in> {rep parent l, rep parent r}"
        if "x \<in> N" "y \<in> N" for x y
        unfolding link_rep [OF p2(2) top \<open>?lo < ?hi\<close> that(1)] link_rep [OF p2(2) top \<open>?lo < ?hi\<close> that(2)]
          same
        by (cases "rep parent l < rep parent r") (auto simp: min_def max_def)
    qed
  qed
qed

section \<open>Components\<close>

definition links :: "relation list \<Rightarrow> (string \<times> string) set" where
  "links rels = (\<Union>r \<in> {r \<in> set rels. closing r}.
     {(rel_left r, rel_right r), (rel_right r, rel_left r)})"

definition connected :: "relation list \<Rightarrow> string \<Rightarrow> string \<Rightarrow> bool" where
  "connected rels x y \<longleftrightarrow> (x, y) \<in> (links rels)\<^sup>*"

lemma connected_refl [simp]: "connected rels x x"
  by (simp add: connected_def)

lemma connected_sym: "connected rels x y \<Longrightarrow> connected rels y x"
proof -
  have "(links rels)\<inverse> = links rels" by (auto simp: links_def)
  then show "connected rels x y \<Longrightarrow> connected rels y x"
    unfolding connected_def by (metis converse_iff rtrancl_converse)
qed

lemma connected_trans: "connected rels x y \<Longrightarrow> connected rels y z \<Longrightarrow> connected rels x z"
  unfolding connected_def by (rule rtrancl_trans)

lemma connected_mono: "set rels \<subseteq> set rels' \<Longrightarrow> connected rels x y \<Longrightarrow> connected rels' x y"
  unfolding connected_def by (rule rtrancl_mono [THEN subsetD]) (auto simp: links_def)

lemma connected_cong: "set rels = set rels' \<Longrightarrow> connected rels = connected rels'"
  by (simp add: connected_def links_def fun_eq_iff)

lemma connected_Nil [simp]: "connected [] x y \<longleftrightarrow> x = y"
  by (simp add: connected_def links_def)

lemma connected_link:
  assumes "r \<in> set rels" "closing r"
  shows "connected rels (rel_left r) (rel_right r)"
  unfolding connected_def by (rule r_into_rtrancl) (use assms in \<open>auto simp: links_def\<close>)

lemma connected_snoc:
  "connected (rels @ [r]) x y \<longleftrightarrow>
     connected rels x y
     \<or> closing r \<and> (\<exists>a \<in> {rel_left r, rel_right r}. connected rels x a)
         \<and> (\<exists>b \<in> {rel_left r, rel_right r}. connected rels b y)" (is "?L \<longleftrightarrow> ?R")
proof
  assume ?L
  then show ?R
    unfolding connected_def [of "rels @ [r]"]
  proof (induction rule: rtrancl_induct)
    case (step y z)
    from step(2) consider "(y, z) \<in> links rels" | "closing r" "{y, z} = {rel_left r, rel_right r}"
      by (auto simp: links_def split: if_splits)
    then show ?case
    proof cases
      case 1
      then have "connected rels y z" by (auto simp: connected_def)
      with step.IH show ?thesis by (auto intro: connected_trans)
    next
      case 2
      then have "z \<in> {rel_left r, rel_right r}" "y \<in> {rel_left r, rel_right r}" by auto
      with step.IH 2(1) show ?thesis by (metis connected_refl)
    qed
  qed simp
next
  have sub: "connected rels a b \<Longrightarrow> connected (rels @ [r]) a b" for a b
    by (rule connected_mono) auto
  have link: "connected (rels @ [r]) a b" if "closing r" "a \<in> {rel_left r, rel_right r}"
      "b \<in> {rel_left r, rel_right r}" for a b
    using connected_link [of r "rels @ [r]"] that by (auto dest: connected_sym)
  assume ?R
  then show ?L by (meson sub link connected_trans)
qed

section \<open>Merging computes the connected components\<close>

definition partitioned :: "string set \<Rightarrow> parents \<Rightarrow> relation list \<Rightarrow> bool" where
  "partitioned N parent rels \<longleftrightarrow> forest N parent
     \<and> (\<forall>x \<in> N. \<forall>y \<in> N. rep parent x = rep parent y \<longleftrightarrow> connected rels x y)"

lemma partitionedD:
  assumes "partitioned N parent rels"
  shows "forest N parent"
    "x \<in> N \<Longrightarrow> y \<in> N \<Longrightarrow> rep parent x = rep parent y \<longleftrightarrow> connected rels x y"
  using assms by (auto simp: partitioned_def)

lemma partitioned_initial:
  assumes "finite N"
  shows "partitioned N (\<lambda>n. if n \<in> N then Some n else None) []"
proof -
  let ?p = "\<lambda>n. if n \<in> N then Some n else None"
  have "rep ?p x = x" if "x \<in> N" for x
    by (rule rep_eq, rule rooted.top) (use that in simp)
  with assms show ?thesis by (auto simp: partitioned_def forest_def split: if_splits)
qed

lemma unite_partitioned:
  assumes p: "partitioned N parent rels" and r: "rel_left r \<in> N" "rel_right r \<in> N" "closing r"
  obtains parent' where "unite parent (rel_left r) (rel_right r) = Some (Inr parent')"
    "partitioned N parent' (rels @ [r])"
proof (rule unite_rep [OF partitionedD(1) [OF p] r(1,2)])
  fix parent'
  assume u: "unite parent (rel_left r) (rel_right r) = Some (Inr parent')" "forest N parent'"
    and iff: "\<And>x y. x \<in> N \<Longrightarrow> y \<in> N \<Longrightarrow> rep parent' x = rep parent' y \<longleftrightarrow>
       rep parent x = rep parent y
       \<or> rep parent x \<in> {rep parent (rel_left r), rep parent (rel_right r)}
         \<and> rep parent y \<in> {rep parent (rel_left r), rep parent (rel_right r)}"
  have "rep parent' x = rep parent' y \<longleftrightarrow> connected (rels @ [r]) x y" if "x \<in> N" "y \<in> N" for x y
    using that r partitionedD(2) [OF p]
    by (auto simp: iff connected_snoc dest: connected_sym)
  with u that show thesis by (simp add: partitioned_def)
qed

lemma connected_skip: "\<not> closing r \<Longrightarrow> connected (rels @ [r]) = connected rels"
  by (simp add: fun_eq_iff connected_snoc)

lemma unite_all_partitioned:
  assumes "partitioned N parent rels" "\<forall>r \<in> set rs. rel_left r \<in> N \<and> rel_right r \<in> N"
  shows "\<exists>parent'. unite_all parent rs = Some (Inr parent') \<and> partitioned N parent' (rels @ rs)"
  using assms
proof (induction rs arbitrary: parent rels)
  case (Cons r rs)
  show ?case
  proof (cases "closing r")
    case True
    obtain p' where p': "unite parent (rel_left r) (rel_right r) = Some (Inr p')"
      "partitioned N p' (rels @ [r])"
      using unite_partitioned [OF Cons.prems(1)] Cons.prems(2) True by auto
    with Cons.IH [OF p'(2)] Cons.prems(2) True show ?thesis by simp
  next
    case False
    then have "partitioned N parent (rels @ [r])"
      using Cons.prems(1) by (simp add: partitioned_def connected_skip)
    from Cons.IH [OF this] Cons.prems(2) False show ?thesis by simp
  qed
qed simp

text \<open>The grouping loop collects, for each representative, its nodes in order.\<close>

definition grouped :: "parents \<Rightarrow> string list \<Rightarrow> string list dict \<Rightarrow> bool" where
  "grouped parent ns comps \<longleftrightarrow> distinct (keys comps)
     \<and> (\<forall>r. map_of comps r =
          (let ms = filter (\<lambda>n. rep parent n = r) ns in if ms = [] then None else Some ms))"

lemma group_nodes_grouped:
  assumes "forest N parent" "set ns \<subseteq> N" "grouped parent done' comps"
  shows "\<exists>comps'. group_nodes parent ns comps = Some (Inr comps') \<and> grouped parent (done' @ ns) comps'"
  using assms
proof (induction ns arbitrary: parent done' comps)
  case (Cons n ns)
  obtain p' where p': "find_root parent n = Some (Inr (p', rep parent n))" "forest N p'"
    "rep p' = rep parent"
    using find_root_rep [OF Cons.prems(1)] Cons.prems(2) by (metis list.set_intros(1) subsetD)
  let ?comps = "dict_append (rep parent n) n comps"
  have "(case map_of comps (rep parent n) of None \<Rightarrow> [] | Some ms \<Rightarrow> ms)
      = filter (\<lambda>m. rep parent m = rep parent n) done'"
    using Cons.prems(3) by (auto simp: grouped_def Let_def split: if_splits)
  then have g: "grouped parent (done' @ [n]) ?comps"
    using Cons.prems(3) by (auto simp: grouped_def dict_append_def Let_def dict_simps)
  then have "grouped p' (done' @ [n]) ?comps" by (simp add: grouped_def p'(3))
  from Cons.IH [OF p'(2) _ this] Cons.prems(2) p' show ?case
    by (auto simp: grouped_def)
qed simp

text \<open>
  The components of a plan: lists of nodes in order, that partition the nodes into connected
  classes.
\<close>

definition component_lists :: "relation list \<Rightarrow> string list \<Rightarrow> string list list \<Rightarrow> bool" where
  "component_lists rels nodes comps \<longleftrightarrow>
     distinct (concat comps) \<and> set (concat comps) = set nodes \<and> [] \<notin> set comps
     \<and> (\<forall>ms \<in> set comps. sorted ms \<and> (\<forall>x \<in> set ms. \<forall>y \<in> set nodes. y \<in> set ms \<longleftrightarrow> connected rels x y))"

lemma grouped_values:
  assumes p: "partitioned (set nodes) parent rels" and g: "grouped parent nodes comps"
    and n: "distinct nodes" "sorted nodes"
  shows "component_lists rels nodes (dict_values comps)"
proof -
  have d: "distinct (keys comps)" using g by (simp add: grouped_def)
  have entry: "(r, ms) \<in> set comps \<longleftrightarrow> ms = filter (\<lambda>n. rep parent n = r) nodes \<and> ms \<noteq> []" for r ms
    using g by (auto simp: in_dict_iff [OF d] grouped_def Let_def)
  have rep_of: "rep parent x = r" if "(r, ms) \<in> set comps" "x \<in> set ms" for r ms x
    using that entry by auto
  have "r = r'" if "(r, ms) \<in> set comps" "(r', ms) \<in> set comps" for r r' ms
  proof -
    have "ms \<noteq> []" using that(1) entry [of r ms] by blast
    then have "hd ms \<in> set ms" by simp
    from rep_of [OF that(1) this] rep_of [OF that(2) this] show ?thesis by simp
  qed
  then have inj: "inj_on snd (set comps)" by (auto intro!: inj_onI)
  have "distinct comps" using d by (simp add: distinct_map)
  then have "distinct (dict_values comps)" using inj by (simp add: distinct_map)
  moreover have "distinct ms" if "ms \<in> set (dict_values comps)" for ms
    using that entry n(1) by auto
  moreover have "set ms \<inter> set ms' = {}"
    if "ms \<in> set (dict_values comps)" "ms' \<in> set (dict_values comps)" "ms \<noteq> ms'" for ms ms'
  proof -
    from that obtain r r' where r: "(r, ms) \<in> set comps" "(r', ms') \<in> set comps" by auto
    with that entry [of r ms] entry [of r' ms'] have "r \<noteq> r'" by blast
    with rep_of [OF r(1)] rep_of [OF r(2)] show ?thesis by blast
  qed
  ultimately have apart: "distinct (concat (dict_values comps))" by (rule distinct_concat)
  have cover: "x \<in> set (concat (dict_values comps))" if "x \<in> set nodes" for x
  proof -
    have "(rep parent x, filter (\<lambda>n. rep parent n = rep parent x) nodes) \<in> set comps"
      using that entry by (auto simp: filter_empty_conv)
    with that show ?thesis by force
  qed
  have within: "x \<in> set nodes" if "x \<in> set (concat (dict_values comps))" for x
    using that entry by auto
  have linked: "y \<in> set ms \<longleftrightarrow> connected rels x y"
    if "ms \<in> set (dict_values comps)" "x \<in> set ms" "y \<in> set nodes" for ms x y
  proof -
    from that(1) obtain r where r: "(r, ms) \<in> set comps" by auto
    with entry that(2) have "rep parent x = r" "x \<in> set nodes" by auto
    with partitionedD(2) [OF p this(2) that(3)] r entry that(3) show ?thesis by auto
  qed
  have inorder: "sorted ms" if "ms \<in> set (dict_values comps)" for ms
    using that entry n(2) sorted_filter [of "\<lambda>x. x" nodes] by auto
  have "[] \<notin> set (dict_values comps)" using entry by auto
  then show ?thesis
    unfolding component_lists_def using apart cover within linked inorder by blast
qed

section \<open>The assignment\<close>

text \<open>No two related sources were explicitly put into different partitions.\<close>

definition leak_free :: "relation list \<Rightarrow> partition dict \<Rightarrow> bool" where
  "leak_free rels requested \<longleftrightarrow>
     (\<forall>x y p q. connected rels x y \<longrightarrow> map_of requested x = Some p \<longrightarrow> map_of requested y = Some q \<longrightarrow> p = q)"

definition component_rows :: "runtime \<Rightarrow> partition dict \<Rightarrow> string list \<Rightarrow> split_assignment list" where
  "component_rows rt requested members =
     map (\<lambda>item. \<lparr>sa_source = item,
        sa_partition = (case explicit_partitions requested members of [] \<Rightarrow> P_UNASSIGNED | p # _ \<Rightarrow> p),
        sa_component = component_id rt members\<rparr>) members"

lemma assign_components:
  assumes "\<forall>ms \<in> set comps. sorted ms"
  shows "fold_result (assign_component rt requested) acc comps = Inr rows \<longleftrightarrow>
    (\<forall>ms \<in> set comps. length (explicit_partitions requested ms) \<le> 1)
    \<and> rows = acc @ concat (map (component_rows rt requested) comps)"
  using assms
proof (induction comps arbitrary: acc)
  case (Cons ms comps)
  then have "sort ms = ms" by (simp add: sorted_sort_id)
  with Cons show ?case
    by (auto simp: assign_component_def Let_def result_simps raise_if_def component_rows_def not_less)
qed auto

lemma conflict_only:
  "fold_result (assign_component rt requested) acc comps = Inl e \<Longrightarrow> \<exists>members labels. e = SplitConflict members labels"
  by (induction comps arbitrary: acc) (auto simp: assign_component_def Let_def raise_if_def split: if_splits)

lemma explicit_set: "p \<in> set (explicit_partitions requested ms) \<longleftrightarrow> (\<exists>x \<in> set ms. map_of requested x = Some p)"
  by (force simp: explicit_partitions_def map_filter_def)

lemma distinct_explicit: "distinct (explicit_partitions requested ms)"
  by (simp add: explicit_partitions_def)

lemma explicit_single:
  "length (explicit_partitions requested ms) \<le> 1 \<longleftrightarrow>
     (\<forall>p \<in> set (explicit_partitions requested ms). \<forall>q \<in> set (explicit_partitions requested ms). p = q)"
  using distinct_explicit [of requested ms]
  by (cases "explicit_partitions requested ms" rule: remdups_adj.cases) auto

lemma closed_nodes:
  assumes "connected rels x y" "x \<in> set (source_nodes rels requested)"
  shows "y \<in> set (source_nodes rels requested)"
  using assms unfolding connected_def
  by (induction rule: rtrancl_induct) (auto simp: links_def source_nodes_def)

lemma requested_nodes: "map_of requested x = Some p \<Longrightarrow> x \<in> set (source_nodes rels requested)"
  using map_of_in_keys [of requested x p] by (auto simp: source_nodes_def)

lemma source_nodes_sorted: "distinct (source_nodes rels requested)" "sorted (source_nodes rels requested)"
  by (simp_all add: source_nodes_def)

lemma identity_table: "map_of (map (\<lambda>n. (n, n)) ns) = (\<lambda>n. if n \<in> set ns then Some n else None)"
  by (induction ns) auto

text \<open>The merge and the grouping never fail and never diverge.\<close>

lemma merged_components:
  obtains parent comps where
    "unite_all (map_of (map (\<lambda>n. (n, n)) (source_nodes rels requested))) (sort_key relation_key rels)
       = Some (Inr parent)"
    "group_nodes parent (source_nodes rels requested) [] = Some (Inr comps)"
    "component_lists rels (source_nodes rels requested) (dict_values comps)"
proof -
  let ?N = "source_nodes rels requested"
  have "\<forall>r \<in> set (sort_key relation_key rels). rel_left r \<in> set ?N \<and> rel_right r \<in> set ?N"
    by (auto simp: source_nodes_def)
  from unite_all_partitioned [OF partitioned_initial this]
  obtain parent where u: "unite_all (map_of (map (\<lambda>n. (n, n)) ?N)) (sort_key relation_key rels) = Some (Inr parent)"
    "partitioned (set ?N) parent (sort_key relation_key rels)"
    by (auto simp: identity_table)
  have "grouped parent [] []" by (simp add: grouped_def)
  from group_nodes_grouped [OF partitionedD(1) [OF u(2)] subset_refl this]
  obtain comps where g: "group_nodes parent ?N [] = Some (Inr comps)" "grouped parent ?N comps"
    by auto
  have "partitioned (set ?N) parent rels"
    using u(2) connected_cong [of "sort_key relation_key rels" rels] by (simp add: partitioned_def)
  from that [OF u(1) g(1) grouped_values [OF this g(2) source_nodes_sorted]] show thesis .
qed

lemma components_leak_free:
  assumes c: "component_lists rels (source_nodes rels requested) comps"
  shows "(\<forall>ms \<in> set comps. length (explicit_partitions requested ms) \<le> 1) \<longleftrightarrow> leak_free rels requested"
    (is "?L \<longleftrightarrow> ?R")
proof
  assume L: ?L
  show ?R
    unfolding leak_free_def
  proof (intro allI impI)
    fix x y p q
    assume *: "connected rels x y" "map_of requested x = Some p" "map_of requested y = Some q"
    note nodes = requested_nodes [OF *(2), of rels] requested_nodes [OF *(3), of rels]
    with c obtain ms where ms: "ms \<in> set comps" "x \<in> set ms" unfolding component_lists_def by fastforce
    with c nodes *(1) have "y \<in> set ms" by (auto simp: component_lists_def)
    with L ms * show "p = q" unfolding explicit_single by (metis explicit_set)
  qed
next
  assume R: ?R
  have "p = q" if ms: "ms \<in> set comps" and p: "p \<in> set (explicit_partitions requested ms)"
    and q: "q \<in> set (explicit_partitions requested ms)" for ms p q
  proof -
    from p q obtain x y where "x \<in> set ms" "map_of requested x = Some p" "y \<in> set ms"
      "map_of requested y = Some q" by (auto simp: explicit_set)
    moreover from this have "y \<in> set (source_nodes rels requested)" by (blast intro: requested_nodes)
    with c ms \<open>x \<in> set ms\<close> \<open>y \<in> set ms\<close> have "connected rels x y"
      unfolding component_lists_def by blast
    ultimately show ?thesis using R unfolding leak_free_def by blast
  qed
  then show ?L unfolding explicit_single by blast
qed

text \<open>What a manifest says about the sources of its plan.\<close>

definition assigned :: "partition_manifest \<Rightarrow> string \<Rightarrow> partition \<Rightarrow> string \<Rightarrow> bool" where
  "assigned m x p k \<longleftrightarrow>
     (\<exists>a \<in> set (pm_assignments m). sa_source a = x \<and> sa_partition a = p \<and> sa_component a = k)"

lemma assign_cases:
  assumes "\<forall>x \<in> set (keys requested). is_identifier x"
  obtains comps where "component_lists rels (source_nodes rels requested) comps"
    "leak_free rels requested \<Longrightarrow> assign rt rels requested = Some (Inr
       \<lparr>pm_assignments = sort_key assignment_key (concat (map (component_rows rt requested) comps)),
        pm_relations = sort_key relation_key rels,
        pm_review_required = sort_key relation_key (filter (\<lambda>r. rel_kind r = K_dependency) rels)\<rparr>)"
    "\<not> leak_free rels requested \<Longrightarrow>
       \<exists>members labels. assign rt rels requested = Some (Inl (SplitConflict members labels))"
proof -
  obtain parent comps where m:
    "unite_all (map_of (map (\<lambda>n. (n, n)) (source_nodes rels requested))) (sort_key relation_key rels)
       = Some (Inr parent)"
    "group_nodes parent (source_nodes rels requested) [] = Some (Inr comps)"
    and c: "component_lists rels (source_nodes rels requested) (dict_values comps)"
    by (rule merged_components)
  have "list_ex (\<lambda>source. \<not> is_identifier source) (keys requested) = False"
    using assms by (auto simp: list_ex_iff)
  note step = this m
  let ?f = "fold_result (assign_component rt requested) [] (dict_values comps)"
  have f: "?f = Inr rows \<longleftrightarrow> leak_free rels requested
      \<and> rows = concat (map (component_rows rt requested) (dict_values comps))" for rows
    using assign_components [of "dict_values comps" rt requested "[]" rows] c components_leak_free [OF c]
    by (simp add: component_lists_def)
  have a: "assign rt rels requested = bind_run (Some ?f) (\<lambda>assignments.
        Some (Inr \<lparr>pm_assignments = sort_key assignment_key assignments,
          pm_relations = sort_key relation_key rels,
          pm_review_required = sort_key relation_key (filter (\<lambda>r. rel_kind r = K_dependency) rels)\<rparr>))"
    unfolding assign_def Let_def step if_False bind_run_simps ..
  show thesis
  proof (rule that [OF c])
    assume "leak_free rels requested"
    then have "?f = Inr (concat (map (component_rows rt requested) (dict_values comps)))" using f by blast
    with a show "assign rt rels requested = Some (Inr
       \<lparr>pm_assignments = sort_key assignment_key (concat (map (component_rows rt requested) (dict_values comps))),
        pm_relations = sort_key relation_key rels,
        pm_review_required = sort_key relation_key (filter (\<lambda>r. rel_kind r = K_dependency) rels)\<rparr>)" by simp
  next
    assume "\<not> leak_free rels requested"
    then obtain e where e: "?f = Inl e" using f by (cases ?f) blast+
    with conflict_only a show "\<exists>members labels. assign rt rels requested = Some (Inl (SplitConflict members labels))"
      by fastforce
  qed
qed

text \<open>The rows of a manifest, one per node, computed from the components.\<close>

lemma component_of:
  assumes c: "component_lists rels nodes comps"
  shows "x \<in> set nodes \<Longrightarrow> \<exists>ms \<in> set comps. x \<in> set ms"
    "ms \<in> set comps \<Longrightarrow> x \<in> set ms \<Longrightarrow> x \<in> set nodes"
    "ms \<in> set comps \<Longrightarrow> x \<in> set ms \<Longrightarrow> y \<in> set nodes \<Longrightarrow> y \<in> set ms \<longleftrightarrow> connected rels x y"
    "ms \<in> set comps \<Longrightarrow> ms' \<in> set comps \<Longrightarrow> x \<in> set ms \<Longrightarrow> x \<in> set ms' \<Longrightarrow> ms = ms'"
proof -
  note c' = c [unfolded component_lists_def]
  show "x \<in> set nodes \<Longrightarrow> \<exists>ms \<in> set comps. x \<in> set ms"
    "ms \<in> set comps \<Longrightarrow> x \<in> set ms \<Longrightarrow> x \<in> set nodes" for x ms
    using c' by (metis UN_iff set_concat)+
  show "ms \<in> set comps \<Longrightarrow> x \<in> set ms \<Longrightarrow> y \<in> set nodes \<Longrightarrow> y \<in> set ms \<longleftrightarrow> connected rels x y"
    for x ms y using c' by blast
  show "ms \<in> set comps \<Longrightarrow> ms' \<in> set comps \<Longrightarrow> x \<in> set ms \<Longrightarrow> x \<in> set ms' \<Longrightarrow> ms = ms'" for x ms ms'
    using c' unfolding distinct_concat_iff by blast
qed

lemma assigned_rows:
  assumes "pm_assignments m = sort_key assignment_key (concat (map (component_rows rt requested) comps))"
  shows "assigned m x p k \<longleftrightarrow> (\<exists>ms \<in> set comps. x \<in> set ms \<and> k = component_id rt ms
    \<and> p = (case explicit_partitions requested ms of [] \<Rightarrow> P_UNASSIGNED | p # _ \<Rightarrow> p))"
  unfolding assigned_def assms by (force simp: component_rows_def)

lemma rows_sources:
  assumes c: "component_lists rels nodes comps" and n: "distinct nodes" "sorted nodes"
  shows "map sa_source (sort_key assignment_key (concat (map (component_rows rt requested) comps))) = nodes"
proof (rule sorted_distinct_set_unique)
  let ?rows = "concat (map (component_rows rt requested) comps)"
  have src: "map sa_source ?rows = concat comps"
    by (induction comps) (simp_all add: component_rows_def comp_def)
  have "sorted (map assignment_key (sort_key assignment_key ?rows))" by simp
  moreover have "mono_on A fst" for A :: "(string \<times> string \<times> string) set"
    by (auto simp: mono_on_def less_eq_prod_def)
  ultimately have "sorted (map fst (map assignment_key (sort_key assignment_key ?rows)))"
    using sorted_map_mono by blast
  then show "sorted (map sa_source (sort_key assignment_key ?rows))"
    by (simp add: comp_def assignment_key_def)
  have "mset (map sa_source (sort_key assignment_key ?rows)) = mset (map sa_source ?rows)"
    by (simp only: mset_map mset_sort)
  then have "mset (map sa_source (sort_key assignment_key ?rows)) = mset (concat comps)"
    by (simp only: src)
  then have "distinct (map sa_source (sort_key assignment_key ?rows))
      \<and> set (map sa_source (sort_key assignment_key ?rows)) = set nodes"
    using c by (metis component_lists_def mset_eq_imp_distinct_iff mset_eq_setD)
  then show "distinct (map sa_source (sort_key assignment_key ?rows))"
    "set (map sa_source (sort_key assignment_key ?rows)) = set nodes" by blast+
qed (use n in auto)

text \<open>Joining identifiers with NUL is injective.\<close>


lemma nul_split:
  assumes "CHR 0x00 \<notin> set x" "CHR 0x00 \<notin> set y"
  shows "x @ CHR 0x00 # r = y @ CHR 0x00 # s \<longleftrightarrow> x = y \<and> r = s"
proof -
  have "takeWhile (\<lambda>c. c \<noteq> CHR 0x00) (z @ CHR 0x00 # t) = z" if "CHR 0x00 \<notin> set z" for z t
    using that by (induction z) auto
  with assms show ?thesis by (metis append_same_eq list.inject same_append_eq)
qed

lemma join_text_inject:
  assumes "\<forall>x \<in> set xs. CHR 0x00 \<notin> set x" "\<forall>y \<in> set ys. CHR 0x00 \<notin> set y" "xs \<noteq> []" "ys \<noteq> []"
    and "join_text [CHR 0x00] xs = join_text [CHR 0x00] ys"
  shows "xs = ys"
  using assms
proof (induction xs arbitrary: ys)
  case (Cons x xs)
  then obtain y ys' where ys: "ys = y # ys'" by (cases ys) auto
  show ?case
  proof (cases "xs = [] \<or> ys' = []")
    case True
    with Cons.prems ys show ?thesis by (cases xs; cases ys') (auto simp: append_eq_Cons_conv)
  next
    case False
    with Cons.prems(5) ys have "x @ CHR 0x00 # join_text [CHR 0x00] xs = y @ CHR 0x00 # join_text [CHR 0x00] ys'"
      by (simp add: join_text_Cons)
    then have "x = y" "join_text [CHR 0x00] xs = join_text [CHR 0x00] ys'"
      using nul_split Cons.prems(1,2) ys by auto
    with Cons.IH [of ys'] Cons.prems False ys show ?thesis by auto
  qed
qed simp

lemma identifier_nul_free: "is_identifier x \<Longrightarrow> CHR 0x00 \<notin> set x"
  by (auto simp: is_identifier_def is_ident_char_def is_alnum_def list_all_iff split: list.splits)

section \<open>Guarantees of the planner\<close>

text \<open>
  C14: \<open>assign\<close> always returns: whatever the relations, the disjoint-set walks end and no lookup
  fails, and it returns a manifest exactly if no two related sources are requested for different
  partitions; otherwise the result is a \<open>SplitConflict\<close>.
\<close>

theorem assign_returns:
  assumes "\<forall>x \<in> set (keys requested). is_identifier x"
  shows "\<exists>r. assign rt rels requested = Some r
    \<and> (if leak_free rels requested then \<exists>m. r = Inr m else \<exists>members labels. r = Inl (SplitConflict members labels))"
  by (rule assign_cases [OF assms, of rels rt], cases "leak_free rels requested") auto

lemma component_id_inject:
  assumes "inj_on (sha256 rt) (join_text [CHR 0x00] ` {ms. set ms \<subseteq> N})" "\<And>z. z \<in> N \<Longrightarrow> is_identifier z"
    and "ms \<noteq> [] \<and> set ms \<subseteq> N" "ns \<noteq> [] \<and> set ns \<subseteq> N" "component_id rt ms = component_id rt ns"
  shows "ms = ns"
proof -
  from assms(5) have "sha256 rt (join_text [CHR 0x00] ms) = sha256 rt (join_text [CHR 0x00] ns)"
    by (simp add: component_id_def)
  with assms(1,3,4) have "join_text [CHR 0x00] ms = join_text [CHR 0x00] ns" by (auto dest: inj_onD)
  moreover have "\<forall>z \<in> set ms. CHR 0x00 \<notin> set z" "\<forall>z \<in> set ns. CHR 0x00 \<notin> set z"
    using assms(2-4) identifier_nul_free by blast+
  ultimately show ?thesis using join_text_inject assms(3,4) by blast
qed

definition sample_relations :: "relation list" where
  "sample_relations =
     [\<lparr>rel_left = ''b'', rel_right = ''a'', rel_kind = K_fork, rel_proof = ''log''\<rparr>,
      \<lparr>rel_left = ''b'', rel_right = ''c'', rel_kind = K_same_request, rel_proof = ''log''\<rparr>,
      \<lparr>rel_left = ''c'', rel_right = ''d'', rel_kind = K_dependency, rel_proof = ''log''\<rparr>]"

definition plain_runtime :: runtime where
  "plain_runtime = \<lparr>sha256 = \<lambda>s. s, float_repr = \<lambda>_. ''0.0''\<rparr>"

theorem assign_returns_witness:
  "\<exists>r. assign plain_runtime sample_relations [(''a'', P_TRAIN), (''d'', P_LOCKED_TEST)] = Some r
     \<and> (if leak_free sample_relations [(''a'', P_TRAIN), (''d'', P_LOCKED_TEST)] then \<exists>m. r = Inr m
        else \<exists>members labels. r = Inl (SplitConflict members labels))"
  by (rule assign_returns) (simp add: is_identifier_def is_alnum_def)

text \<open>
  C15: a manifest keeps related sources together: every source of the plan has exactly one row;
  sources connected by closing relations get the same partition and the same component id; a
  requested source gets the partition requested for it, a component nobody requested is
  unassigned; and, where the digest separates the member lists, two sources share a component id
  only if they are connected.
\<close>

theorem manifest_follows_components:
  assumes "\<forall>x \<in> set (keys requested). is_identifier x" "list_all valid_relation rels"
    and "assign rt rels requested = Some (Inr m)"
    and "assigned m x p k" "assigned m y q l"
  shows "map sa_source (pm_assignments m) = source_nodes rels requested
    \<and> (connected rels x y \<longrightarrow> p = q \<and> k = l)
    \<and> (map_of requested x = Some r \<longrightarrow> p = r)
    \<and> ((\<forall>z. connected rels x z \<longrightarrow> map_of requested z = None) \<longrightarrow> p = P_UNASSIGNED)
    \<and> (inj_on (sha256 rt) (join_text [CHR 0x00] ` {ms. set ms \<subseteq> set (source_nodes rels requested)})
        \<and> k = l \<longrightarrow> connected rels x y)"
proof -
  let ?N = "source_nodes rels requested"
  obtain comps where c: "component_lists rels ?N comps"
    and rows: "pm_assignments m = sort_key assignment_key (concat (map (component_rows rt requested) comps))"
    and free: "leak_free rels requested"
    by (rule assign_cases [OF assms(1), of rels rt], cases "leak_free rels requested")
      (use assms(3) in auto)
  let ?part = "\<lambda>ms. case explicit_partitions requested ms of [] \<Rightarrow> P_UNASSIGNED | p # _ \<Rightarrow> p"
  obtain ms where ms: "ms \<in> set comps" "x \<in> set ms" "k = component_id rt ms" "p = ?part ms"
    using assms(4) assigned_rows [OF rows] by auto
  obtain ns where ns: "ns \<in> set comps" "y \<in> set ns" "l = component_id rt ns" "q = ?part ns"
    using assms(5) assigned_rows [OF rows] by auto
  note nodes = component_of(2) [OF c ms(1,2)] component_of(2) [OF c ns(1,2)]
  have same: "connected rels x y \<longleftrightarrow> ms = ns"
    using component_of(3) [OF c ms(1,2) nodes(2)] component_of(4) [OF c ms(1) ns(1) _ ns(2)] ns(2) by blast
  have len: "length (explicit_partitions requested ms) \<le> 1"
    using components_leak_free [OF c] free ms(1) by blast
  have req: "p = r" if "map_of requested x = Some r"
  proof -
    have "r \<in> set (explicit_partitions requested ms)" using that ms(2) by (auto simp: explicit_set)
    with len ms(4) show ?thesis by (cases "explicit_partitions requested ms") auto
  qed
  have none: "p = P_UNASSIGNED" if "\<forall>z. connected rels x z \<longrightarrow> map_of requested z = None"
  proof -
    have "map_of requested z = None" if "z \<in> set ms" for z
      using component_of(3) [OF c ms(1,2) component_of(2) [OF c ms(1) that]] that
        \<open>\<forall>z. connected rels x z \<longrightarrow> map_of requested z = None\<close> by blast
    then have "\<forall>u. u \<notin> set (explicit_partitions requested ms)" by (simp add: explicit_set)
    then have "explicit_partitions requested ms = []" by (cases "explicit_partitions requested ms") auto
    with ms(4) show ?thesis by simp
  qed
  have ident: "is_identifier z" if "z \<in> set ?N" for z
    using that assms(1,2) by (auto simp: source_nodes_def valid_relation_def relation_checks_def list_all_iff)
  have sub: "zs \<noteq> [] \<and> set zs \<subseteq> set ?N" if "zs \<in> set comps" for zs
    using component_of(2) [OF c that] c that by (auto simp: component_lists_def)
  note inj = component_id_inject [OF _ ident sub [OF ms(1)] sub [OF ns(1)]]
  show ?thesis
    using rows_sources [OF c source_nodes_sorted] rows same ms ns req none inj by auto
qed

definition sample_manifest :: partition_manifest where
  "sample_manifest =
     \<lparr>pm_assignments = concat (map (component_rows plain_runtime [(''a'', P_TRAIN), (''d'', P_LOCKED_TEST)])
        [[''a'', ''b'', ''c''], [''d'']]),
      pm_relations = sample_relations, pm_review_required = [sample_relations ! 2]\<rparr>"

lemma sample_assign:
  "assign plain_runtime sample_relations [(''a'', P_TRAIN), (''d'', P_LOCKED_TEST)] = Some (Inr sample_manifest)"
  by code_simp

theorem manifest_follows_components_witness:
  "map sa_source (pm_assignments sample_manifest)
     = source_nodes sample_relations [(''a'', P_TRAIN), (''d'', P_LOCKED_TEST)]"
proof -
  have ids: "\<forall>x \<in> set (keys [(''a'', P_TRAIN), (''d'', P_LOCKED_TEST)]). is_identifier x"
    "list_all valid_relation sample_relations"
    by code_simp+
  have rows: "assigned sample_manifest ''a'' P_TRAIN (component_id plain_runtime [''a'', ''b'', ''c''])"
    "assigned sample_manifest ''c'' P_TRAIN (component_id plain_runtime [''a'', ''b'', ''c''])"
    by code_simp+
  show ?thesis using manifest_follows_components [OF ids sample_assign rows] by blast
qed

text \<open>Sorting by an injective key forgets the order of the input.\<close>

lemma relation_kind_value_inject [simp]: "relation_kind_value a = relation_kind_value b \<longleftrightarrow> a = b"
  by (cases a; cases b) simp_all

lemma inj_relation_key: "inj relation_key"
  by (rule injI) (auto simp: relation_key_def)

lemma sort_key_set_eq:
  assumes "inj f" "distinct xs" "distinct ys" "set xs = set ys"
  shows "sort_key f xs = sort_key f ys"
proof (rule map_sorted_distinct_set_unique [of f])
  show "inj_on f (set (sort_key f xs) \<union> set (sort_key f ys))" using assms(1) by (auto intro: inj_on_subset)
  show "distinct (map f (sort_key f xs))" "distinct (map f (sort_key f ys))"
    using assms by (auto simp: distinct_map intro: inj_on_subset)
qed (use assms in auto)

text \<open>
  C16: identical inputs give identical manifests: the manifest, and the error, depend on the set of
  relations and on the requested partitions, not on the order in which either is supplied.
\<close>

theorem assign_order_independent:
  assumes "planner rels = Inr rels" "planner rels' = Inr rels'" "set rels = set rels'"
    and "map_of requested = map_of requested'"
  shows "assign rt rels requested = assign rt rels' requested'"
proof -
  have d: "distinct rels" "distinct rels'" using assms(1,2) by (auto simp: planner_def raise_if_def split: if_splits)
  have keys: "set (keys requested) = set (keys requested')"
    using arg_cong [OF assms(4), of dom] by (simp add: dom_map_of_conv_image_fst)
  then have "list_ex (\<lambda>x. \<not> is_identifier x) (keys requested) \<longleftrightarrow> list_ex (\<lambda>x. \<not> is_identifier x) (keys requested')"
    by (simp only: list_ex_iff)
  moreover have "source_nodes rels requested = source_nodes rels' requested'"
    unfolding source_nodes_def
    by (rule sorted_distinct_set_unique) (use keys assms(3) in auto)
  moreover have "sort_key relation_key rels = sort_key relation_key rels'"
    by (rule sort_key_set_eq [OF inj_relation_key d assms(3)])
  moreover have "sort_key relation_key (filter p rels) = sort_key relation_key (filter p rels')" for p
    by (rule sort_key_set_eq [OF inj_relation_key]) (use d assms(3) in auto)
  moreover have "explicit_partitions requested = explicit_partitions requested'"
    by (simp add: fun_eq_iff explicit_partitions_def assms(4))
  then have "assign_component rt requested = assign_component rt requested'"
    by (simp add: fun_eq_iff assign_component_def)
  ultimately show ?thesis by (simp only: assign_def)
qed

theorem assign_order_independent_witness:
  "assign plain_runtime sample_relations [(''a'', P_TRAIN), (''d'', P_LOCKED_TEST)]
     = assign plain_runtime (rev sample_relations) [(''d'', P_LOCKED_TEST), (''a'', P_TRAIN)]"
  by (rule assign_order_independent)
    (auto simp: planner_def sample_relations_def fun_eq_iff)

end
