(* ===== verification/ContractArtifacts.thy ===== *)
theory ContractArtifacts
  imports Contracts
begin

text \<open>
  The published artifact models of \<^verbatim>\<open>contracts/models.py\<close> and the operation requests: each pydantic
  class is a record (a subclass of \<open>ArtifactModel\<close> extends its record), its field constraints and
  its validator method together are \<open>valid_x\<close>. The lemmas at the end say what an accepted record
  guarantees to the services that consume it.
\<close>

section \<open>Common parts\<close>

datatype review_decision = Rev_approved | Rev_rejected | Rev_unresolved

record human_review =
  hr_human_identity :: string
  hr_subject_sha256 :: digest
  hr_decision :: review_decision
  hr_evidence :: "evidence_record list"
  hr_attestation :: artifact_ref

definition valid_human_review :: "human_review \<Rightarrow> bool" where
  "valid_human_review h \<longleftrightarrow> is_text (hr_human_identity h) \<and> is_digest (hr_subject_sha256 h)
     \<and> valid_evidence (hr_evidence h) \<and> valid_ref (hr_attestation h)"

record artifact_model =
  am_kind :: string
  am_schema_version :: int
  am_visibility :: visibility
  am_provenance :: provenance
  am_costs :: "cost_record list"

text \<open>The base fields of a published kind: its name, its schema version and its visibilities.\<close>

definition valid_model :: "string \<Rightarrow> visibility list \<Rightarrow> 'a artifact_model_scheme \<Rightarrow> bool" where
  "valid_model kind visibilities a \<longleftrightarrow> am_kind a = kind
     \<and> Some (am_schema_version a) = ARTIFACT_SCHEMA_VERSIONS kind \<and> am_visibility a \<in> set visibilities
     \<and> valid_provenance (am_provenance a) \<and> valid_costs (am_costs a)"

definition every_visibility :: "visibility list" where
  "every_visibility = [V_PUBLIC, V_AUTHORING, V_PRIVATE, V_TRAINING, V_EVALUATION, V_INTERNAL]"

abbreviation hidden :: "artifact_ref \<Rightarrow> bool" where
  "hidden r \<equiv> ref_visibility r \<in> {V_PRIVATE, V_EVALUATION}"

section \<open>Candidates and source pairs\<close>

datatype edit_history = Edits_available | Edits_unavailable | Edits_not_applicable

record source_snapshot =
  ss_url :: string
  ss_content :: artifact_ref
  ss_retrieved_at :: utc_datetime
  ss_published_at :: "utc_datetime option"
  ss_edited_at :: "utc_datetime option"
  ss_edit_history :: edit_history
  ss_media_type :: string
  ss_redirect_chain :: "string list option"

definition redirect_origin_checks :: "source_snapshot \<Rightarrow> checks" where
  "redirect_origin_checks s =
     [(case ss_redirect_chain s of None \<Rightarrow> False | Some [] \<Rightarrow> False | Some (u # us) \<Rightarrow> u \<noteq> ss_url s,
       ''known redirect chain must begin with the requested URL'')]"

definition valid_source_snapshot :: "source_snapshot \<Rightarrow> bool" where
  "valid_source_snapshot s \<longleftrightarrow> is_text (ss_url s) \<and> valid_ref (ss_content s) \<and> is_text (ss_media_type s)
     \<and> option_all (\<lambda>c. c \<noteq> [] \<and> list_all is_text c) (ss_redirect_chain s)
     \<and> passes (redirect_origin_checks s)"

datatype license_status = License_verified | License_unknown | License_ineligible

record license_record =
  lic_spdx_id :: "string option"
  lic_license_text :: "artifact_ref option"
  lic_status :: license_status
  lic_evidence :: "evidence_record list"

definition valid_license :: "license_record \<Rightarrow> bool" where
  "valid_license l \<longleftrightarrow> option_all is_text (lic_spdx_id l) \<and> option_all valid_ref (lic_license_text l)
     \<and> valid_evidence (lic_evidence l)"

datatype integration = Int_merge | Int_squash | Int_rebase | Int_linear | Int_unknown

record commit_relationship =
  cr_integration :: integration
  cr_target_before :: "string option"
  cr_integrated_after :: "string option"
  cr_implementation_commits :: "string list"
  cr_parents :: "string list"
  cr_evidence :: "evidence_record list"

definition valid_relationship :: "commit_relationship \<Rightarrow> bool" where
  "valid_relationship c \<longleftrightarrow> option_all is_revision (cr_target_before c)
     \<and> option_all is_revision (cr_integrated_after c) \<and> list_all is_revision (cr_implementation_commits c)
     \<and> list_all is_revision (cr_parents c) \<and> valid_evidence (cr_evidence c)"

record screening_decision =
  sd_disposition :: disposition
  sd_reason :: string
  sd_evidence :: "evidence_record list"

definition valid_screening :: "screening_decision \<Rightarrow> bool" where
  "valid_screening d \<longleftrightarrow> is_text (sd_reason d) \<and> valid_evidence (sd_evidence d)"

datatype provenance_label = L_historical_request | L_reconstructed_specification | L_existing_obligation

record candidate_record = artifact_model +
  cand_provenance_label :: provenance_label
  cand_repository_url :: string
  cand_repository_family :: string
  cand_request_lineage :: "string list"
  cand_partition :: partition
  cand_sources :: "source_snapshot list"
  cand_license :: license_record
  cand_commits :: commit_relationship
  cand_screening :: screening_decision

definition valid_candidate :: "candidate_record \<Rightarrow> bool" where
  "valid_candidate c \<longleftrightarrow> valid_model ''CandidateRecord'' [V_AUTHORING, V_EVALUATION, V_PRIVATE] c
     \<and> cand_provenance_label c \<noteq> L_existing_obligation \<and> is_text (cand_repository_url c)
     \<and> is_identifier (cand_repository_family c) \<and> cand_request_lineage c \<noteq> []
     \<and> list_all is_identifier (cand_request_lineage c) \<and> cand_sources c \<noteq> []
     \<and> list_all valid_source_snapshot (cand_sources c) \<and> valid_license (cand_license c)
     \<and> valid_relationship (cand_commits c) \<and> valid_screening (cand_screening c)"

datatype change_category = Cat_implementation | Cat_documentation | Cat_tests | Cat_dependency_build
  | Cat_unrelated | Cat_mixed

record changed_file =
  cf_path :: string
  cf_category :: change_category
  cf_rationale :: string

definition valid_changed_file :: "changed_file \<Rightarrow> bool" where
  "valid_changed_file f \<longleftrightarrow> is_text (cf_path f) \<and> is_text (cf_rationale f)"

record source_pair = artifact_model +
  pair_provenance_label :: provenance_label
  pair_candidate :: artifact_ref
  pair_baseline_commit :: string
  pair_reference_commit :: string
  pair_baseline :: artifact_ref
  pair_reference :: artifact_ref
  pair_relationship :: commit_relationship
  pair_changed_files :: "changed_file list"
  pair_admissible_cutoff :: utc_datetime
  pair_verification :: "evidence_record list"

definition references_match_checks :: "source_pair \<Rightarrow> checks" where
  "references_match_checks p = require_ref_checks (pair_candidate p) ''CandidateRecord'' @
     [(\<not> hidden (pair_reference p), ''reference implementation requires private or evaluation visibility''),
      (pair_baseline_commit p = pair_reference_commit p, ''B and H must differ'')]"

definition valid_source_pair :: "source_pair \<Rightarrow> bool" where
  "valid_source_pair p \<longleftrightarrow> valid_model ''SourcePair'' [V_PRIVATE, V_EVALUATION] p
     \<and> pair_provenance_label p \<noteq> L_existing_obligation \<and> valid_ref (pair_candidate p)
     \<and> is_revision (pair_baseline_commit p) \<and> is_revision (pair_reference_commit p)
     \<and> valid_ref (pair_baseline p) \<and> valid_ref (pair_reference p) \<and> valid_relationship (pair_relationship p)
     \<and> pair_changed_files p \<noteq> [] \<and> list_all valid_changed_file (pair_changed_files p)
     \<and> valid_evidence (pair_verification p) \<and> passes (references_match_checks p)"

section \<open>Requirements\<close>

record evidence_link =
  el_source :: artifact_ref
  el_locator :: string
  el_quote :: string
  el_provenance_label :: provenance_label

definition valid_links :: "evidence_link list \<Rightarrow> bool" where
  "valid_links ls \<longleftrightarrow> ls \<noteq> [] \<and>
     list_all (\<lambda>l. valid_ref (el_source l) \<and> is_text (el_locator l) \<and> is_text (el_quote l)) ls"

record requirement =
  rq_requirement_id :: string
  rq_statement :: string
  rq_mandatory :: bool
  rq_evidence :: "evidence_link list"
  rq_observable :: string

definition valid_requirement :: "requirement \<Rightarrow> bool" where
  "valid_requirement r \<longleftrightarrow> is_identifier (rq_requirement_id r) \<and> is_text (rq_statement r)
     \<and> valid_links (rq_evidence r) \<and> is_text (rq_observable r)"

record feature_file =
  ff_path :: string
  ff_requirement_ids :: "string list"
  ff_rationale :: string
  ff_evidence :: "evidence_link list"

definition valid_feature_file :: "feature_file \<Rightarrow> bool" where
  "valid_feature_file f \<longleftrightarrow> is_text (ff_path f) \<and> ff_requirement_ids f \<noteq> []
     \<and> list_all is_identifier (ff_requirement_ids f) \<and> is_text (ff_rationale f) \<and> valid_links (ff_evidence f)"

datatype ambiguity_disposition = Amb_clarified | Amb_excluded | Amb_unresolved

record ambiguity_decision =
  ad_question :: string
  ad_resolution :: "string option"
  ad_disposition :: ambiguity_disposition
  ad_evidence :: "evidence_link list"

definition valid_ambiguity :: "ambiguity_decision \<Rightarrow> bool" where
  "valid_ambiguity a \<longleftrightarrow> is_text (ad_question a) \<and> option_all is_text (ad_resolution a)
     \<and> valid_links (ad_evidence a)"

datatype dependency_policy = Dep_forbidden | Dep_pinned_allowlist

record allowed_changes =
  ac_source_roots :: "string list"
  ac_forbidden_paths :: "string list"
  ac_dependencies :: dependency_policy
  ac_dependency_artifacts :: "artifact_ref list"
  ac_additional_artifact_types :: "string list"

definition valid_allowed_changes :: "allowed_changes \<Rightarrow> bool" where
  "valid_allowed_changes a \<longleftrightarrow> ac_source_roots a \<noteq> [] \<and> list_all is_text (ac_source_roots a)
     \<and> list_all is_text (ac_forbidden_paths a) \<and> list_all valid_ref (ac_dependency_artifacts a)
     \<and> list_all is_text (ac_additional_artifact_types a)"

record requirement_contract = artifact_model +
  rc_visible_request :: string
  rc_capability :: string
  rc_entry_points :: "string list"
  rc_requirements :: "requirement list"
  rc_compatibility_obligations :: "requirement list"
  rc_feature_files :: "feature_file list"
  rc_ambiguities :: "ambiguity_decision list"
  rc_allowed_changes :: allowed_changes
  rc_public_checks :: "artifact_ref list"
  rc_episode_limits :: resource_limits
  rc_provenance_label :: provenance_label

abbreviation contract_ids :: "requirement_contract \<Rightarrow> string list" where
  "contract_ids c \<equiv> map rq_requirement_id (rc_requirements c @ rc_compatibility_obligations c)"

definition unique_requirements_checks :: "requirement_contract \<Rightarrow> checks" where
  "unique_requirements_checks c =
     unique_checks (contract_ids c) ''requirement IDs''
   @ unique_checks (map ff_path (rc_feature_files c)) ''feature file paths''
   @ concat (map (\<lambda>f. unique_checks (ff_requirement_ids f) ''feature file requirement IDs'' @
        [(\<not> set (ff_requirement_ids f) \<subseteq> set (contract_ids c), ''feature file cites an unknown requirement'')])
       (rc_feature_files c))
   @ [(\<not> list_ex rq_mandatory (rc_requirements c), ''contract must have a mandatory feature requirement'')]"

definition valid_contract :: "requirement_contract \<Rightarrow> bool" where
  "valid_contract c \<longleftrightarrow> valid_model ''RequirementContract'' every_visibility c
     \<and> is_text (rc_visible_request c) \<and> is_text (rc_capability c)
     \<and> rc_entry_points c \<noteq> [] \<and> list_all is_text (rc_entry_points c)
     \<and> rc_requirements c \<noteq> [] \<and> list_all valid_requirement (rc_requirements c)
     \<and> list_all valid_requirement (rc_compatibility_obligations c)
     \<and> rc_feature_files c \<noteq> [] \<and> int (length (rc_feature_files c)) \<le> 2000
     \<and> list_all valid_feature_file (rc_feature_files c) \<and> list_all valid_ambiguity (rc_ambiguities c)
     \<and> valid_allowed_changes (rc_allowed_changes c) \<and> list_all valid_ref (rc_public_checks c)
     \<and> valid_resource_limits (rc_episode_limits c) \<and> rc_provenance_label c \<noteq> L_existing_obligation
     \<and> passes (unique_requirements_checks c)"

section \<open>Environments\<close>

record command_spec =
  cmd_argv :: "string list"
  cmd_working_directory :: string
  cmd_timeout_seconds :: rat

definition valid_command :: "command_spec \<Rightarrow> bool" where
  "valid_command c \<longleftrightarrow> cmd_argv c \<noteq> [] \<and> list_all is_text (cmd_argv c) \<and> is_text (cmd_working_directory c)
     \<and> 0 < cmd_timeout_seconds c"

record dependency_pin =
  dp_name :: string
  dp_version :: string
  dp_artifact :: artifact_ref
  dp_sha256 :: digest

definition valid_pin :: "dependency_pin \<Rightarrow> bool" where
  "valid_pin p \<longleftrightarrow> is_text (dp_name p) \<and> is_text (dp_version p) \<and> valid_ref (dp_artifact p) \<and> is_digest (dp_sha256 p)"

text \<open>\<open>^.+@sha256:[0-9a-f]{64}$\<close>: a nonempty line, the marker and a digest.\<close>

definition is_image_digest :: "string \<Rightarrow> bool" where
  "is_image_digest s \<longleftrightarrow> length s > 72 \<and> is_digest (drop (length s - 64) s)
     \<and> take 8 (drop (length s - 72) s) = ''@sha256:'' \<and> CHR 0x0A \<notin> set (take (length s - 72) s)"

record service_recipe =
  sr_name :: string
  sr_image_digest :: string
  sr_readiness :: command_spec
  sr_reset :: command_spec
  sr_isolated_state :: string

definition valid_service :: "service_recipe \<Rightarrow> bool" where
  "valid_service s \<longleftrightarrow> is_identifier (sr_name s) \<and> is_image_digest (sr_image_digest s)
     \<and> valid_command (sr_readiness s) \<and> valid_command (sr_reset s) \<and> is_text (sr_isolated_state s)"

record neutral_repair =
  nr_description :: string
  nr_patch :: artifact_ref
  nr_neutrality_evidence :: "evidence_record list"

definition valid_repair :: "neutral_repair \<Rightarrow> bool" where
  "valid_repair r \<longleftrightarrow> is_text (nr_description r) \<and> valid_ref (nr_patch r) \<and> valid_evidence (nr_neutrality_evidence r)"

datatype network_policy = Net_none | Net_declared_local_services

record environment_recipe = artifact_model +
  env_image_digest :: string
  env_runtime_image :: artifact_ref
  env_interpreter_version :: string
  env_dependencies :: "dependency_pin list"
  env_setup :: "command_spec list"
  env_reset :: "command_spec list"
  env_services :: "service_recipe list"
  env_limits :: resource_limits
  env_neutral_repairs :: "neutral_repair list"
  env_locale :: string
  env_timezone :: string
  env_environment :: "(string \<times> string) list"
  env_randomness :: seed_policy
  env_network_policy :: network_policy
  env_baseline :: artifact_ref

definition valid_environment :: "environment_recipe \<Rightarrow> bool" where
  "valid_environment e \<longleftrightarrow> valid_model ''EnvironmentRecipe'' every_visibility e
     \<and> is_image_digest (env_image_digest e) \<and> valid_ref (env_runtime_image e)
     \<and> is_text (env_interpreter_version e) \<and> list_all valid_pin (env_dependencies e)
     \<and> env_setup e \<noteq> [] \<and> list_all valid_command (env_setup e)
     \<and> env_reset e \<noteq> [] \<and> list_all valid_command (env_reset e)
     \<and> list_all valid_service (env_services e) \<and> valid_resource_limits (env_limits e)
     \<and> list_all valid_repair (env_neutral_repairs e) \<and> is_text (env_locale e) \<and> is_text (env_timezone e)
     \<and> list_all (\<lambda>(name, value). is_identifier name) (env_environment e)
     \<and> valid_seed_policy (env_randomness e) \<and> valid_ref (env_baseline e)"

section \<open>Verifiers and tasks\<close>

record case_definition =
  cd_case_id :: string
  cd_requirement_ids :: "string list"
  cd_inputs :: artifact_ref
  cd_expected :: artifact_ref
  cd_mandatory :: bool

definition valid_case :: "case_definition \<Rightarrow> bool" where
  "valid_case c \<longleftrightarrow> is_identifier (cd_case_id c) \<and> cd_requirement_ids c \<noteq> []
     \<and> list_all is_identifier (cd_requirement_ids c) \<and> valid_ref (cd_inputs c) \<and> valid_ref (cd_expected c)"

record verifier_permissions =
  vp_controller_role :: actor_role
  vp_output_limit_bytes :: int
  vp_submission_policy :: allowed_changes

definition valid_permissions :: "verifier_permissions \<Rightarrow> bool" where
  "valid_permissions p \<longleftrightarrow> vp_controller_role p \<in> {R_CONTROLLER, R_EVALUATOR} \<and> 0 < vp_output_limit_bytes p
     \<and> valid_allowed_changes (vp_submission_policy p)"

record verifier_bundle = artifact_model +
  vb_contract :: artifact_ref
  vb_source_pair :: artifact_ref
  vb_validation :: artifact_ref
  vb_cases :: "case_definition list"
  vb_completion_manifest :: "string list"
  vb_public_examples :: "artifact_ref list"
  vb_permissions :: verifier_permissions

definition manifest_matches_checks :: "verifier_bundle \<Rightarrow> checks" where
  "manifest_matches_checks v =
     require_ref_checks (vb_contract v) ''RequirementContract''
   @ require_ref_checks (vb_source_pair v) ''SourcePair''
   @ unique_checks (map cd_case_id (vb_cases v)) ''case IDs''
   @ unique_checks (vb_completion_manifest v) ''completion IDs''
   @ [(set (vb_completion_manifest v) \<noteq> set (map cd_case_id (vb_cases v)),
       ''completion manifest must list every case exactly once'')]"

definition valid_verifier_bundle :: "verifier_bundle \<Rightarrow> bool" where
  "valid_verifier_bundle v \<longleftrightarrow> valid_model ''VerifierBundle'' [V_PRIVATE, V_EVALUATION] v
     \<and> list_all valid_ref ([vb_contract v, vb_source_pair v, vb_validation v] @ vb_public_examples v)
     \<and> vb_cases v \<noteq> [] \<and> list_all valid_case (vb_cases v) \<and> vb_completion_manifest v \<noteq> []
     \<and> list_all is_identifier (vb_completion_manifest v) \<and> valid_permissions (vb_permissions v)
     \<and> passes (manifest_matches_checks v)"

record solver_view =
  sv_instruction :: artifact_ref
  sv_workspace :: artifact_ref
  sv_public_checks :: "artifact_ref list"
  sv_runtime_manifest :: artifact_ref
  sv_inventory :: artifact_ref

abbreviation solver_refs :: "solver_view \<Rightarrow> artifact_ref list" where
  "solver_refs s \<equiv> [sv_instruction s, sv_workspace s, sv_runtime_manifest s, sv_inventory s] @ sv_public_checks s"

definition only_public_checks :: "solver_view \<Rightarrow> checks" where
  "only_public_checks s = [(list_ex (\<lambda>r. ref_visibility r \<noteq> V_PUBLIC) (solver_refs s),
     ''solver view requires public artifacts exclusively'')]"

definition valid_solver_view :: "solver_view \<Rightarrow> bool" where
  "valid_solver_view s \<longleftrightarrow> list_all valid_ref (solver_refs s) \<and> passes (only_public_checks s)"

record task_bundle = artifact_model +
  tb_state :: task_state
  tb_partition :: partition
  tb_repository_family :: string
  tb_request_lineage :: "string list"
  tb_source_pair :: artifact_ref
  tb_baseline :: artifact_ref
  tb_solver_view :: solver_view
  tb_contract :: artifact_ref
  tb_environment :: artifact_ref
  tb_adapter_version :: string
  tb_private_oracle :: artifact_ref
  tb_reference_solution :: artifact_ref
  tb_qualification :: "artifact_ref option"

definition task_references_checks :: "task_bundle \<Rightarrow> checks" where
  "task_references_checks t =
     concat (map (\<lambda>(r, k). require_ref_checks r k)
       [(tb_source_pair t, ''SourcePair''), (tb_contract t, ''RequirementContract''),
        (tb_environment t, ''EnvironmentRecipe''), (tb_private_oracle t, ''VerifierBundle'')])
   @ [(list_ex (\<lambda>r. \<not> hidden r) [tb_private_oracle t, tb_reference_solution t],
       ''oracle/reference requires private or evaluation visibility'')]
   @ (case tb_qualification t of None \<Rightarrow> [] | Some q \<Rightarrow> require_ref_checks q ''QualificationReport'')
   @ [(tb_state t \<in> {T_QUALIFIED, T_RELEASED, T_CALIBRATED} \<and> tb_qualification t = None,
       ''admitted states require qualification reference'')]"

definition valid_task_bundle :: "task_bundle \<Rightarrow> bool" where
  "valid_task_bundle t \<longleftrightarrow> valid_model ''TaskBundle'' [V_PRIVATE, V_EVALUATION] t
     \<and> is_identifier (tb_repository_family t) \<and> tb_request_lineage t \<noteq> []
     \<and> list_all is_identifier (tb_request_lineage t)
     \<and> list_all valid_ref [tb_source_pair t, tb_baseline t, tb_contract t, tb_environment t,
          tb_private_oracle t, tb_reference_solution t]
     \<and> option_all valid_ref (tb_qualification t) \<and> valid_solver_view (tb_solver_view t)
     \<and> is_text (tb_adapter_version t) \<and> passes (task_references_checks t)"

end
