(* ===== verification/ContractRuns.thy ===== *)
theory ContractRuns
  imports ContractArtifacts
begin

text \<open>
  The rest of \<^verbatim>\<open>contracts/models.py\<close>: qualification reports, rollouts, checkpoints, trials, evaluation
  reports and the operation requests, with what an accepted record guarantees: rewards only on
  graded valid outcomes, training data only with exact token traces, success only with evidence.
\<close>

section \<open>Qualification\<close>

record run_assessment =
  ra_name :: string
  ra_subject :: artifact_ref
  ra_disposition :: disposition
  ra_passed :: "bool option"
  ra_requirement_ids :: "string list"
  ra_reason :: string
  ra_evidence :: "evidence_record list"

definition valid_assessment :: "run_assessment \<Rightarrow> bool" where
  "valid_assessment a \<longleftrightarrow> is_identifier (ra_name a) \<and> valid_ref (ra_subject a)
     \<and> list_all is_identifier (ra_requirement_ids a) \<and> is_text (ra_reason a) \<and> valid_evidence (ra_evidence a)"

record qualification_report = artifact_model +
  qr_task :: artifact_ref
  qr_disposition :: disposition
  qr_baseline_health :: "run_assessment option"
  qr_baseline_absence :: "run_assessment option"
  qr_reference_run :: "run_assessment option"
  qr_rejection_reasons :: "string list"
  qr_policy_version :: string

definition present :: "'a option list \<Rightarrow> 'a list" where
  "present xs = map the (filter (\<lambda>x. x \<noteq> None) xs)"

definition successful_qualification_checks :: "qualification_report \<Rightarrow> checks" where
  "successful_qualification_checks r =
     (let gates = [qr_baseline_health r, qr_baseline_absence r, qr_reference_run r] in
      require_ref_checks (qr_task r) ''TaskBundle''
    @ (if qr_disposition r \<noteq> D_SUCCESS then []
       else [(list_ex (\<lambda>g. g = None) gates, ''successful qualification requires all gate records''),
             (list_ex (\<lambda>g. ra_disposition g \<noteq> D_SUCCESS \<or> ra_passed g \<noteq> Some True) (present gates),
              ''successful qualification cannot contain failed gates''),
             (list_ex (\<lambda>g. \<not> list_ex (\<lambda>e. ev_scope e = Scope_real_integration) (ra_evidence g)) (present gates),
              ''qualification gates require real integration evidence''),
             (qr_rejection_reasons r \<noteq> [], ''successful qualification cannot contain rejection reasons'')]))"

definition valid_qualification :: "qualification_report \<Rightarrow> bool" where
  "valid_qualification r \<longleftrightarrow> valid_model ''QualificationReport'' [V_PRIVATE, V_EVALUATION] r
     \<and> valid_ref (qr_task r) \<and> option_all valid_assessment (qr_baseline_health r)
     \<and> option_all valid_assessment (qr_baseline_absence r) \<and> option_all valid_assessment (qr_reference_run r)
     \<and> list_all is_text (qr_rejection_reasons r) \<and> is_text (qr_policy_version r)
     \<and> passes (successful_qualification_checks r)"

section \<open>Rollouts\<close>

record token_trace =
  tt_context_token_ids :: "int list"
  tt_sampled_token_ids :: "int list"
  tt_behavior_log_probabilities :: "rat list"
  tt_assistant_loss_mask :: "bool list"
  tt_policy_version :: string

definition aligned_checks :: "token_trace \<Rightarrow> checks" where
  "aligned_checks t =
     [(\<not> (length (tt_sampled_token_ids t) = length (tt_behavior_log_probabilities t)
          \<and> length (tt_behavior_log_probabilities t) = length (tt_assistant_loss_mask t)),
       ''token/log-probability/mask lengths differ''),
      (list_ex (\<lambda>p. p > 0) (tt_behavior_log_probabilities t), ''log probabilities must be <= 0'')]"

definition valid_token_trace :: "token_trace \<Rightarrow> bool" where
  "valid_token_trace t \<longleftrightarrow> list_all (\<lambda>i. 0 \<le> i) (tt_context_token_ids t) \<and> tt_sampled_token_ids t \<noteq> []
     \<and> list_all (\<lambda>i. 0 \<le> i) (tt_sampled_token_ids t) \<and> is_identifier (tt_policy_version t)
     \<and> passes (aligned_checks t)"

record episode_step =
  es_index :: int
  es_action :: artifact_ref
  es_observation :: artifact_ref
  es_token_trace :: "token_trace option"
  es_evidence :: "evidence_record list"

definition valid_step :: "episode_step \<Rightarrow> bool" where
  "valid_step s \<longleftrightarrow> 0 \<le> es_index s \<and> valid_ref (es_action s) \<and> valid_ref (es_observation s)
     \<and> option_all valid_token_trace (es_token_trace s) \<and> valid_evidence (es_evidence s)"

record rollout_record = artifact_model +
  ro_run_id :: string
  ro_task :: artifact_ref
  ro_policy :: policy_config
  ro_limits :: resource_limits
  ro_seeds :: seed_policy
  ro_steps :: "episode_step list"
  ro_submission :: "artifact_ref option"
  ro_stopping_reason :: stop_reason
  ro_disposition :: disposition
  ro_reward :: "int option"
  ro_grading_evidence :: "evidence_record list"
  ro_training_eligible :: bool

fun stop_disposition :: "stop_reason \<Rightarrow> disposition option" where
  "stop_disposition S_INVALID_TRAJECTORY = Some D_INVALID"
| "stop_disposition S_INFRASTRUCTURE_FAILURE = Some D_INFRASTRUCTURE"
| "stop_disposition _ = None"

definition honest_rollout_checks :: "rollout_record \<Rightarrow> checks" where
  "honest_rollout_checks r =
     require_ref_checks (ro_task r) ''TaskBundle''
   @ (case stop_disposition (ro_stopping_reason r) of None \<Rightarrow> []
      | Some expected \<Rightarrow>
          [(ro_disposition r \<noteq> expected, ''stop requires its disposition''),
           (ro_training_eligible r, ''invalid or infrastructure stop cannot be training eligible'')])
   @ [(ro_stopping_reason r = S_CANDIDATE_FAILURE \<and> ro_reward r \<notin> {None, Some 0},
       ''a measured terminal candidate failure requires zero reward''),
      (ro_reward r \<noteq> None \<and> ro_disposition r \<notin> {D_SUCCESS, D_REJECTED},
       ''only valid measured outcomes can carry reward''),
      (ro_reward r \<noteq> None \<and> ro_grading_evidence r = [], ''measured reward requires grading evidence''),
      (ro_disposition r \<in> {D_INFRASTRUCTURE, D_INVALID, D_BLOCKED} \<and> ro_reward r \<noteq> None,
       ''invalid measurement cannot carry reward''),
      (ro_training_eligible r \<and> (ro_reward r = None \<or> ro_steps r = []
          \<or> list_ex (\<lambda>s. es_token_trace s = None) (ro_steps r)),
       ''training requires measured reward and exact token traces''),
      (ro_training_eligible r \<and> mi_tokenizer_digest (pc_identity (ro_policy r)) = None,
       ''training requires an identified tokenizer''),
      (ro_training_eligible r \<and> list_ex (\<lambda>s. case es_token_trace s of None \<Rightarrow> True
          | Some t \<Rightarrow> tt_policy_version t \<noteq> pc_policy_version (ro_policy r)) (ro_steps r),
       ''token traces must use the episode behavior policy'')]"

definition valid_rollout :: "rollout_record \<Rightarrow> bool" where
  "valid_rollout r \<longleftrightarrow> valid_model ''RolloutRecord'' [V_TRAINING, V_EVALUATION, V_PRIVATE] r
     \<and> is_identifier (ro_run_id r) \<and> valid_ref (ro_task r) \<and> valid_policy_config (ro_policy r)
     \<and> valid_resource_limits (ro_limits r) \<and> valid_seed_policy (ro_seeds r) \<and> list_all valid_step (ro_steps r)
     \<and> option_all valid_ref (ro_submission r) \<and> option_all (\<lambda>n. 0 \<le> n \<and> n \<le> 1) (ro_reward r)
     \<and> list_all valid_evidence_record (ro_grading_evidence r) \<and> passes (honest_rollout_checks r)"

section \<open>Training and evaluation records\<close>

record training_checkpoint = artifact_model +
  ck_weights :: artifact_ref
  ck_optimizer_state :: artifact_ref
  ck_reference_checkpoint :: artifact_ref
  ck_data_position :: int
  ck_policy_version :: string
  ck_configuration :: training_config
  ck_consumed_tasks :: "artifact_ref list"
  ck_optimizer_steps :: int
  ck_update_evidence :: "evidence_record list"
  ck_reload_evidence :: "evidence_record list"

definition valid_checkpoint :: "training_checkpoint \<Rightarrow> bool" where
  "valid_checkpoint c \<longleftrightarrow> valid_model ''TrainingCheckpoint'' [V_TRAINING, V_PRIVATE] c
     \<and> list_all valid_ref [ck_weights c, ck_optimizer_state c, ck_reference_checkpoint c]
     \<and> 0 \<le> ck_data_position c \<and> is_identifier (ck_policy_version c) \<and> valid_training_config (ck_configuration c)
     \<and> ck_consumed_tasks c \<noteq> [] \<and> list_all valid_ref (ck_consumed_tasks c) \<and> 0 \<le> ck_optimizer_steps c
     \<and> valid_evidence (ck_update_evidence c) \<and> valid_evidence (ck_reload_evidence c)"

record trial_result =
  tr_trial_id :: string
  tr_task :: artifact_ref
  tr_repository_family :: string
  tr_arm :: arm_name
  tr_policy_seed :: int
  tr_case_seed :: int
  tr_rollout :: "artifact_ref option"
  tr_disposition :: disposition
  tr_resolved :: "bool option"
  tr_evidence :: "evidence_record list"

definition coherent_outcome_checks :: "trial_result \<Rightarrow> checks" where
  "coherent_outcome_checks t =
     require_ref_checks (tr_task t) ''TaskBundle''
   @ (case tr_rollout t of None \<Rightarrow> [] | Some r \<Rightarrow> require_ref_checks r ''RolloutRecord'')
   @ (if tr_disposition t \<in> {D_SUCCESS, D_REJECTED}
      then [(tr_resolved t = None \<or> tr_rollout t = None, ''measured trial requires resolved outcome and rollout''),
            (tr_disposition t = D_REJECTED \<and> tr_resolved t = Some True, ''rejected trial cannot be resolved'')]
      else [(tr_resolved t \<noteq> None, ''unmeasured or invalid trial must have null resolved outcome'')])"

definition valid_trial :: "trial_result \<Rightarrow> bool" where
  "valid_trial t \<longleftrightarrow> is_identifier (tr_trial_id t) \<and> valid_ref (tr_task t) \<and> is_identifier (tr_repository_family t)
     \<and> 0 \<le> tr_policy_seed t \<and> 0 \<le> tr_case_seed t \<and> option_all valid_ref (tr_rollout t)
     \<and> valid_evidence (tr_evidence t) \<and> passes (coherent_outcome_checks t)"

record metric_estimate =
  me_name :: string
  me_estimate :: "rat option"
  me_lower :: "rat option"
  me_upper :: "rat option"
  me_sample_size :: int
  me_method :: string
  me_limitations :: "string list"

definition bounds_checks :: "metric_estimate \<Rightarrow> checks" where
  "bounds_checks m =
     [(me_sample_size m = 0 \<and> list_ex (\<lambda>x. x \<noteq> None) [me_estimate m, me_lower m, me_upper m],
       ''zero samples cannot yield measured estimate''),
      (case (me_lower m, me_upper m) of (Some l, Some u) \<Rightarrow> l > u | _ \<Rightarrow> False,
       ''reversed uncertainty interval'')]"

definition valid_metric :: "metric_estimate \<Rightarrow> bool" where
  "valid_metric m \<longleftrightarrow> is_text (me_name m) \<and> 0 \<le> me_sample_size m \<and> is_text (me_method m)
     \<and> list_all is_text (me_limitations m) \<and> passes (bounds_checks m)"

datatype sampling_kind = Sampled_random | Sampled_targeted
datatype audit_verdict = Verdict_valid | Verdict_invalid | Verdict_unresolved

record audit_record =
  au_submission :: artifact_ref
  au_task :: artifact_ref
  au_verifier :: artifact_ref
  au_sampling_probability :: rat
  au_sampling_kind :: sampling_kind
  au_verdict :: audit_verdict
  au_human_review :: "human_review option"
  au_evidence :: "evidence_record list"

definition valid_audit_record :: "audit_record \<Rightarrow> bool" where
  "valid_audit_record a \<longleftrightarrow> list_all valid_ref [au_submission a, au_task a, au_verifier a]
     \<and> 0 < au_sampling_probability a \<and> au_sampling_probability a \<le> 1
     \<and> option_all valid_human_review (au_human_review a) \<and> valid_evidence (au_evidence a)"

record evaluation_report = artifact_model +
  er_configuration :: evaluation_config
  er_frozen_task_roster :: "artifact_ref list"
  er_trials :: "trial_result list"
  er_paired_metrics :: "metric_estimate list"
  er_audits :: "audit_record list"
  er_disposition :: disposition
  er_limitations :: "string list"

definition successful_evaluation_checks :: "evaluation_report \<Rightarrow> checks" where
  "successful_evaluation_checks r =
     (er_disposition r = D_SUCCESS
        \<and> (\<not> list_ex (\<lambda>t. tr_resolved t \<noteq> None) (er_trials r)
           \<or> \<not> list_ex (\<lambda>m. me_sample_size m > 0 \<and> me_estimate m \<noteq> None) (er_paired_metrics r)),
      ''evaluation success needs measured trials and measured metrics'')
     # unique_checks (map tr_trial_id (er_trials r)) ''trial IDs''"

definition valid_evaluation_report :: "evaluation_report \<Rightarrow> bool" where
  "valid_evaluation_report r \<longleftrightarrow> valid_model ''EvaluationReport'' [V_EVALUATION, V_PRIVATE] r
     \<and> valid_evaluation_config (er_configuration r) \<and> er_frozen_task_roster r \<noteq> []
     \<and> list_all valid_ref (er_frozen_task_roster r) \<and> list_all valid_trial (er_trials r)
     \<and> list_all valid_metric (er_paired_metrics r) \<and> list_all valid_audit_record (er_audits r)
     \<and> list_all is_text (er_limitations r) \<and> passes (successful_evaluation_checks r)"

section \<open>The registered kinds and the operation requests\<close>

datatype artifact =
    Candidate candidate_record | Source_pair source_pair | Contract requirement_contract
  | Environment environment_recipe | Verifier verifier_bundle | Task task_bundle
  | Qualification qualification_report | Rollout rollout_record | Checkpoint training_checkpoint
  | Report evaluation_report

fun artifact_base :: "artifact \<Rightarrow> artifact_model" where
  "artifact_base (Candidate x) = artifact_model.truncate x"
| "artifact_base (Source_pair x) = artifact_model.truncate x"
| "artifact_base (Contract x) = artifact_model.truncate x"
| "artifact_base (Environment x) = artifact_model.truncate x"
| "artifact_base (Verifier x) = artifact_model.truncate x"
| "artifact_base (Task x) = artifact_model.truncate x"
| "artifact_base (Qualification x) = artifact_model.truncate x"
| "artifact_base (Rollout x) = artifact_model.truncate x"
| "artifact_base (Checkpoint x) = artifact_model.truncate x"
| "artifact_base (Report x) = artifact_model.truncate x"

fun valid_artifact :: "artifact \<Rightarrow> bool" where
  "valid_artifact (Candidate x) = valid_candidate x"
| "valid_artifact (Source_pair x) = valid_source_pair x"
| "valid_artifact (Contract x) = valid_contract x"
| "valid_artifact (Environment x) = valid_environment x"
| "valid_artifact (Verifier x) = valid_verifier_bundle x"
| "valid_artifact (Task x) = valid_task_bundle x"
| "valid_artifact (Qualification x) = valid_qualification x"
| "valid_artifact (Rollout x) = valid_rollout x"
| "valid_artifact (Checkpoint x) = valid_checkpoint x"
| "valid_artifact (Report x) = valid_evaluation_report x"

datatype operation_request =
    ConstructRequest artifact_ref
  | QualifyRequest artifact_ref
  | ReleaseRequest artifact_ref
  | RunRequest artifact_ref policy_config resource_limits "int option"
  | GradeRequest artifact_ref artifact_ref int
  | AuditRequest "string list"
  | TrainRequest training_config
  | EvaluateRequest evaluation_config

fun valid_request :: "operation_request \<Rightarrow> bool" where
  "valid_request (ConstructRequest c) = (valid_ref c \<and> passes (require_ref_checks c ''CandidateRecord''))"
| "valid_request (QualifyRequest t) = (valid_ref t \<and> passes (require_ref_checks t ''TaskBundle''))"
| "valid_request (ReleaseRequest t) = (valid_ref t \<and> passes (require_ref_checks t ''TaskBundle''))"
| "valid_request (RunRequest t p l s) = (valid_ref t \<and> passes (require_ref_checks t ''TaskBundle'')
     \<and> valid_policy_config p \<and> valid_resource_limits l \<and> option_all (\<lambda>n. 0 \<le> n) s)"
| "valid_request (GradeRequest t sub s) = (valid_ref t \<and> passes (require_ref_checks t ''TaskBundle'')
     \<and> valid_ref sub \<and> 0 \<le> s)"
| "valid_request (AuditRequest ids) = (ids \<noteq> [] \<and> list_all is_identifier ids)"
| "valid_request (TrainRequest c) = valid_training_config c"
| "valid_request (EvaluateRequest c) = valid_evaluation_config c"

section \<open>What an accepted record guarantees\<close>

lemma rollout_reward_facts:
  assumes "valid_rollout r" "ro_reward r = Some n"
  shows "n \<in> {0, 1}" "ro_disposition r \<in> {D_SUCCESS, D_REJECTED}" "ro_grading_evidence r \<noteq> []"
    "ro_stopping_reason r = S_CANDIDATE_FAILURE \<longrightarrow> n = 0"
    "ro_stopping_reason r \<notin> {S_INVALID_TRAJECTORY, S_INFRASTRUCTURE_FAILURE}"
  using assms by (auto simp: valid_rollout_def honest_rollout_checks_def split: option.splits)

lemma rollout_training_facts:
  assumes "valid_rollout r" "ro_training_eligible r"
  shows "ro_reward r \<noteq> None" "ro_steps r \<noteq> []"
    "\<forall>s \<in> set (ro_steps r). \<exists>t. es_token_trace s = Some t \<and> tt_policy_version t = pc_policy_version (ro_policy r)
       \<and> length (tt_sampled_token_ids t) = length (tt_behavior_log_probabilities t)
       \<and> length (tt_sampled_token_ids t) = length (tt_assistant_loss_mask t)"
proof -
  have checks: "passes (honest_rollout_checks r)" and steps: "list_all valid_step (ro_steps r)"
    using assms(1) by (simp_all add: valid_rollout_def)
  then show "ro_reward r \<noteq> None" "ro_steps r \<noteq> []" using assms(2) by (auto simp: honest_rollout_checks_def)
  show "\<forall>s \<in> set (ro_steps r). \<exists>t. es_token_trace s = Some t \<and> tt_policy_version t = pc_policy_version (ro_policy r)
       \<and> length (tt_sampled_token_ids t) = length (tt_behavior_log_probabilities t)
       \<and> length (tt_sampled_token_ids t) = length (tt_assistant_loss_mask t)"
  proof
    fix s assume s: "s \<in> set (ro_steps r)"
    with checks assms(2) obtain t where t: "es_token_trace s = Some t" "tt_policy_version t = pc_policy_version (ro_policy r)"
      by (cases "es_token_trace s") (auto simp: honest_rollout_checks_def list_ex_iff)
    from steps s t have "passes (aligned_checks t)"
      by (auto simp: list_all_iff valid_step_def valid_token_trace_def)
    with t show "\<exists>t. es_token_trace s = Some t \<and> tt_policy_version t = pc_policy_version (ro_policy r)
       \<and> length (tt_sampled_token_ids t) = length (tt_behavior_log_probabilities t)
       \<and> length (tt_sampled_token_ids t) = length (tt_assistant_loss_mask t)"
      by (simp add: aligned_checks_def)
  qed
qed

end
