(* ===== verification/EvaluationStudy.thy ===== *)
theory EvaluationStudy
  imports SplitClosure ContractRuns
begin

text \<open>
  \<^verbatim>\<open>evaluation/models.py\<close> and \<^verbatim>\<open>evaluation/freeze.py\<close>: the frozen roster of sources, the preregistered
  study and the two validators that admit them. \<open>validate_lineage_freeze\<close> runs the split planner on
  the recorded relations and on the relations implied by equal repository families and overlapping
  request lineages; \<open>validate_preregistration\<close> requires the complete Cartesian product of trials.
\<close>

section \<open>Study records\<close>

record source_assignment =
  src_source_id :: string
  src_task :: artifact_ref
  src_repository_family :: string
  src_request_lineage :: "string list"
  src_partition :: partition
  src_evidence :: artifact_ref

definition source_kinds_checks :: "source_assignment \<Rightarrow> checks" where
  "source_kinds_checks s =
     [(ref_kind (src_task s) \<noteq> ''TaskBundle'', ''source task must reference TaskBundle'')]"

definition valid_source_assignment :: "source_assignment \<Rightarrow> bool" where
  "valid_source_assignment s \<longleftrightarrow> is_identifier (src_source_id s) \<and> valid_ref (src_task s)
     \<and> is_identifier (src_repository_family s) \<and> src_request_lineage s \<noteq> []
     \<and> list_all is_identifier (src_request_lineage s) \<and> valid_ref (src_evidence s)
     \<and> passes (source_kinds_checks s)"

record lineage_relation =
  lr_left :: string
  lr_right :: string
  lr_kind :: relation_kind
  lr_evidence :: artifact_ref

definition distinct_endpoints_checks :: "lineage_relation \<Rightarrow> checks" where
  "distinct_endpoints_checks r = [(lr_left r = lr_right r, ''lineage relation endpoints must differ'')]"

definition valid_lineage_relation :: "lineage_relation \<Rightarrow> bool" where
  "valid_lineage_relation r \<longleftrightarrow> is_identifier (lr_left r) \<and> is_identifier (lr_right r)
     \<and> valid_ref (lr_evidence r) \<and> passes (distinct_endpoints_checks r)"

record frozen_roster =
  fr_locked_tasks :: "artifact_ref list"
  fr_sources :: "source_assignment list"
  fr_relations :: "lineage_relation list"
  fr_test_source_frame :: artifact_ref
  fr_exclusions :: artifact_ref
  fr_created_at :: utc_datetime

definition roster_uniqueness_checks :: "frozen_roster \<Rightarrow> checks" where
  "roster_uniqueness_checks r =
     [(list_ex (\<lambda>t. ref_kind t \<noteq> ''TaskBundle'') (fr_locked_tasks r),
       ''locked tasks must reference TaskBundle''),
      (\<not> distinct (map src_source_id (fr_sources r)), ''duplicate roster source ID''),
      (\<not> distinct (map (ref_sha256 \<circ> src_task) (fr_sources r)), ''duplicate roster task'')]"

definition valid_roster :: "frozen_roster \<Rightarrow> bool" where
  "valid_roster r \<longleftrightarrow> fr_locked_tasks r \<noteq> [] \<and> list_all valid_ref (fr_locked_tasks r)
     \<and> fr_sources r \<noteq> [] \<and> list_all valid_source_assignment (fr_sources r)
     \<and> list_all valid_lineage_relation (fr_relations r) \<and> valid_ref (fr_test_source_frame r)
     \<and> valid_ref (fr_exclusions r) \<and> passes (roster_uniqueness_checks r)"

record budget_limit =
  bl_max_updates :: int
  bl_max_rollouts :: int
  bl_max_assistant_tokens :: int
  bl_gpu_seconds :: rat
  bl_usd :: "rat option"

definition valid_budget :: "budget_limit \<Rightarrow> bool" where
  "valid_budget b \<longleftrightarrow> 0 \<le> bl_max_updates b \<and> 0 \<le> bl_max_rollouts b
     \<and> 0 \<le> bl_max_assistant_tokens b \<and> 0 \<le> bl_gpu_seconds b \<and> nonneg_option (bl_usd b)"

datatype arm_method = Method_starting | Method_factory_rl

record arm_protocol =
  ap_arm :: arm_name
  ap_method :: arm_method
  ap_policy :: policy_config
  ap_checkpoint :: artifact_ref
  ap_training_config :: "artifact_ref option"
  ap_initial_checkpoint :: artifact_ref
  ap_tools :: artifact_ref
  ap_action_format :: string
  ap_optimizer_family :: string
  ap_harness_version :: string
  ap_training_sources :: "artifact_ref list"
  ap_training_budget :: "budget_limit option"
  ap_development_budget :: budget_limit

definition valid_arm_protocol :: "arm_protocol \<Rightarrow> bool" where
  "valid_arm_protocol a \<longleftrightarrow> valid_policy_config (ap_policy a) \<and> valid_ref (ap_checkpoint a)
     \<and> option_all valid_ref (ap_training_config a) \<and> valid_ref (ap_initial_checkpoint a)
     \<and> valid_ref (ap_tools a) \<and> is_identifier (ap_action_format a)
     \<and> is_identifier (ap_optimizer_family a) \<and> is_text (ap_harness_version a)
     \<and> list_all valid_ref (ap_training_sources a) \<and> option_all valid_budget (ap_training_budget a)
     \<and> valid_budget (ap_development_budget a)"

record trial_assignment =
  ta_trial_id :: string
  ta_task :: artifact_ref
  ta_arm :: arm_name
  ta_policy_seed :: int
  ta_case_seed :: int
  ta_episode_index :: int

definition task_kind_checks :: "trial_assignment \<Rightarrow> checks" where
  "task_kind_checks t = [(ref_kind (ta_task t) \<noteq> ''TaskBundle'', ''trial task must reference TaskBundle'')]"

definition valid_trial_assignment :: "trial_assignment \<Rightarrow> bool" where
  "valid_trial_assignment t \<longleftrightarrow> is_identifier (ta_trial_id t) \<and> valid_ref (ta_task t)
     \<and> 0 \<le> ta_policy_seed t \<and> 0 \<le> ta_case_seed t \<and> ta_case_seed t \<le> 2 ^ 63 - 1
     \<and> 0 \<le> ta_episode_index t \<and> passes (task_kind_checks t)"

record preregistration =
  pr_arms :: "arm_protocol list"
  pr_trials :: "trial_assignment list"
  pr_limits :: resource_limits
  pr_seeds :: seed_policy
  pr_metric :: metric_name
  pr_episodes_per_trial :: int
  pr_harness_version :: string
  pr_checkpoint_selection_rule :: string
  pr_invalid_trial_rule :: string
  pr_locked_test_access_rule :: string
  pr_comparisons :: "(arm_name \<times> arm_name) list"
  pr_created_at :: utc_datetime

definition basic_uniqueness_checks :: "preregistration \<Rightarrow> checks" where
  "basic_uniqueness_checks p =
     [(card (set (map ap_arm (pr_arms p))) \<noteq> length (pr_arms p), ''duplicate preregistered arm''),
      (card (set (map ta_trial_id (pr_trials p))) \<noteq> length (pr_trials p), ''duplicate preregistered trial ID''),
      (pr_metric p = Metric_pass_at_1 \<and> pr_episodes_per_trial p \<noteq> 1, ''pass_at_1 permits exactly one episode'')]"

definition valid_preregistration :: "preregistration \<Rightarrow> bool" where
  "valid_preregistration p \<longleftrightarrow> pr_arms p \<noteq> [] \<and> list_all valid_arm_protocol (pr_arms p)
     \<and> pr_trials p \<noteq> [] \<and> list_all valid_trial_assignment (pr_trials p)
     \<and> valid_resource_limits (pr_limits p) \<and> valid_seed_policy (pr_seeds p)
     \<and> 0 < pr_episodes_per_trial p
     \<and> list_all is_text [pr_harness_version p, pr_checkpoint_selection_rule p, pr_invalid_trial_rule p,
         pr_locked_test_access_rule p]
     \<and> pr_comparisons p \<noteq> [] \<and> passes (basic_uniqueness_checks p)"

lemmas [valid_defs] =
  valid_source_assignment_def valid_lineage_relation_def valid_roster_def valid_budget_def
  valid_arm_protocol_def valid_trial_assignment_def valid_preregistration_def

section \<open>Freezing the lineage\<close>

datatype study_error =
    FrozenStudyError string
  | LineageLeakage "string list" "string list"
  | PlannerError split_error

definition study_key :: "artifact_ref \<Rightarrow> digest \<times> int \<times> string" where
  "study_key r = (ref_sha256 r, ref_schema_version r, ref_kind r)"

text \<open>\<open>int(digest[:15], 16)\<close>\<close>

definition hex_value :: "string \<Rightarrow> int" where
  "hex_value s = foldl (\<lambda>n c. 16 * n + int (length (takeWhile (\<lambda>d. d \<noteq> c) ''0123456789abcdef''))) 0 s"

definition episode_sampling_seed :: "runtime \<Rightarrow> preregistration \<Rightarrow> trial_assignment \<Rightarrow> int" where
  "episode_sampling_seed rt p a =
     (if pr_metric p = Metric_pass_at_1 then ta_policy_seed a
      else case study_key (ta_task a) of (digest, version, kind) \<Rightarrow>
        hex_value (take 15 (sha256 rt (canonical_json rt (JArr
          [JStr ''m8-best-of-k-episode-seed-v1'', JStr (sp_algorithm (pr_seeds p)), JInt (ta_policy_seed a),
           JArr [JStr digest, JInt version, JStr kind], JInt (ta_episode_index a)])))))"

text \<open>\<open>Relation(...)\<close> runs \<open>__post_init__\<close>.\<close>

definition new_relation :: "string \<Rightarrow> string \<Rightarrow> relation_kind \<Rightarrow> string \<Rightarrow> study_error + relation" where
  "new_relation left right kind proof =
     (let r = \<lparr>rel_left = left, rel_right = right, rel_kind = kind, rel_proof = proof\<rparr> in
      case first_error (relation_checks r) of
        None \<Rightarrow> Inr r
      | Some e \<Rightarrow> Inl (PlannerError (SplitValueError e)))"

definition pair_relations ::
  "source_assignment \<Rightarrow> source_assignment \<Rightarrow> relation list \<Rightarrow> study_error + relation list" where
  "pair_relations left right relations =
     bind_result
       (if src_repository_family left = src_repository_family right
        then bind_result (new_relation (src_source_id left) (src_source_id right) K_monorepo
               ''roster:repository_family'') (\<lambda>r. Inr (relations @ [r]))
        else Inr relations) (\<lambda>relations.
     if list_ex (\<lambda>x. x \<in> set (src_request_lineage right)) (src_request_lineage left)
     then bind_result (new_relation (src_source_id left) (src_source_id right) K_same_request
            ''roster:request_lineage'') (\<lambda>r. Inr (relations @ [r]))
     else Inr relations)"

fun roster_relations :: "source_assignment list \<Rightarrow> relation list \<Rightarrow> study_error + relation list" where
  "roster_relations [] relations = Inr relations"
| "roster_relations (left # rest) relations =
     bind_result (fold_result (\<lambda>relations right. pair_relations left right relations) relations rest)
       (roster_relations rest)"

definition freeze_relations :: "frozen_roster \<Rightarrow> study_error + relation list" where
  "freeze_relations roster =
     bind_result (map_result (\<lambda>item. new_relation (lr_left item) (lr_right item) (lr_kind item)
         (ref_sha256 (lr_evidence item))) (fr_relations roster))
       (roster_relations (fr_sources roster))"

definition locked_keys :: "frozen_roster \<Rightarrow> (digest \<times> int \<times> string) set" where
  "locked_keys roster = set (map (\<lambda>item. study_key (src_task item))
     (filter (\<lambda>item. src_partition item = P_LOCKED_TEST) (fr_sources roster)))"

definition check_locked :: "frozen_roster \<Rightarrow> study_error + frozen_roster" where
  "check_locked roster =
     (let actual = set (map study_key (fr_locked_tasks roster)) in
      raise_if (actual \<noteq> locked_keys roster \<or> card actual \<noteq> length (fr_locked_tasks roster))
        (FrozenStudyError ''locked task list must exactly match locked-test source assignments'')
        (Inr roster))"

definition requested_partitions :: "frozen_roster \<Rightarrow> partition dict" where
  "requested_partitions roster =
     map (\<lambda>(source_id, item). (source_id, src_partition item)) (dict_of src_source_id (fr_sources roster))"

definition validate_lineage_freeze ::
  "runtime \<Rightarrow> frozen_roster \<Rightarrow> (study_error + frozen_roster) option" where
  "validate_lineage_freeze rt roster =
     (let source_ids = map src_source_id (fr_sources roster) in
      if list_ex (\<lambda>r. lr_left r \<notin> set source_ids \<or> lr_right r \<notin> set source_ids) (fr_relations roster)
      then Some (Inl (FrozenStudyError ''lineage relation references a source outside the frozen roster''))
      else case freeze_relations roster of
        Inl e \<Rightarrow> Some (Inl e)
      | Inr relations \<Rightarrow>
          (case planner (sort_key relation_key (remdups relations)) of
             Inl e \<Rightarrow> Some (Inl (PlannerError e))
           | Inr rels \<Rightarrow>
               (case assign rt rels (requested_partitions roster) of
                  None \<Rightarrow> None
                | Some (Inl (SplitConflict members labels)) \<Rightarrow> Some (Inl (LineageLeakage members labels))
                | Some (Inl e) \<Rightarrow> Some (Inl (PlannerError e))
                | Some (Inr manifest) \<Rightarrow> Some (check_locked roster))))"

section \<open>Preregistration\<close>

text \<open>\<open>len({getattr(protocol, field) for protocol in protocols.values()}) == 1\<close>\<close>

definition one_value :: "'a list \<Rightarrow> bool" where
  "one_value xs \<longleftrightarrow> card (set xs) = 1"

definition expected_methods :: "arm_name \<Rightarrow> arm_method" where
  "expected_methods arm = (case arm of Arm_base \<Rightarrow> Method_starting | Arm_feature_grpo \<Rightarrow> Method_factory_rl)"

type_synonym trial_key = "(digest \<times> int \<times> string) \<times> arm_name \<times> int \<times> int"
type_synonym cell_key = "(digest \<times> int \<times> string) \<times> int \<times> int"

definition expected_trials :: "frozen_roster \<Rightarrow> preregistration \<Rightarrow> arm_name list \<Rightarrow> trial_key list" where
  "expected_trials roster p arms =
     [(study_key task, arm, seed, int episode).
        task \<leftarrow> fr_locked_tasks roster, arm \<leftarrow> arms, seed \<leftarrow> sp_seeds (pr_seeds p),
        episode \<leftarrow> [0 ..< nat (pr_episodes_per_trial p)]]"

definition trial_key :: "trial_assignment \<Rightarrow> trial_key" where
  "trial_key t = (study_key (ta_task t), ta_arm t, ta_policy_seed t, ta_episode_index t)"

definition cell_key :: "trial_assignment \<Rightarrow> cell_key" where
  "cell_key t = (study_key (ta_task t), ta_policy_seed t, ta_episode_index t)"

definition sampling_seeds :: "runtime \<Rightarrow> preregistration \<Rightarrow> (cell_key \<times> int) list" where
  "sampling_seeds rt p =
     map (\<lambda>(key, trial). (key, episode_sampling_seed rt p trial)) (dict_of cell_key (pr_trials p))"

definition arm_checks :: "(arm_name \<times> arm_protocol) list \<Rightarrow> (arm_name \<times> evaluation_arm) list \<Rightarrow> checks" where
  "arm_checks protocols configured =
     [(set (keys protocols) \<noteq> {Arm_base, Arm_feature_grpo} \<or> set (keys configured) \<noteq> set (keys protocols),
       ''evaluation requires base and feature-env GRPO''),
      (list_ex (\<lambda>arm. option_all (\<lambda>p. ap_method p \<noteq> expected_methods arm) (map_of protocols arm))
         [Arm_base, Arm_feature_grpo],
       ''arm method differs from the frozen study''),
      (list_ex (\<lambda>(name, arm). option_all (\<lambda>p. ea_policy arm \<noteq> ap_policy p \<or> ea_checkpoint arm \<noteq> ap_checkpoint p
           \<or> ea_training_config arm \<noteq> ap_training_config p) (map_of protocols name)) configured,
       ''configured arm differs from its preregistered protocol'')]"

definition protocol_checks :: "arm_protocol \<Rightarrow> arm_protocol \<Rightarrow> arm_protocol list \<Rightarrow> checks" where
  "protocol_checks base grpo protocols =
     [(list_ex (\<lambda>p. ap_initial_checkpoint p \<noteq> ap_initial_checkpoint base) protocols,
       ''all arms must share the same initial checkpoint''),
      (ap_checkpoint base \<noteq> ap_initial_checkpoint base \<or> ap_training_config base \<noteq> None
         \<or> ap_training_budget base \<noteq> None,
       ''base arm must be the untrained starting checkpoint''),
      (ap_training_config grpo = None \<or> ap_training_budget grpo = None,
       ''feature-env GRPO requires a frozen training configuration and budget''),
      (\<not> one_value (map ap_tools protocols) \<or> \<not> one_value (map ap_action_format protocols)
         \<or> \<not> one_value (map ap_optimizer_family protocols) \<or> \<not> one_value (map ap_harness_version protocols)
         \<or> \<not> one_value (map ap_development_budget protocols),
       ''all arms must share tools, actions, optimizer, harness, and development budget'')]"

definition locked_value_checks :: "preregistration \<Rightarrow> evaluation_config \<Rightarrow> checks" where
  "locked_value_checks p config =
     [(pr_limits p \<noteq> ec_limits config, ''configured resource limits differs from preregistration''),
      (pr_seeds p \<noteq> ec_seeds config, ''configured seed policy differs from preregistration''),
      (pr_metric p \<noteq> ec_metric config, ''configured metric differs from preregistration''),
      (pr_episodes_per_trial p \<noteq> ec_episodes_per_trial config, ''configured episode count differs from preregistration''),
      (pr_harness_version p \<noteq> ec_harness_version config, ''configured harness version differs from preregistration''),
      (pr_checkpoint_selection_rule p \<noteq> ec_checkpoint_selection_rule config,
       ''configured checkpoint rule differs from preregistration''),
      (pr_invalid_trial_rule p \<noteq> ec_invalid_trial_rule config,
       ''configured invalid-trial rule differs from preregistration'')]"

definition trial_checks :: "runtime \<Rightarrow> frozen_roster \<Rightarrow> preregistration \<Rightarrow> arm_name list \<Rightarrow> checks" where
  "trial_checks rt roster p arms =
     (let actual = set (map trial_key (pr_trials p)) in
     [(actual \<noteq> set (expected_trials roster p arms) \<or> card actual \<noteq> length (pr_trials p),
       ''assigned trial roster is not the complete frozen Cartesian product''),
      (pr_metric p = Metric_best_of_k \<and> \<not> distinct (dict_values (sampling_seeds rt p)),
       ''best-of-k episode sampling seed collision''),
      (list_ex (\<lambda>values. card (set values) \<noteq> 1)
         (dict_values (group_by cell_key ta_case_seed (pr_trials p))),
       ''paired case seed must be identical across arms''),
      (list_ex (\<lambda>(left, right). left = right \<or> left \<notin> set arms \<or> right \<notin> set arms) (pr_comparisons p),
       ''comparison references invalid arms'')])"

definition frozen_checks :: "checks \<Rightarrow> study_error + unit" where
  "frozen_checks cs = (case first_error cs of None \<Rightarrow> Inr () | Some e \<Rightarrow> Inl (FrozenStudyError e))"

definition check_study ::
  "runtime \<Rightarrow> frozen_roster \<Rightarrow> preregistration \<Rightarrow> evaluation_config \<Rightarrow> study_error + preregistration" where
  "check_study rt roster p config =
     bind_result (frozen_checks
       [(ec_partition config \<noteq> P_LOCKED_TEST, ''frozen evaluation must use the locked-test partition''),
        (map study_key (ec_tasks config) \<noteq> map study_key (fr_locked_tasks roster),
         ''evaluation tasks differ from the frozen roster'')]) (\<lambda>_.
     let protocols = dict_of ap_arm (pr_arms p); configured = dict_of ea_arm (ec_arms config) in
     bind_result (frozen_checks (arm_checks protocols configured)) (\<lambda>_.
     case (map_of protocols Arm_base, map_of protocols Arm_feature_grpo) of
       (Some base, Some grpo) \<Rightarrow>
         bind_result (frozen_checks (protocol_checks base grpo (dict_values protocols)
             @ locked_value_checks p config @ trial_checks rt roster p (keys protocols)))
           (\<lambda>_. Inr p)
     | _ \<Rightarrow> Inl (PlannerError (SplitKeyError ''base''))))"

definition validate_preregistration ::
  "runtime \<Rightarrow> frozen_roster \<Rightarrow> preregistration \<Rightarrow> evaluation_config
     \<Rightarrow> (study_error + preregistration) option" where
  "validate_preregistration rt roster p config =
     (case validate_lineage_freeze rt roster of
        None \<Rightarrow> None
      | Some (Inl e) \<Rightarrow> Some (Inl e)
      | Some (Inr _) \<Rightarrow> Some (check_study rt roster p config))"

section \<open>The lineage closure\<close>

text \<open>
  Two sources are directly related if a recorded relation other than a dependency joins them, or if
  they share their repository family or a request lineage.
\<close>

definition overlapping :: "source_assignment \<Rightarrow> source_assignment \<Rightarrow> bool" where
  "overlapping a b \<longleftrightarrow> src_repository_family a = src_repository_family b
     \<or> list_ex (\<lambda>x. x \<in> set (src_request_lineage b)) (src_request_lineage a)"

inductive related_step :: "frozen_roster \<Rightarrow> string \<Rightarrow> string \<Rightarrow> bool" for roster where
  recorded: "r \<in> set (fr_relations roster) \<Longrightarrow> lr_kind r \<noteq> K_dependency \<Longrightarrow>
    related_step roster (lr_left r) (lr_right r)"
| recorded_back: "r \<in> set (fr_relations roster) \<Longrightarrow> lr_kind r \<noteq> K_dependency \<Longrightarrow>
    related_step roster (lr_right r) (lr_left r)"
| implied: "a \<in> set (fr_sources roster) \<Longrightarrow> b \<in> set (fr_sources roster) \<Longrightarrow> overlapping a b \<Longrightarrow>
    related_step roster (src_source_id a) (src_source_id b)"

definition related :: "frozen_roster \<Rightarrow> string \<Rightarrow> string \<Rightarrow> bool" where
  "related roster = (related_step roster)\<^sup>*\<^sup>*"

definition recorded_relation :: "lineage_relation \<Rightarrow> relation" where
  "recorded_relation item = \<lparr>rel_left = lr_left item, rel_right = lr_right item, rel_kind = lr_kind item,
     rel_proof = ref_sha256 (lr_evidence item)\<rparr>"

definition implied_relations :: "source_assignment \<Rightarrow> source_assignment \<Rightarrow> relation list" where
  "implied_relations a b =
     (if src_repository_family a = src_repository_family b
      then [\<lparr>rel_left = src_source_id a, rel_right = src_source_id b, rel_kind = K_monorepo,
             rel_proof = ''roster:repository_family''\<rparr>] else [])
   @ (if list_ex (\<lambda>x. x \<in> set (src_request_lineage b)) (src_request_lineage a)
      then [\<lparr>rel_left = src_source_id a, rel_right = src_source_id b, rel_kind = K_same_request,
             rel_proof = ''roster:request_lineage''\<rparr>] else [])"

fun all_implied :: "source_assignment list \<Rightarrow> relation list" where
  "all_implied [] = []"
| "all_implied (a # rest) = concat (map (implied_relations a) rest) @ all_implied rest"

lemma new_relation_ok:
  assumes "is_identifier x" "is_identifier y" "x \<noteq> y" "is_text p"
  shows "new_relation x y k p = Inr \<lparr>rel_left = x, rel_right = y, rel_kind = k, rel_proof = p\<rparr>"
  using assms by (cases k) (simp_all add: new_relation_def relation_checks_def CLOSING_RELATIONS_def)

lemma roster_texts: "is_text ''roster:repository_family''" "is_text ''roster:request_lineage''"
  by (simp_all add: is_text_def is_space_def)

lemma pair_relations_ok:
  assumes "is_identifier (src_source_id a)" "is_identifier (src_source_id b)"
    "src_source_id a \<noteq> src_source_id b"
  shows "pair_relations a b acc = Inr (acc @ implied_relations a b)"
  by (simp add: pair_relations_def implied_relations_def new_relation_ok [OF assms roster_texts(1)]
      new_relation_ok [OF assms roster_texts(2)])

lemma pair_fold_ok:
  assumes "is_identifier (src_source_id a)"
    "\<forall>b \<in> set bs. is_identifier (src_source_id b) \<and> src_source_id a \<noteq> src_source_id b"
  shows "fold_result (\<lambda>acc b. pair_relations a b acc) acc bs = Inr (acc @ concat (map (implied_relations a) bs))"
  using assms by (induction bs arbitrary: acc) (simp_all add: pair_relations_ok)

lemma roster_relations_ok:
  assumes "distinct (map src_source_id srcs)" "\<forall>a \<in> set srcs. is_identifier (src_source_id a)"
  shows "roster_relations srcs acc = Inr (acc @ all_implied srcs)"
  using assms
proof (induction srcs arbitrary: acc)
  case (Cons a srcs)
  then have "fold_result (\<lambda>acc b. pair_relations a b acc) acc srcs
      = Inr (acc @ concat (map (implied_relations a) srcs))"
    by (intro pair_fold_ok) (auto simp: image_iff)
  with Cons show ?case by simp
qed simp

lemma digest_text: "is_digest s \<Longrightarrow> is_text s"
  by (cases s) (auto simp: is_digest_def is_text_def is_lower_hex_def is_space_def)

lemma freeze_relations_ok:
  assumes "valid_roster roster"
  shows "freeze_relations roster
    = Inr (map recorded_relation (fr_relations roster) @ all_implied (fr_sources roster))"
proof -
  have "map_result (\<lambda>item. new_relation (lr_left item) (lr_right item) (lr_kind item)
      (ref_sha256 (lr_evidence item))) rs = Inr (map recorded_relation rs)"
    if "list_all valid_lineage_relation rs" for rs
    using that
    by (induction rs) (auto simp: valid_lineage_relation_def distinct_endpoints_checks_def valid_ref_def
        digest_text new_relation_ok recorded_relation_def)
  moreover have "distinct (map src_source_id (fr_sources roster))"
    "\<forall>a \<in> set (fr_sources roster). is_identifier (src_source_id a)"
    using assms by (auto simp: valid_roster_def roster_uniqueness_checks_def valid_source_assignment_def list_all_iff)
  ultimately show ?thesis
    using assms by (simp add: freeze_relations_def roster_relations_ok valid_roster_def)
qed

lemma all_implied_from:
  "r \<in> set (all_implied srcs) \<Longrightarrow> \<exists>a \<in> set srcs. \<exists>b \<in> set srcs. r \<in> set (implied_relations a b)"
  by (induction srcs) auto

lemma all_implied_to:
  "a \<in> set srcs \<Longrightarrow> b \<in> set srcs \<Longrightarrow> a \<noteq> b \<Longrightarrow>
     set (implied_relations a b) \<subseteq> set (all_implied srcs) \<or> set (implied_relations b a) \<subseteq> set (all_implied srcs)"
  by (induction srcs) auto

lemma overlapping_sym: "overlapping a b \<Longrightarrow> overlapping b a"
  by (auto simp: overlapping_def list_ex_iff)

lemma implied_iff:
  "r \<in> set (implied_relations a b) \<Longrightarrow> overlapping a b \<and> closing r \<and> rel_left r = src_source_id a \<and> rel_right r = src_source_id b"
  "overlapping a b \<Longrightarrow> \<exists>r \<in> set (implied_relations a b). closing r \<and> rel_left r = src_source_id a \<and> rel_right r = src_source_id b"
  by (auto simp: implied_relations_def overlapping_def closing_iff split: if_splits)

lemma connected_related:
  fixes roster :: frozen_roster
  defines "rels \<equiv> map recorded_relation (fr_relations roster) @ all_implied (fr_sources roster)"
  shows "connected rels x y \<longleftrightarrow> related roster x y"
proof -
  let ?S = "{(x, y). related_step roster x y}"
  have "links rels \<subseteq> ?S"
  proof
    fix e
    assume "e \<in> links rels"
    then obtain r where r: "r \<in> set rels" "closing r"
      "e = (rel_left r, rel_right r) \<or> e = (rel_right r, rel_left r)"
      by (auto simp: links_def)
    from r(1) consider q where "q \<in> set (fr_relations roster)" "r = recorded_relation q"
      | "r \<in> set (all_implied (fr_sources roster))" by (auto simp: rels_def)
    then show "e \<in> ?S"
    proof cases
      case 1
      with r show ?thesis
        by (auto simp: recorded_relation_def closing_iff intro: related_step.intros)
    next
      case 2
      then obtain a b where ab: "a \<in> set (fr_sources roster)" "b \<in> set (fr_sources roster)"
        "r \<in> set (implied_relations a b)" by (blast dest: all_implied_from)
      from implied_iff(1) [OF ab(3)] r(3) ab(1,2) show ?thesis
        by (auto intro: related_step.implied overlapping_sym)
    qed
  qed
  moreover have pair: "connected rels (src_source_id a) (src_source_id b)"
    if "overlapping a b" "set (implied_relations a b) \<subseteq> set (all_implied (fr_sources roster))" for a b
  proof -
    from implied_iff(2) [OF that(1)] obtain r where r: "r \<in> set (implied_relations a b)" "closing r"
      "rel_left r = src_source_id a" "rel_right r = src_source_id b" by blast
    with that(2) have "r \<in> set rels" by (auto simp: rels_def)
    from connected_link [OF this r(2)] r(3,4) show ?thesis by simp
  qed
  have "?S \<subseteq> (links rels)\<^sup>*"
  proof clarify
    fix x y
    assume "related_step roster x y"
    then have "connected rels x y"
    proof cases
      case (recorded r)
      with connected_link [of "recorded_relation r" rels] show ?thesis
        by (auto simp: rels_def recorded_relation_def closing_iff)
    next
      case (recorded_back r)
      with connected_link [of "recorded_relation r" rels] show ?thesis
        by (auto simp: rels_def recorded_relation_def closing_iff intro: connected_sym)
    next
      case (implied a b)
      show ?thesis
      proof (cases "a = b")
        case False
        from all_implied_to [OF implied(3,4) False] show ?thesis
          using pair [OF implied(5)] pair [OF overlapping_sym [OF implied(5)]] implied(1,2)
          by (auto intro: connected_sym)
      qed (use implied in simp)
    qed
    then show "(x, y) \<in> (links rels)\<^sup>*" by (simp add: connected_def)
  qed
  ultimately have "(links rels)\<^sup>* = ?S\<^sup>*" by (metis rtrancl_subset)
  then show ?thesis by (simp add: connected_def related_def rtranclp_rtrancl_eq)
qed

text \<open>What the freeze decides.\<close>

definition lineage_separated :: "frozen_roster \<Rightarrow> bool" where
  "lineage_separated roster \<longleftrightarrow>
     (\<forall>a \<in> set (fr_sources roster). \<forall>b \<in> set (fr_sources roster).
        related roster (src_source_id a) (src_source_id b) \<longrightarrow> src_partition a = src_partition b)"

lemma roster_facts:
  assumes "valid_roster roster"
  shows "distinct (map src_source_id (fr_sources roster))"
    "distinct (map (ref_sha256 \<circ> src_task) (fr_sources roster))"
    "\<forall>a \<in> set (fr_sources roster). is_identifier (src_source_id a)"
  using assms by (auto simp: valid_roster_def roster_uniqueness_checks_def valid_source_assignment_def list_all_iff)

lemma requested_lookup:
  assumes "valid_roster roster"
  shows "map_of (requested_partitions roster) x = Some p \<longleftrightarrow>
    (\<exists>a \<in> set (fr_sources roster). src_source_id a = x \<and> src_partition a = p)"
  using map_of_dict_of [OF roster_facts(1) [OF assms], of x]
  by (auto simp: requested_partitions_def map_of_map)

lemma leak_free_separated:
  assumes "valid_roster roster" "\<And>x y. connected rels x y \<longleftrightarrow> related roster x y"
  shows "leak_free rels (requested_partitions roster) \<longleftrightarrow> lineage_separated roster"
  unfolding leak_free_def lineage_separated_def assms(2) requested_lookup [OF assms(1)] by blast

lemma freeze_result:
  assumes v: "valid_roster roster"
    and e: "\<forall>r \<in> set (fr_relations roster). {lr_left r, lr_right r} \<subseteq> src_source_id ` set (fr_sources roster)"
  shows "lineage_separated roster \<Longrightarrow> validate_lineage_freeze rt roster = Some (check_locked roster)"
    "\<not> lineage_separated roster \<Longrightarrow>
       \<exists>members labels. validate_lineage_freeze rt roster = Some (Inl (LineageLeakage members labels))"
proof -
  let ?rels = "map recorded_relation (fr_relations roster) @ all_implied (fr_sources roster)"
  let ?sorted = "sort_key relation_key (remdups ?rels)"
  have "list_ex (\<lambda>r. lr_left r \<notin> set (map src_source_id (fr_sources roster))
      \<or> lr_right r \<notin> set (map src_source_id (fr_sources roster))) (fr_relations roster) = False"
    using e by (auto simp: list_ex_iff)
  moreover have "planner ?sorted = Inr ?sorted" by (simp add: planner_def)
  ultimately have run: "validate_lineage_freeze rt roster =
      (case assign rt ?sorted (requested_partitions roster) of
         None \<Rightarrow> None
       | Some (Inl (SplitConflict members labels)) \<Rightarrow> Some (Inl (LineageLeakage members labels))
       | Some (Inl e) \<Rightarrow> Some (Inl (PlannerError e))
       | Some (Inr manifest) \<Rightarrow> Some (check_locked roster))"
    unfolding validate_lineage_freeze_def Let_def freeze_relations_ok [OF v] by simp
  have "connected ?sorted = connected ?rels" by (rule connected_cong) simp
  then have leak: "leak_free ?sorted (requested_partitions roster) \<longleftrightarrow> lineage_separated roster"
    by (intro leak_free_separated [OF v]) (simp add: connected_related)
  have "keys (requested_partitions roster) = keys (dict_of src_source_id (fr_sources roster))"
    by (simp add: requested_partitions_def comp_def case_prod_unfold)
  then have ids: "\<forall>x \<in> set (keys (requested_partitions roster)). is_identifier x"
    using keys_dict_of [of src_source_id "fr_sources roster"] roster_facts(3) [OF v] by simp
  note out = assign_cases [OF ids, of ?sorted rt]
  show "validate_lineage_freeze rt roster = Some (check_locked roster)" if "lineage_separated roster"
    using that by (rule_tac out) (simp add: run leak)
  show "\<exists>members labels. validate_lineage_freeze rt roster = Some (Inl (LineageLeakage members labels))"
    if "\<not> lineage_separated roster"
  proof (rule out)
    assume "\<not> leak_free ?sorted (requested_partitions roster) \<Longrightarrow>
       \<exists>members labels. assign rt ?sorted (requested_partitions roster) = Some (Inl (SplitConflict members labels))"
    with leak that obtain ms ls where "assign rt ?sorted (requested_partitions roster) = Some (Inl (SplitConflict ms ls))"
      by blast
    with run show ?thesis by simp
  qed
qed

lemma freeze_endpoints:
  assumes "validate_lineage_freeze rt roster = Some (Inr r)"
  shows "\<forall>r \<in> set (fr_relations roster). {lr_left r, lr_right r} \<subseteq> src_source_id ` set (fr_sources roster)"
  using assms by (auto simp: validate_lineage_freeze_def Let_def list_ex_iff split: if_splits)

lemma check_locked_Inr:
  "check_locked roster = Inr r \<longleftrightarrow> r = roster \<and> study_key ` set (fr_locked_tasks roster) = locked_keys roster
     \<and> distinct (map study_key (fr_locked_tasks roster))"
proof -
  have "card (set (map study_key (fr_locked_tasks roster))) = length (fr_locked_tasks roster)
      \<longleftrightarrow> distinct (map study_key (fr_locked_tasks roster))"
    by (metis card_distinct distinct_card length_map)
  then show ?thesis by (simp only: check_locked_def Let_def raise_if_eq_Inr set_map) auto
qed

section \<open>The preregistered trials\<close>

lemma frozen_checks_Inr [simp]: "frozen_checks cs = Inr u \<longleftrightarrow> passes cs"
  by (auto simp: frozen_checks_def passes_def split: option.splits)

lemma checked_study:
  assumes "check_study rt roster p config = Inr q"
  shows "q = p" "set (map ap_arm (pr_arms p)) = {Arm_base, Arm_feature_grpo}"
    "passes (trial_checks rt roster p (keys (dict_of ap_arm (pr_arms p))))"
    "map study_key (ec_tasks config) = map study_key (fr_locked_tasks roster)"
    "ec_partition config = P_LOCKED_TEST"
    "passes (locked_value_checks p config)"
  using assms keys_dict_of [of ap_arm "pr_arms p"]
  by (auto simp: check_study_def Let_def bind_result_eq_Inr arm_checks_def split: option.splits)

lemma trial_product:
  assumes "passes (trial_checks rt roster p arms)"
  shows "distinct (map trial_key (pr_trials p))"
    "trial_key ` set (pr_trials p) = {(k, arm, seed, episode). k \<in> study_key ` set (fr_locked_tasks roster)
       \<and> arm \<in> set arms \<and> seed \<in> set (sp_seeds (pr_seeds p)) \<and> 0 \<le> episode \<and> episode < pr_episodes_per_trial p}"
proof -
  have c: "set (map trial_key (pr_trials p)) = set (expected_trials roster p arms)"
    "card (set (map trial_key (pr_trials p))) = length (pr_trials p)"
    using assms by (auto simp: trial_checks_def Let_def)
  show "distinct (map trial_key (pr_trials p))"
    using c(2) by (metis card_distinct length_map)
  have range: "(\<exists>e \<in> {0 ..< nat n}. x = int e) \<longleftrightarrow> 0 \<le> x \<and> x < n" for x n
    by (auto intro: bexI [of _ "nat x"])
  have "(k, arm, seed, x) \<in> set (expected_trials roster p arms) \<longleftrightarrow>
      k \<in> study_key ` set (fr_locked_tasks roster) \<and> arm \<in> set arms \<and> seed \<in> set (sp_seeds (pr_seeds p))
      \<and> (\<exists>e \<in> {0 ..< nat (pr_episodes_per_trial p)}. x = int e)" for k arm seed x
    by (auto simp: expected_trials_def)
  with c(1) show "trial_key ` set (pr_trials p) = {(k, arm, seed, episode). k \<in> study_key ` set (fr_locked_tasks roster)
       \<and> arm \<in> set arms \<and> seed \<in> set (sp_seeds (pr_seeds p)) \<and> 0 \<le> episode \<and> episode < pr_episodes_per_trial p}"
    unfolding range set_map set_eq_iff split_paired_all by (simp only: mem_Collect_eq prod.case) blast
qed

lemma seed_of_cell:
  assumes "cell_key s = cell_key t"
  shows "episode_sampling_seed rt p s = episode_sampling_seed rt p t"
  using assms by (auto simp: episode_sampling_seed_def cell_key_def)

lemma paired_case_seed:
  assumes "passes (trial_checks rt roster p arms)" "s \<in> set (pr_trials p)" "t \<in> set (pr_trials p)"
    "cell_key s = cell_key t"
  shows "ta_case_seed s = ta_case_seed t"
proof -
  let ?vs = "map ta_case_seed (filter (\<lambda>u. cell_key u = cell_key t) (pr_trials p))"
  have "ta_case_seed s \<in> set ?vs" "ta_case_seed t \<in> set ?vs" using assms(2-4) by auto
  moreover from this(1) have "?vs \<noteq> []" by (metis empty_iff list.set(1))
  then have "(cell_key t, ?vs) \<in> set (group_by cell_key ta_case_seed (pr_trials p))"
    by (simp only: in_group_by simp_thms)
  with assms(1) have "card (set ?vs) = 1" by (fastforce simp: trial_checks_def Let_def list_ex_iff)
  then obtain x where "set ?vs = {x}" by (auto simp: card_1_singleton_iff)
  ultimately show ?thesis by simp
qed

lemma separate_sampling_seeds:
  assumes "passes (trial_checks rt roster p arms)" "pr_metric p = Metric_best_of_k"
    "s \<in> set (pr_trials p)" "t \<in> set (pr_trials p)"
    "episode_sampling_seed rt p s = episode_sampling_seed rt p t"
  shows "cell_key s = cell_key t"
proof -
  let ?cells = "dict_of cell_key (pr_trials p)"
  have keyed: "cell_key u = k" if "map_of (dict_of cell_key ts) k = Some u" for k u ts
    using that by (induction ts arbitrary: u rule: rev_induct)
      (simp_all add: dict_of_snoc dict_simps dict_of_def [of cell_key "[]"] split: if_splits)
  have "cell_key u \<in> set (keys ?cells)" if "u \<in> set (pr_trials p)" for u
    using that keys_dict_of [of cell_key "pr_trials p"] by simp
  from keys_lookup [OF this [OF assms(3)]] keys_lookup [OF this [OF assms(4)]]
  obtain s' t' where cells: "map_of ?cells (cell_key s) = Some s'" "map_of ?cells (cell_key t) = Some t'"
    by blast
  then have "episode_sampling_seed rt p s' = episode_sampling_seed rt p t'"
    using assms(5) seed_of_cell keyed by metis
  moreover have "distinct (map (\<lambda>kt. episode_sampling_seed rt p (snd kt)) ?cells)"
    using assms(1,2) by (simp add: trial_checks_def Let_def sampling_seeds_def comp_def case_prod_unfold)
  ultimately have "(cell_key s, s') = (cell_key t, t')"
    using cells [THEN map_of_SomeD] by (elim distinct_map_inj) simp_all
  then show ?thesis by simp
qed

section \<open>Guarantees of the frozen study\<close>

text \<open>
  C17: an admitted roster leaks nothing across partitions: sources that are related, through any
  chain of recorded relations, shared repository families and overlapping request lineages, lie in
  the same partition, and a source's task is on the locked list exactly if its partition is the
  locked test.
\<close>

theorem freeze_prevents_leakage:
  assumes "valid_roster roster" "validate_lineage_freeze rt roster = Some (Inr r)"
    and "a \<in> set (fr_sources roster)" "b \<in> set (fr_sources roster)"
    and "related roster (src_source_id a) (src_source_id b)"
  shows "r = roster \<and> src_partition a = src_partition b
    \<and> (study_key (src_task a) \<in> study_key ` set (fr_locked_tasks roster) \<longleftrightarrow> src_partition b = P_LOCKED_TEST)"
proof -
  note run = freeze_result [OF assms(1) freeze_endpoints [OF assms(2)], of rt]
  have sep: "lineage_separated roster" using run(2) assms(2) by force
  with run(1) assms(2) have "check_locked roster = Inr r" by simp
  then have r: "r = roster" "study_key ` set (fr_locked_tasks roster) = locked_keys roster"
    by (simp_all add: check_locked_Inr)
  have part: "src_partition a = src_partition b"
    using sep assms(3-5) by (auto simp: lineage_separated_def)
  have "a = c" if "c \<in> set (fr_sources roster)" "study_key (src_task a) = study_key (src_task c)" for c
    using that assms(3) by (intro distinct_map_inj [OF roster_facts(2) [OF assms(1)]]) (auto simp: study_key_def)
  then have "study_key (src_task a) \<in> locked_keys roster \<longleftrightarrow> src_partition a = P_LOCKED_TEST"
    using assms(3) by (fastforce simp: locked_keys_def)
  with r part show ?thesis by simp
qed

definition study_ref :: "char \<Rightarrow> string \<Rightarrow> artifact_ref" where
  "study_ref c kind = \<lparr>ref_sha256 = replicate 64 c, ref_kind = kind, ref_schema_version = 1,
     ref_visibility = V_EVALUATION, ref_encoding = Enc_json\<rparr>"

definition sample_source :: "string \<Rightarrow> char \<Rightarrow> string \<Rightarrow> partition \<Rightarrow> source_assignment" where
  "sample_source i c family part = \<lparr>src_source_id = i, src_task = study_ref c ''TaskBundle'',
     src_repository_family = family, src_request_lineage = [i], src_partition = part,
     src_evidence = study_ref c ''evidence''\<rparr>"

definition sample_roster :: frozen_roster where
  "sample_roster =
     \<lparr>fr_locked_tasks = [study_ref CHR ''3'' ''TaskBundle''],
      fr_sources = [sample_source ''s1'' CHR ''1'' ''f1'' P_TRAIN, sample_source ''s2'' CHR ''2'' ''f1'' P_TRAIN,
        sample_source ''s3'' CHR ''3'' ''f3'' P_LOCKED_TEST],
      fr_relations = [\<lparr>lr_left = ''s1'', lr_right = ''s3'', lr_kind = K_dependency,
        lr_evidence = study_ref CHR ''4'' ''evidence''\<rparr>],
      fr_test_source_frame = study_ref CHR ''5'' ''frame'', fr_exclusions = study_ref CHR ''6'' ''exclusions'',
      fr_created_at = ''2025-01-01T00:00:00Z''\<rparr>"

lemma sample_roster_valid: "valid_roster sample_roster"
  by code_simp

lemma sample_roster_frozen: "validate_lineage_freeze plain_runtime sample_roster = Some (Inr sample_roster)"
  by code_simp

theorem freeze_prevents_leakage_witness:
  "sample_roster = sample_roster
   \<and> src_partition (sample_source ''s1'' CHR ''1'' ''f1'' P_TRAIN) = src_partition (sample_source ''s2'' CHR ''2'' ''f1'' P_TRAIN)
   \<and> (study_key (src_task (sample_source ''s1'' CHR ''1'' ''f1'' P_TRAIN)) \<in> study_key ` set (fr_locked_tasks sample_roster)
      \<longleftrightarrow> src_partition (sample_source ''s2'' CHR ''2'' ''f1'' P_TRAIN) = P_LOCKED_TEST)"
proof (rule freeze_prevents_leakage [OF sample_roster_valid sample_roster_frozen])
  show s1: "sample_source ''s1'' CHR ''1'' ''f1'' P_TRAIN \<in> set (fr_sources sample_roster)"
    and s2: "sample_source ''s2'' CHR ''2'' ''f1'' P_TRAIN \<in> set (fr_sources sample_roster)"
    by (simp_all add: sample_roster_def)
  show "related sample_roster (src_source_id (sample_source ''s1'' CHR ''1'' ''f1'' P_TRAIN))
     (src_source_id (sample_source ''s2'' CHR ''2'' ''f1'' P_TRAIN))"
    unfolding related_def
    by (rule r_into_rtranclp, rule related_step.implied [OF s1 s2])
      (simp add: overlapping_def sample_source_def)
qed

text \<open>
  C18: the freeze always decides: on a well-formed roster whose relations name its own sources it
  terminates, reports \<open>LineageLeakage\<close> exactly if some related sources lie in different partitions,
  and otherwise only checks the locked list.
\<close>

theorem lineage_freeze_decides:
  assumes "valid_roster roster"
    and "\<forall>r \<in> set (fr_relations roster). {lr_left r, lr_right r} \<subseteq> src_source_id ` set (fr_sources roster)"
  shows "((\<exists>members labels. validate_lineage_freeze rt roster = Some (Inl (LineageLeakage members labels)))
      \<longleftrightarrow> \<not> lineage_separated roster)
    \<and> (lineage_separated roster \<longrightarrow> validate_lineage_freeze rt roster = Some (check_locked roster))"
proof -
  note run = freeze_result [OF assms, of rt]
  have "check_locked roster \<noteq> Inl (LineageLeakage members labels)" for members labels
    by (auto simp: check_locked_def Let_def raise_if_def)
  with run show ?thesis by (metis option.inject)
qed

definition leaking_roster :: frozen_roster where
  "leaking_roster = sample_roster\<lparr>fr_relations := [\<lparr>lr_left = ''s1'', lr_right = ''s3'', lr_kind = K_fork,
     lr_evidence = study_ref CHR ''4'' ''evidence''\<rparr>]\<rparr>"

theorem lineage_freeze_decides_witness:
  "validate_lineage_freeze plain_runtime leaking_roster
     = Some (Inl (LineageLeakage [''s1'', ''s2'', ''s3''] [''locked_test'', ''train'']))
   \<and> \<not> lineage_separated leaking_roster"
proof -
  have run: "validate_lineage_freeze plain_runtime leaking_roster
     = Some (Inl (LineageLeakage [''s1'', ''s2'', ''s3''] [''locked_test'', ''train'']))"
    by code_simp
  have "valid_roster leaking_roster" by code_simp
  moreover have "\<forall>r \<in> set (fr_relations leaking_roster).
      {lr_left r, lr_right r} \<subseteq> src_source_id ` set (fr_sources leaking_roster)"
    by (simp add: leaking_roster_def sample_roster_def sample_source_def)
  ultimately show ?thesis using lineage_freeze_decides [of leaking_roster plain_runtime] run by blast
qed

text \<open>
  C19: an admitted preregistration assigns exactly the frozen Cartesian product of locked tasks,
  both arms, policy seeds and episodes, each once; the two arms of a cell share the case seed and
  the sampling seed; and in a best-of-k study different cells sample with different seeds.
\<close>

theorem preregistration_complete:
  assumes "validate_preregistration rt roster p config = Some (Inr q)"
  shows "q = p \<and> distinct (map trial_key (pr_trials p))
    \<and> trial_key ` set (pr_trials p) = {(k, arm, seed, episode). k \<in> study_key ` set (fr_locked_tasks roster)
         \<and> seed \<in> set (sp_seeds (pr_seeds p)) \<and> 0 \<le> episode \<and> episode < pr_episodes_per_trial p}
    \<and> (\<forall>s \<in> set (pr_trials p). \<forall>t \<in> set (pr_trials p).
        (cell_key s = cell_key t \<longrightarrow> ta_case_seed s = ta_case_seed t
           \<and> episode_sampling_seed rt p s = episode_sampling_seed rt p t)
        \<and> (pr_metric p = Metric_best_of_k \<and> episode_sampling_seed rt p s = episode_sampling_seed rt p t
           \<longrightarrow> cell_key s = cell_key t))"
proof -
  have c: "check_study rt roster p config = Inr q"
    using assms by (auto simp: validate_preregistration_def split: option.splits sum.splits)
  note study = checked_study [OF c]
  have "set (keys (dict_of ap_arm (pr_arms p))) = UNIV"
    using keys_dict_of [of ap_arm "pr_arms p"] study(2) by (auto intro: arm_name.exhaust)
  then have "q = p \<and> distinct (map trial_key (pr_trials p))
    \<and> trial_key ` set (pr_trials p) = {(k, arm, seed, episode). k \<in> study_key ` set (fr_locked_tasks roster)
         \<and> seed \<in> set (sp_seeds (pr_seeds p)) \<and> 0 \<le> episode \<and> episode < pr_episodes_per_trial p}"
    using trial_product [OF study(3)] study(1) by simp
  moreover have "\<forall>s \<in> set (pr_trials p). \<forall>t \<in> set (pr_trials p).
        (cell_key s = cell_key t \<longrightarrow> ta_case_seed s = ta_case_seed t
           \<and> episode_sampling_seed rt p s = episode_sampling_seed rt p t)
        \<and> (pr_metric p = Metric_best_of_k \<and> episode_sampling_seed rt p s = episode_sampling_seed rt p t
           \<longrightarrow> cell_key s = cell_key t)"
    by (intro ballI conjI impI; (elim conjE)?)
      (rule paired_case_seed [OF study(3)] seed_of_cell separate_sampling_seeds [OF study(3)]; assumption)+
  ultimately show ?thesis by (elim conjE) (intro conjI; assumption)
qed

definition sample_policy :: "policy_config" where
  "sample_policy = \<lparr>pc_identity = \<lparr>mi_provider = ''p'', mi_model = ''m'', mi_revision = ''r'', mi_weights = None,
     mi_tokenizer_digest = None\<rparr>, pc_policy_version = ''v1'', pc_temperature = 1, pc_top_p = 1, pc_seed = 0,
     pc_system_prompt = study_ref CHR ''7'' ''prompt'', pc_harness_version = ''h'', pc_require_token_probabilities = True\<rparr>"

definition sample_limits :: resource_limits where
  "sample_limits = \<lparr>rl_wall_seconds = 1, rl_cpu_seconds = 1, rl_memory_bytes = 1, rl_pids = 1, rl_output_bytes = 1,
     rl_disk_bytes = 1, rl_tool_calls = 1, rl_input_tokens = 1, rl_output_tokens = 1\<rparr>"

definition sample_budget :: budget_limit where
  "sample_budget = \<lparr>bl_max_updates = 1, bl_max_rollouts = 1, bl_max_assistant_tokens = 1, bl_gpu_seconds = 1,
     bl_usd = None\<rparr>"

definition sample_arm :: "arm_name \<Rightarrow> arm_protocol" where
  "sample_arm arm = \<lparr>ap_arm = arm, ap_method = expected_methods arm, ap_policy = sample_policy,
     ap_checkpoint = study_ref CHR ''8'' ''weights'',
     ap_training_config = (if arm = Arm_base then None else Some (study_ref CHR ''9'' ''request'')),
     ap_initial_checkpoint = study_ref CHR ''8'' ''weights'', ap_tools = study_ref CHR ''a'' ''tools'',
     ap_action_format = ''json'', ap_optimizer_family = ''adam'', ap_harness_version = ''h'', ap_training_sources = [],
     ap_training_budget = (if arm = Arm_base then None else Some sample_budget), ap_development_budget = sample_budget\<rparr>"

definition sample_trial :: "string \<Rightarrow> arm_name \<Rightarrow> int \<Rightarrow> trial_assignment" where
  "sample_trial i arm seed = \<lparr>ta_trial_id = i, ta_task = study_ref CHR ''3'' ''TaskBundle'', ta_arm = arm,
     ta_policy_seed = seed, ta_case_seed = 40 + seed, ta_episode_index = 0\<rparr>"

definition sample_seeds :: seed_policy where
  "sample_seeds = \<lparr>sp_algorithm = ''fixed'', sp_seeds = [1, 2], sp_same_cases_within_group = True\<rparr>"

definition sample_preregistration :: preregistration where
  "sample_preregistration =
     \<lparr>pr_arms = [sample_arm Arm_base, sample_arm Arm_feature_grpo],
      pr_trials = [sample_trial ''t1'' Arm_base 1, sample_trial ''t2'' Arm_feature_grpo 1,
        sample_trial ''t3'' Arm_base 2, sample_trial ''t4'' Arm_feature_grpo 2],
      pr_limits = sample_limits, pr_seeds = sample_seeds, pr_metric = Metric_pass_at_1, pr_episodes_per_trial = 1,
      pr_harness_version = ''h'', pr_checkpoint_selection_rule = ''last'', pr_invalid_trial_rule = ''count'',
      pr_locked_test_access_rule = ''once'', pr_comparisons = [(Arm_base, Arm_feature_grpo)],
      pr_created_at = ''2025-01-01T00:00:00Z''\<rparr>"

definition sample_study_config :: evaluation_config where
  "sample_study_config =
     \<lparr>ec_tasks = fr_locked_tasks sample_roster,
      ec_arms = map (\<lambda>arm. \<lparr>ea_arm = arm, ea_policy = sample_policy, ea_checkpoint = study_ref CHR ''8'' ''weights'',
        ea_training_config = ap_training_config (sample_arm arm)\<rparr>) [Arm_base, Arm_feature_grpo],
      ec_limits = sample_limits, ec_seeds = sample_seeds, ec_partition = P_LOCKED_TEST, ec_harness_version = ''h'',
      ec_checkpoint_selection_rule = ''last'', ec_invalid_trial_rule = ''count'', ec_metric = Metric_pass_at_1,
      ec_episodes_per_trial = 1, ec_frozen_roster = study_ref CHR ''b'' ''roster'',
      ec_preregistration = study_ref CHR ''c'' ''preregistration''\<rparr>"

lemma sample_study_checked:
  "check_study plain_runtime sample_roster sample_preregistration sample_study_config = Inr sample_preregistration"
  by code_simp

theorem preregistration_complete_witness:
  "trial_key ` set (pr_trials sample_preregistration) = {(k, arm, seed, episode).
     k \<in> study_key ` set (fr_locked_tasks sample_roster) \<and> seed \<in> set (sp_seeds sample_seeds)
     \<and> 0 \<le> episode \<and> episode < 1}"
proof -
  have "validate_preregistration plain_runtime sample_roster sample_preregistration sample_study_config
      = Some (Inr sample_preregistration)"
    by (simp add: validate_preregistration_def sample_roster_frozen sample_study_checked)
  from preregistration_complete [OF this] show ?thesis by (simp add: sample_preregistration_def)
qed

end
