(* ===== verification/EvaluationStatistics.thy ===== *)
theory EvaluationStatistics
  imports EvaluationStudy
begin

text \<open>
  \<^verbatim>\<open>evaluation/statistics.py\<close>: the summary of a complete trial ledger. A metric unit is one task,
  policy seed and arm with its frozen number of episodes. Two things come from outside: the rounding
  of a rational to a float (\<open>round_float\<close>) and the generator of \<^verbatim>\<open>random.Random\<close> (\<open>randrange\<close>: the value
  of the \<open>i\<close>-th call for a seed and a bound). \<^verbatim>\<open>statistics.mean\<close> sums floats exactly and rounds once.
\<close>

section \<open>Records\<close>

record arithmetic =
  round_float :: "rat \<Rightarrow> rat"
  randrange :: "int \<Rightarrow> nat \<Rightarrow> nat \<Rightarrow> nat"

fun arm_value :: "arm_name \<Rightarrow> string" where
  "arm_value Arm_base = ''base''"
| "arm_value Arm_feature_grpo = ''feature_grpo''"

record arm_counts =
  ac_arm :: arm_name
  ac_assigned :: int
  ac_valid :: int
  ac_resolved :: int
  ac_failed :: int
  ac_invalid :: int

record evaluation_statistics =
  es_arms :: "arm_counts list"
  es_metrics :: "metric_estimate list"
  es_bootstrap_seed :: int
  es_bootstrap_resamples :: int
  es_limitations :: "string list"

datatype statistics_error =
    StatisticsError string
  | ValueError string
  | KeyError string

definition stat_key :: "artifact_ref \<Rightarrow> digest \<times> string \<times> int" where
  "stat_key r = (ref_sha256 r, ref_kind r, ref_schema_version r)"

type_synonym groups = "(string \<times> rat list) list"
type_synonym unit_key = "(digest \<times> string \<times> int) \<times> int \<times> arm_name"
type_synonym unit_value = "string \<times> rat \<times> rat option"

section \<open>Estimates\<close>

definition mean :: "arithmetic \<Rightarrow> rat list \<Rightarrow> rat" where
  "mean ar xs = round_float ar (sum_list xs / rat_of_nat (length xs))"

definition percentile :: "arithmetic \<Rightarrow> rat list \<Rightarrow> rat \<Rightarrow> rat" where
  "percentile ar values fraction =
     (let ordered = sort values;
          position = round_float ar (rat_of_nat (length ordered - 1) * round_float ar fraction);
          lower = nat \<lfloor>position\<rfloor>;
          upper = min (lower + 1) (length ordered - 1) in
      round_float ar (ordered ! lower
        + round_float ar (round_float ar (ordered ! upper - ordered ! lower)
                          * round_float ar (position - rat_of_nat lower))))"

definition group_of :: "groups \<Rightarrow> string \<Rightarrow> rat list" where
  "group_of groups family = (case map_of groups family of None \<Rightarrow> [] | Some xs \<Rightarrow> xs)"

text \<open>The \<open>k\<close>-th resample draws one family for each family; draws are numbered through.\<close>

definition resample :: "arithmetic \<Rightarrow> int \<Rightarrow> string list \<Rightarrow> nat \<Rightarrow> string list" where
  "resample ar seed families k =
     map (\<lambda>i. families ! randrange ar seed (k * length families + i) (length families)) [0 ..< length families]"

definition resampled_mean :: "arithmetic \<Rightarrow> groups \<Rightarrow> bool \<Rightarrow> string list \<Rightarrow> rat" where
  "resampled_mean ar groups family_weighted selected =
     (if family_weighted then mean ar (map (\<lambda>family. mean ar (group_of groups family)) selected)
      else mean ar (concat (map (group_of groups) selected)))"

definition cluster_interval ::
  "arithmetic \<Rightarrow> groups \<Rightarrow> int \<Rightarrow> int \<Rightarrow> bool \<Rightarrow> rat option \<times> rat option" where
  "cluster_interval ar groups seed resamples family_weighted =
     (let families = sort (keys groups) in
      if length families < 2 then (None, None)
      else let samples = map (\<lambda>k. resampled_mean ar groups family_weighted (resample ar seed families k))
                 [0 ..< nat resamples] in
        (Some (percentile ar samples (1 / 40)), Some (percentile ar samples (39 / 40))))"

definition new_metric :: "metric_estimate \<Rightarrow> statistics_error + metric_estimate" where
  "new_metric m = raise_if (\<not> valid_metric m) (ValueError ''invalid metric estimate'') (Inr m)"

definition estimate ::
  "arithmetic \<Rightarrow> string \<Rightarrow> groups \<Rightarrow> bool \<Rightarrow> int \<Rightarrow> int \<Rightarrow> int \<Rightarrow> string list
     \<Rightarrow> statistics_error + metric_estimate" where
  "estimate ar name groups family_weighted sample_size seed resamples limits =
     (let values = concat (map (group_of groups) (sort (keys groups))) in
      if values = []
      then new_metric \<lparr>me_name = name, me_estimate = None, me_lower = None, me_upper = None,
             me_sample_size = 0, me_method = ''no valid observations'', me_limitations = limits\<rparr>
      else
        let value = (if family_weighted then mean ar (map (mean ar) (dict_values groups)) else mean ar values);
            bounds = cluster_interval ar groups seed resamples family_weighted in
        new_metric \<lparr>me_name = name, me_estimate = Some value, me_lower = fst bounds, me_upper = snd bounds,
          me_sample_size = sample_size, me_method = ''family-clustered percentile bootstrap'',
          me_limitations = limits @
            (if length groups < 2
             then [''fewer than two repository families; uncertainty interval unavailable''] else [])\<rparr>)"

section \<open>The ledger\<close>

definition roster_families :: "frozen_roster \<Rightarrow> ((digest \<times> string \<times> int) \<times> string) list" where
  "roster_families roster =
     map (\<lambda>(k, s). (k, src_repository_family s)) (dict_of (\<lambda>s. stat_key (src_task s)) (fr_sources roster))"

definition matches_assignment :: "frozen_roster \<Rightarrow> trial_assignment \<Rightarrow> trial_result \<Rightarrow> bool" where
  "matches_assignment roster a item \<longleftrightarrow>
     stat_key (tr_task item) = stat_key (ta_task a) \<and> tr_arm item = ta_arm a
     \<and> tr_policy_seed item = ta_policy_seed a \<and> tr_case_seed item = ta_case_seed a
     \<and> map_of (roster_families roster) (stat_key (ta_task a)) = Some (tr_repository_family item)"

definition observe ::
  "frozen_roster \<Rightarrow> (string \<times> trial_assignment) list \<Rightarrow> trial_result dict \<Rightarrow> trial_result
     \<Rightarrow> statistics_error + trial_result dict" where
  "observe roster assignments observed item =
     (case map_of assignments (tr_trial_id item) of
        None \<Rightarrow> Inl (KeyError (tr_trial_id item))
      | Some a \<Rightarrow>
          raise_if (\<not> matches_assignment roster a item)
            (StatisticsError ''trial differs from its frozen assignment'')
            (Inr (dict_put (tr_trial_id item) item observed)))"

definition check_ledger ::
  "frozen_roster \<Rightarrow> preregistration \<Rightarrow> trial_result list \<Rightarrow> statistics_error + trial_result dict" where
  "check_ledger roster p trials =
     (let assignments = dict_of ta_trial_id (pr_trials p); ids = set (map tr_trial_id trials) in
      raise_if (length trials \<noteq> length assignments \<or> card ids \<noteq> length trials \<or> ids \<noteq> set (keys assignments))
        (StatisticsError ''every assigned trial must appear exactly once'')
        (fold_result (observe roster assignments) [] trials))"

section \<open>Metric units\<close>

definition unit_key :: "trial_assignment \<Rightarrow> unit_key" where
  "unit_key a = (stat_key (ta_task a), ta_policy_seed a, ta_arm a)"

definition rate :: "bool \<Rightarrow> rat" where
  "rate b = (if b then 1 else 0)"

definition unit_of :: "trial_result list \<Rightarrow> unit_value" where
  "unit_of episodes =
     (let all_value = rate (list_ex (\<lambda>t. tr_resolved t = Some True) episodes) in
      (tr_repository_family (hd episodes), all_value,
       if list_all (\<lambda>t. tr_resolved t \<noteq> None) episodes then Some all_value else None))"

definition metric_units ::
  "preregistration \<Rightarrow> trial_result dict \<Rightarrow> statistics_error + (unit_key \<times> unit_value) list" where
  "metric_units p observed =
     bind_result (map_result (\<lambda>a. case map_of observed (ta_trial_id a) of
         None \<Rightarrow> Inl (KeyError (ta_trial_id a)) | Some t \<Rightarrow> Inr (unit_key a, t)) (pr_trials p)) (\<lambda>pairs.
     map_result (\<lambda>(key, episodes).
         raise_if (int (length episodes) \<noteq> pr_episodes_per_trial p)
           (StatisticsError ''metric unit does not contain the frozen episode count'')
           (Inr (key, unit_of episodes)))
       (group_by fst snd pairs))"

definition STATISTICS_LIMITATIONS :: "string list" where
  "STATISTICS_LIMITATIONS =
     [''statistics aggregate supplied observed receipts and do not establish task or policy admission'',
      ''all-assigned rates count invalid and unresolved assigned trials as unsuccessful'',
      ''independently trained replicates are not represented; policy sampling seeds do not measure training variability'']"

definition metric_label :: "preregistration \<Rightarrow> string" where
  "metric_label p = (if pr_metric p = Metric_pass_at_1 then ''pass_at_1''
                     else ''best_of_'' @ int_repr (pr_episodes_per_trial p))"

definition all_groups :: "unit_value list \<Rightarrow> groups" where
  "all_groups units = group_by fst (\<lambda>u. fst (snd u)) units"

definition valid_groups :: "unit_value list \<Rightarrow> groups" where
  "valid_groups units = group_by fst (\<lambda>u. the (snd (snd u))) (filter (\<lambda>u. snd (snd u) \<noteq> None) units)"

definition arm_units :: "arm_name \<Rightarrow> (unit_key \<times> unit_value) list \<Rightarrow> unit_value list" where
  "arm_units arm units = map snd (filter (\<lambda>u. snd (snd (fst u)) = arm) units)"

definition counts_of :: "arm_name \<Rightarrow> unit_value list \<Rightarrow> arm_counts" where
  "counts_of arm us =
     (let valid = filter (\<lambda>u. snd (snd u) \<noteq> None) us;
          successes = filter (\<lambda>u. the (snd (snd u)) \<noteq> 0) valid in
      \<lparr>ac_arm = arm, ac_assigned = int (length us), ac_valid = int (length valid),
       ac_resolved = int (length successes), ac_failed = int (length valid) - int (length successes),
       ac_invalid = int (length us) - int (length valid)\<rparr>)"

definition arm_metrics ::
  "arithmetic \<Rightarrow> preregistration \<Rightarrow> int \<Rightarrow> int \<Rightarrow> nat \<times> arm_name \<Rightarrow> unit_value list
     \<Rightarrow> statistics_error + metric_estimate list" where
  "arm_metrics ar p seed resamples indexed us =
     (case indexed of (index, arm) \<Rightarrow>
      let label = metric_label p @ ''/'' @ arm_value arm in
      bind_result (estimate ar (label @ ''/all_assigned'') (all_groups us) False (int (length us))
          (seed + int index * 2) resamples STATISTICS_LIMITATIONS) (\<lambda>m.
      bind_result (estimate ar (label @ ''/valid_only'') (valid_groups us) False
          (int (length (filter (\<lambda>u. snd (snd u) \<noteq> None) us))) (seed + int index * 2 + 1) resamples
          (STATISTICS_LIMITATIONS @ [''invalid trials excluded from this denominator''])) (\<lambda>n.
      Inr [m, n])))"

section \<open>Paired comparisons\<close>

definition unit_cells :: "(unit_key \<times> unit_value) list \<Rightarrow> ((digest \<times> string \<times> int) \<times> int) list" where
  "unit_cells units = sort (remdups (map (\<lambda>u. (fst (fst u), fst (snd (fst u)))) units))"

definition pair_cell ::
  "(unit_key \<times> unit_value) list \<Rightarrow> arm_name \<Rightarrow> arm_name \<Rightarrow> groups \<times> groups
     \<Rightarrow> (digest \<times> string \<times> int) \<times> int \<Rightarrow> statistics_error + groups \<times> groups" where
  "pair_cell units left right gs cell =
     (case cell of (task, seed) \<Rightarrow>
      case map_of units (task, seed, left) of
        None \<Rightarrow> Inl (KeyError (arm_value left))
      | Some (left_family, left_all, left_valid) \<Rightarrow>
          case map_of units (task, seed, right) of
            None \<Rightarrow> Inl (KeyError (arm_value right))
          | Some (right_family, right_all, right_valid) \<Rightarrow>
              raise_if (left_family \<noteq> right_family)
                (StatisticsError ''paired arms disagree on repository family'')
                (Inr (dict_append left_family (right_all - left_all) (fst gs),
                      (case (left_valid, right_valid) of
                         (Some l, Some r) \<Rightarrow> dict_append left_family (r - l) (snd gs)
                       | _ \<Rightarrow> snd gs))))"

definition paired_groups ::
  "(unit_key \<times> unit_value) list \<Rightarrow> arm_name \<Rightarrow> arm_name \<Rightarrow> statistics_error + groups \<times> groups" where
  "paired_groups units left right =
     fold_result (pair_cell units left right) ([], []) (unit_cells units)"

definition paired_metrics ::
  "arithmetic \<Rightarrow> int \<Rightarrow> int \<Rightarrow> (unit_key \<times> unit_value) list \<Rightarrow> nat \<times> arm_name \<times> arm_name
     \<Rightarrow> statistics_error + metric_estimate list" where
  "paired_metrics ar seed resamples units indexed =
     (case indexed of (index, left, right) \<Rightarrow>
      bind_result (paired_groups units left right) (\<lambda>(all, valid).
      map_result (\<lambda>(population, groups, population_limits, weighting_index, family_weighted).
          estimate ar (''paired/'' @ arm_value right @ ''-'' @ arm_value left @ ''/''
              @ (if family_weighted then ''family_weighted'' else ''task_weighted'') @ ''/'' @ population)
            groups family_weighted
            (if family_weighted then int (length groups) else int (length (concat (dict_values groups))))
            (seed + 100 + int index * 4 + weighting_index) resamples population_limits)
        [(population, groups, limits, w).
           (population, groups, limits) \<leftarrow>
             [(''all_assigned'', all, STATISTICS_LIMITATIONS),
              (''valid_only'', valid,
               STATISTICS_LIMITATIONS @ [''pairs with either invalid trial excluded from this denominator''])],
           w \<leftarrow> [(0, False), (1, True)]]))"

definition summarize_trials ::
  "arithmetic \<Rightarrow> frozen_roster \<Rightarrow> preregistration \<Rightarrow> trial_result list \<Rightarrow> int \<Rightarrow> int
     \<Rightarrow> statistics_error + evaluation_statistics" where
  "summarize_trials ar roster p trials seed resamples =
     raise_if (seed < 0) (ValueError ''bootstrap seed must be a nonnegative integer'')
     (raise_if (resamples < 1) (ValueError ''bootstrap resamples must be positive'')
     (bind_result (check_ledger roster p trials) (\<lambda>observed.
     bind_result (metric_units p observed) (\<lambda>units.
     let protocols = sort_key arm_value (map ap_arm (pr_arms p)) in
     bind_result (map_result (\<lambda>(i, arm). arm_metrics ar p seed resamples (i, arm) (arm_units arm units))
         (enumerate 0 protocols)) (\<lambda>per_arm.
     bind_result (map_result (paired_metrics ar seed resamples units)
         (enumerate 0 (pr_comparisons p))) (\<lambda>paired.
     Inr \<lparr>es_arms = map (\<lambda>arm. counts_of arm (arm_units arm units)) protocols,
          es_metrics = concat per_arm @ concat paired,
          es_bootstrap_seed = seed, es_bootstrap_resamples = resamples, es_limitations = STATISTICS_LIMITATIONS\<rparr>))))))"

section \<open>The ledger is exact\<close>

text \<open>The result recorded for an assignment.\<close>

definition result_of :: "trial_result list \<Rightarrow> trial_assignment \<Rightarrow> trial_result" where
  "result_of trials a = the (map_of (dict_of tr_trial_id trials) (ta_trial_id a))"

definition ledger_exact :: "frozen_roster \<Rightarrow> preregistration \<Rightarrow> trial_result list \<Rightarrow> bool" where
  "ledger_exact roster p trials \<longleftrightarrow> distinct (map tr_trial_id trials)
     \<and> set (map tr_trial_id trials) = set (map ta_trial_id (pr_trials p))
     \<and> (\<forall>t \<in> set trials. \<exists>a. map_of (dict_of ta_trial_id (pr_trials p)) (tr_trial_id t) = Some a
          \<and> matches_assignment roster a t)"

lemma observe_fold:
  "fold_result (observe roster assignments) acc trials = Inr observed \<longleftrightarrow>
     observed = foldl (\<lambda>d t. dict_put (tr_trial_id t) t d) acc trials
     \<and> (\<forall>t \<in> set trials. \<exists>a. map_of assignments (tr_trial_id t) = Some a \<and> matches_assignment roster a t)"
proof (induction trials arbitrary: acc)
  case (Cons t trials)
  show ?case
    by (cases "map_of assignments (tr_trial_id t)")
      (auto simp: observe_def [of roster assignments acc t] bind_result_eq_Inr raise_if_def Cons.IH)
qed auto

lemma check_ledger_Inr:
  assumes "distinct (map ta_trial_id (pr_trials p))"
  shows "check_ledger roster p trials = Inr observed \<longleftrightarrow>
    observed = dict_of tr_trial_id trials \<and> ledger_exact roster p trials"
proof -
  let ?as = "dict_of ta_trial_id (pr_trials p)"
  have as: "keys ?as = map ta_trial_id (pr_trials p)" "length ?as = length (pr_trials p)"
    using assms by (simp_all add: dict_of_distinct comp_def)
  have ids: "card (set (map tr_trial_id trials)) = length trials \<longleftrightarrow> distinct (map tr_trial_id trials)"
    by (metis card_distinct distinct_card length_map)
  have len: "length trials = length (pr_trials p)"
    if "distinct (map tr_trial_id trials)" "set (map tr_trial_id trials) = set (map ta_trial_id (pr_trials p))"
    using that assms by (metis distinct_card length_map)
  show ?thesis
    unfolding check_ledger_def Let_def raise_if_eq_Inr observe_fold as ids ledger_exact_def dict_of_def [symmetric]
    using len by auto
qed

lemma exact_result:
  assumes "distinct (map ta_trial_id (pr_trials p))" "ledger_exact roster p trials" "a \<in> set (pr_trials p)"
  shows "map_of (dict_of tr_trial_id trials) (ta_trial_id a) = Some (result_of trials a)"
    "result_of trials a \<in> set trials" "matches_assignment roster a (result_of trials a)"
proof -
  from assms(2,3) obtain t where t: "t \<in> set trials" "tr_trial_id t = ta_trial_id a"
    unfolding ledger_exact_def by (metis (mono_tags, lifting) image_iff image_set imageI)
  then have m: "map_of (dict_of tr_trial_id trials) (ta_trial_id a) = Some t"
    using assms(2) by (simp add: map_of_dict_of ledger_exact_def)
  then show "map_of (dict_of tr_trial_id trials) (ta_trial_id a) = Some (result_of trials a)"
    "result_of trials a \<in> set trials"
    using t by (simp_all add: result_of_def)
  from assms(2) t obtain b where b: "map_of (dict_of ta_trial_id (pr_trials p)) (ta_trial_id a) = Some b"
    "matches_assignment roster b t" by (auto simp: ledger_exact_def)
  from b(1) have "b = a" using assms(3) map_of_dict_of [OF assms(1)] by (metis option.inject)
  with b(2) m show "matches_assignment roster a (result_of trials a)" by (simp add: result_of_def)
qed

section \<open>The units\<close>

definition unit_results :: "preregistration \<Rightarrow> trial_result list \<Rightarrow> unit_key \<Rightarrow> trial_result list" where
  "unit_results p trials k = map (result_of trials) (filter (\<lambda>a. unit_key a = k) (pr_trials p))"

lemma group_by_pairs: "group_by fst snd (map (\<lambda>x. (f x, g x)) xs) = group_by f g xs"
  by (induction xs rule: rev_induct) (simp_all add: group_by_snoc, simp_all add: group_by_def)

lemma group_by_map:
  obtains ks where "group_by f g xs = map (\<lambda>k. (k, map g (filter (\<lambda>x. f x = k) xs))) ks"
    "distinct ks" "set ks = f ` set xs"
proof
  let ?ks = "keys (group_by f g xs)"
  show "distinct ?ks" "set ?ks = f ` set xs" using keys_group_by [of f g xs] by blast+
  have "snd e = map g (filter (\<lambda>x. f x = fst e) xs)" if "e \<in> set (group_by f g xs)" for e
    using that in_group_by [of "fst e" "snd e" f g xs] by simp
  then have "map (\<lambda>e. (fst e, map g (filter (\<lambda>x. f x = fst e) xs))) (group_by f g xs) = group_by f g xs"
    by (intro map_idI) (metis prod.collapse)
  then show "group_by f g xs = map (\<lambda>k. (k, map g (filter (\<lambda>x. f x = k) xs))) ?ks"
    by (simp add: comp_def)
qed

text \<open>The units of an exact ledger: one per task, policy seed and arm.\<close>

definition units_for ::
  "preregistration \<Rightarrow> trial_result list \<Rightarrow> unit_key list \<Rightarrow> (unit_key \<times> unit_value) list" where
  "units_for p trials ks = map (\<lambda>k. (k, unit_of (unit_results p trials k))) ks"

lemma map_result_all: "(\<And>x. x \<in> set xs \<Longrightarrow> f x = Inr (g x)) \<Longrightarrow> map_result f xs = Inr (map g xs)"
  by (induction xs) simp_all

lemma map_result_guard:
  "map_result (\<lambda>x. raise_if (P x) (e x) (Inr (g x))) xs = Inr ys \<longleftrightarrow> (\<forall>x \<in> set xs. \<not> P x) \<and> ys = map g xs"
  by (induction xs arbitrary: ys) (auto simp: result_simps)

lemma metric_units_Inr:
  assumes "distinct (map ta_trial_id (pr_trials p))" "ledger_exact roster p trials"
    and "metric_units p (dict_of tr_trial_id trials) = Inr units"
  obtains ks where "units = units_for p trials ks" "distinct ks" "set ks = unit_key ` set (pr_trials p)"
    "\<And>k. k \<in> set ks \<Longrightarrow> int (length (unit_results p trials k)) = pr_episodes_per_trial p"
proof -
  have pairs: "map_result (\<lambda>a. case map_of (dict_of tr_trial_id trials) (ta_trial_id a) of
      None \<Rightarrow> Inl (KeyError (ta_trial_id a)) | Some t \<Rightarrow> Inr (unit_key a, t)) (pr_trials p)
    = Inr (map (\<lambda>a. (unit_key a, result_of trials a)) (pr_trials p))"
    by (rule map_result_all) (simp add: exact_result(1) [OF assms(1,2)])
  obtain ks where ks: "group_by unit_key (result_of trials) (pr_trials p)
      = map (\<lambda>k. (k, unit_results p trials k)) ks" "distinct ks" "set ks = unit_key ` set (pr_trials p)"
    unfolding unit_results_def by (rule group_by_map)
  from assms(3) have "(\<forall>x \<in> set (map (\<lambda>k. (k, unit_results p trials k)) ks).
        \<not> int (length (snd x)) \<noteq> pr_episodes_per_trial p)
      \<and> units = map (\<lambda>x. (fst x, unit_of (snd x))) (map (\<lambda>k. (k, unit_results p trials k)) ks)"
    unfolding metric_units_def pairs bind_result_Inr group_by_pairs ks(1) case_prod_unfold
      map_result_guard .
  with ks(2,3) show thesis by (intro that [of ks]) (auto simp: units_for_def comp_def)
qed

text \<open>Of a distinct list, the entries with a property are as many as the set has.\<close>

lemma length_filter_card: "distinct xs \<Longrightarrow> length (filter P xs) = card {x \<in> set xs. P x}"
  by (metis distinct_card distinct_filter set_filter)

definition unit_resolved :: "preregistration \<Rightarrow> trial_result list \<Rightarrow> unit_key \<Rightarrow> bool" where
  "unit_resolved p trials k \<longleftrightarrow> (\<exists>t \<in> set (unit_results p trials k). tr_resolved t = Some True)"

definition unit_measured :: "preregistration \<Rightarrow> trial_result list \<Rightarrow> unit_key \<Rightarrow> bool" where
  "unit_measured p trials k \<longleftrightarrow> (\<forall>t \<in> set (unit_results p trials k). tr_resolved t \<noteq> None)"

definition assigned_units :: "preregistration \<Rightarrow> arm_name \<Rightarrow> unit_key set" where
  "assigned_units p arm = {k \<in> unit_key ` set (pr_trials p). snd (snd k) = arm}"

lemma unit_of_values:
  "fst (snd (unit_of (unit_results p trials k))) = rate (unit_resolved p trials k)"
  "snd (snd (unit_of (unit_results p trials k)))
     = (if unit_measured p trials k then Some (rate (unit_resolved p trials k)) else None)"
  by (simp_all add: unit_of_def Let_def unit_resolved_def unit_measured_def list_ex_iff list_all_iff)

lemma arm_units_for:
  "arm_units arm (units_for p trials ks)
     = map (\<lambda>k. unit_of (unit_results p trials k)) (filter (\<lambda>k. snd (snd k) = arm) ks)"
  by (induction ks) (simp_all add: arm_units_def units_for_def)

lemma counts_of_units:
  assumes "distinct ks" "set ks = unit_key ` set (pr_trials p)"
    and us_def: "us = arm_units arm (units_for p trials ks)"
  shows "counts_of arm us =
    \<lparr>ac_arm = arm, ac_assigned = int (card (assigned_units p arm)),
     ac_valid = int (card {k \<in> assigned_units p arm. unit_measured p trials k}),
     ac_resolved = int (card {k \<in> assigned_units p arm. unit_measured p trials k \<and> unit_resolved p trials k}),
     ac_failed = int (card {k \<in> assigned_units p arm. unit_measured p trials k})
       - int (card {k \<in> assigned_units p arm. unit_measured p trials k \<and> unit_resolved p trials k}),
     ac_invalid = int (card (assigned_units p arm)) - int (card {k \<in> assigned_units p arm. unit_measured p trials k})\<rparr>"
proof -
  let ?ks = "filter (\<lambda>k. snd (snd k) = arm) ks"
  have ks: "distinct ?ks" "set ?ks = assigned_units p arm" using assms by (auto simp: assigned_units_def)
  have n: "length ?ks = card (assigned_units p arm)" using ks by (metis distinct_card)
  have "length (filter (\<lambda>u. snd (snd u) \<noteq> None) us) = length (filter (unit_measured p trials) ?ks)"
    unfolding us_def arm_units_for
    by (auto simp: filter_map comp_def unit_of_values intro!: arg_cong [where f = length] filter_cong)
  then have v: "length (filter (\<lambda>u. snd (snd u) \<noteq> None) us)
      = card {k \<in> assigned_units p arm. unit_measured p trials k}"
    by (simp only: length_filter_card [OF ks(1)] ks(2))
  have "length (filter (\<lambda>u. the (snd (snd u)) \<noteq> 0) (filter (\<lambda>u. snd (snd u) \<noteq> None) us))
      = length (filter (\<lambda>k. unit_measured p trials k \<and> unit_resolved p trials k) ?ks)"
    unfolding us_def arm_units_for
    by (auto simp: filter_map comp_def unit_of_values rate_def intro!: arg_cong [where f = length] filter_cong
        split: if_splits)
  then have r: "length (filter (\<lambda>u. the (snd (snd u)) \<noteq> 0) (filter (\<lambda>u. snd (snd u) \<noteq> None) us))
      = card {k \<in> assigned_units p arm. unit_measured p trials k \<and> unit_resolved p trials k}"
    by (simp only: length_filter_card [OF ks(1)] ks(2))
  have "length us = card (assigned_units p arm)" by (simp add: us_def arm_units_for n)
  then show ?thesis unfolding counts_of_def Let_def v r by simp
qed

section \<open>The estimates\<close>

lemma dict_append_values:
  "mset (concat (dict_values (dict_append k v d))) = mset (concat (dict_values d)) + {#v#}"
proof -
  have "mset (concat (dict_values (dict_put k ((case map_of d k of None \<Rightarrow> [] | Some vs \<Rightarrow> vs) @ [v]) d)))
      = mset (concat (dict_values d)) + {#v#}"
    by (induction d) auto
  then show ?thesis by (simp add: dict_append_def)
qed

lemma group_by_values: "mset (concat (dict_values (group_by f g xs))) = mset (map g xs)"
  by (induction xs rule: rev_induct) (simp_all add: group_by_snoc dict_append_values, simp add: group_by_def)

lemma group_of_keys: "distinct (keys d) \<Longrightarrow> map (group_of d) (keys d) = dict_values d"
proof -
  assume d: "distinct (keys d)"
  have "group_of d (fst e) = snd e" if "e \<in> set d" for e
    using that in_dict_iff [OF d, of "fst e" "snd e"] by (simp add: group_of_def)
  then show "map (group_of d) (keys d) = dict_values d" by (simp add: comp_def)
qed

lemma ordered_values:
  assumes "distinct (keys d)"
  shows "mset (concat (map (group_of d) (sort (keys d)))) = mset (concat (dict_values d))"
proof -
  have "mset (map (group_of d) (sort (keys d))) = mset (dict_values d)"
    by (metis assms group_of_keys mset_map mset_sort)
  then show ?thesis by (metis mset_concat sum_mset_sum_list mset_map)
qed

lemma mean_mset: "mset xs = mset ys \<Longrightarrow> mean ar xs = mean ar ys"
  unfolding mean_def by (metis sum_mset_sum_list size_mset)

lemma estimate_Inr:
  assumes "estimate ar name groups w n seed resamples limits = Inr m" "distinct (keys groups)"
  shows "me_name m = name"
    "me_estimate m = (if concat (dict_values groups) = [] then None
       else Some (if w then mean ar (map (mean ar) (dict_values groups)) else mean ar (concat (dict_values groups))))"
    "me_sample_size m = (if concat (dict_values groups) = [] then 0 else n)" "valid_metric m"
proof -
  let ?vs = "concat (map (group_of groups) (sort (keys groups)))"
  note v = ordered_values [OF assms(2)]
  have e: "?vs = [] \<longleftrightarrow> concat (dict_values groups) = []"
    using v by (metis mset_zero_iff)
  note m = mean_mset [OF v, of ar]
  show "me_name m = name" "valid_metric m"
    "me_estimate m = (if concat (dict_values groups) = [] then None
       else Some (if w then mean ar (map (mean ar) (dict_values groups)) else mean ar (concat (dict_values groups))))"
    "me_sample_size m = (if concat (dict_values groups) = [] then 0 else n)"
    using assms(1) unfolding estimate_def Let_def e new_metric_def m
    by (auto simp: raise_if_def split: if_splits)
qed

lemma rate_sum: "sum_list (map (\<lambda>k. rate (P k)) ks) = rat_of_nat (length (filter P ks))"
  by (induction ks) (simp_all add: rate_def)

lemma mean_rate: "mean ar (map (\<lambda>k. rate (P k)) ks)
    = round_float ar (rat_of_nat (length (filter P ks)) / rat_of_nat (length ks))"
  by (simp add: mean_def rate_sum)

lemma estimate_groups:
  assumes "estimate ar name (group_by f g us) False n seed resamples limits = Inr m"
    and "mset (map g us) = mset (map (\<lambda>k. rate (P k)) ks)"
  shows "me_estimate m = (if ks = [] then None
       else Some (round_float ar (rat_of_nat (length (filter P ks)) / rat_of_nat (length ks))))"
    "me_sample_size m = (if ks = [] then 0 else n)" "me_name m = name"
proof -
  have d: "distinct (keys (group_by f g us))" using keys_group_by [of f g us] by blast
  have v: "mset (concat (dict_values (group_by f g us))) = mset (map (\<lambda>k. rate (P k)) ks)"
    using assms(2) by (simp only: group_by_values)
  then have e: "concat (dict_values (group_by f g us)) = [] \<longleftrightarrow> ks = []"
    by (metis mset_zero_iff map_is_Nil_conv)
  show "me_estimate m = (if ks = [] then None
       else Some (round_float ar (rat_of_nat (length (filter P ks)) / rat_of_nat (length ks))))"
    "me_sample_size m = (if ks = [] then 0 else n)" "me_name m = name"
    unfolding estimate_Inr [OF assms(1) d] e mean_mset [OF v] mean_rate by simp_all
qed

lemma arm_metrics_Inr:
  assumes "arm_metrics ar p seed resamples (i, arm) (arm_units arm (units_for p trials ks)) = Inr ms"
    and ks: "distinct ks" "set ks = unit_key ` set (pr_trials p)"
  shows "\<exists>m n. ms = [m, n]
    \<and> me_name m = metric_label p @ ''/'' @ arm_value arm @ ''/all_assigned''
    \<and> me_estimate m = (if assigned_units p arm = {} then None else Some (round_float ar
        (rat_of_nat (card {k \<in> assigned_units p arm. unit_resolved p trials k})
          / rat_of_nat (card (assigned_units p arm)))))
    \<and> me_name n = metric_label p @ ''/'' @ arm_value arm @ ''/valid_only''
    \<and> me_estimate n = (if {k \<in> assigned_units p arm. unit_measured p trials k} = {} then None
        else Some (round_float ar
          (rat_of_nat (card {k \<in> assigned_units p arm. unit_measured p trials k \<and> unit_resolved p trials k})
            / rat_of_nat (card {k \<in> assigned_units p arm. unit_measured p trials k}))))
    \<and> valid_metric m \<and> valid_metric n"
proof -
  let ?ks = "filter (\<lambda>k. snd (snd k) = arm) ks"
  let ?vs = "filter (unit_measured p trials) ?ks"
  let ?us = "arm_units arm (units_for p trials ks)"
  have k: "distinct ?ks" "set ?ks = assigned_units p arm" using ks by (auto simp: assigned_units_def)
  have v: "distinct ?vs" "set ?vs = {k \<in> assigned_units p arm. unit_measured p trials k}"
    using distinct_filter [OF k(1)] k(2) by (simp, auto)
  obtain m n where m: "ms = [m, n]"
    "estimate ar ((metric_label p @ ''/'' @ arm_value arm) @ ''/all_assigned'') (all_groups ?us) False
       (int (length ?us)) (seed + int i * 2) resamples STATISTICS_LIMITATIONS = Inr m"
    "estimate ar ((metric_label p @ ''/'' @ arm_value arm) @ ''/valid_only'') (valid_groups ?us) False
       (int (length (filter (\<lambda>u. snd (snd u) \<noteq> None) ?us))) (seed + int i * 2 + 1) resamples
       (STATISTICS_LIMITATIONS @ [''invalid trials excluded from this denominator'']) = Inr n"
    using assms(1) by (auto simp: arm_metrics_def Let_def bind_result_eq_Inr)
  have a: "mset (map (\<lambda>u. fst (snd u)) ?us) = mset (map (\<lambda>k. rate (unit_resolved p trials k)) ?ks)"
    by (simp add: arm_units_for comp_def unit_of_values)
  have "map (\<lambda>u. the (snd (snd u))) (filter (\<lambda>u. snd (snd u) \<noteq> None) ?us)
      = map (\<lambda>k. rate (unit_resolved p trials k)) ?vs"
    unfolding arm_units_for by (induction ks) (auto simp: unit_of_values)
  then have b: "mset (map (\<lambda>u. the (snd (snd u))) (filter (\<lambda>u. snd (snd u) \<noteq> None) ?us))
      = mset (map (\<lambda>k. rate (unit_resolved p trials k)) ?vs)" by (simp only:)
  note all = estimate_groups [OF m(2) [unfolded all_groups_def] a]
  note valid = estimate_groups [OF m(3) [unfolded valid_groups_def] b]
  have wf: "valid_metric m" "valid_metric n"
    by (rule estimate_Inr(4) [OF m(2)], simp add: all_groups_def keys_group_by)
      (rule estimate_Inr(4) [OF m(3)], simp add: valid_groups_def keys_group_by)
  have empty: "?ks = [] \<longleftrightarrow> assigned_units p arm = {}"
    "?vs = [] \<longleftrightarrow> {k \<in> assigned_units p arm. unit_measured p trials k} = {}"
    unfolding v(2) [symmetric] by (simp_all only: k(2) [symmetric] set_empty)
  have len: "length (filter (unit_resolved p trials) ?ks) = card {k \<in> assigned_units p arm. unit_resolved p trials k}"
    "length ?ks = card (assigned_units p arm)"
    "length (filter (unit_resolved p trials) ?vs)
       = card {k \<in> assigned_units p arm. unit_measured p trials k \<and> unit_resolved p trials k}"
    "length ?vs = card {k \<in> assigned_units p arm. unit_measured p trials k}"
    unfolding length_filter_card [OF k(1)] length_filter_card [OF v(1)] distinct_card [OF k(1), symmetric]
      distinct_card [OF v(1), symmetric] k(2) v(2) by (simp_all add: conj_assoc)
  show ?thesis
    using m(1) all valid wf unfolding empty len append_assoc
    by (intro exI [of _ m] exI [of _ n] conjI) simp_all
qed

section \<open>A sample summary\<close>

definition sample_arithmetic :: arithmetic where
  "sample_arithmetic = \<lparr>round_float = \<lambda>x. x, randrange = \<lambda>seed i n. 0\<rparr>"

definition sample_trial_result :: "string \<Rightarrow> arm_name \<Rightarrow> int \<Rightarrow> bool option \<Rightarrow> trial_result" where
  "sample_trial_result i arm seed resolved =
     \<lparr>tr_trial_id = i, tr_task = study_ref CHR ''3'' ''TaskBundle'', tr_repository_family = ''f3'', tr_arm = arm,
      tr_policy_seed = seed, tr_case_seed = 40 + seed, tr_rollout = None,
      tr_disposition = D_INFRASTRUCTURE, tr_resolved = resolved, tr_evidence = []\<rparr>"

definition sample_trials :: "trial_result list" where
  "sample_trials =
     [sample_trial_result ''t1'' Arm_base 1 (Some False), sample_trial_result ''t2'' Arm_feature_grpo 1 (Some True),
      sample_trial_result ''t3'' Arm_base 2 None, sample_trial_result ''t4'' Arm_feature_grpo 2 (Some True)]"

definition sample_statistics :: evaluation_statistics where
  "sample_statistics =
     projr (summarize_trials sample_arithmetic sample_roster sample_preregistration sample_trials 0 2)"

lemma sample_preregistration_valid: "valid_preregistration sample_preregistration"
  by code_simp

lemma sample_summary:
  "summarize_trials sample_arithmetic sample_roster sample_preregistration sample_trials 0 2 = Inr sample_statistics"
proof -
  have "\<not> isl (summarize_trials sample_arithmetic sample_roster sample_preregistration sample_trials 0 2)"
    by code_simp
  then show ?thesis by (simp add: sample_statistics_def)
qed

section \<open>Guarantees of the summary\<close>

lemma summarize_Inr:
  assumes "valid_preregistration p" "summarize_trials ar roster p trials seed resamples = Inr st"
  obtains ks per_arm paired where
    "ledger_exact roster p trials" "distinct ks" "set ks = unit_key ` set (pr_trials p)"
    "\<And>k. k \<in> set ks \<Longrightarrow> int (length (unit_results p trials k)) = pr_episodes_per_trial p"
    "es_arms st = map (\<lambda>arm. counts_of arm (arm_units arm (units_for p trials ks)))
       (sort_key arm_value (map ap_arm (pr_arms p)))"
    "map_result (\<lambda>(i, arm). arm_metrics ar p seed resamples (i, arm) (arm_units arm (units_for p trials ks)))
       (enumerate 0 (sort_key arm_value (map ap_arm (pr_arms p)))) = Inr per_arm"
    "map_result (paired_metrics ar seed resamples (units_for p trials ks)) (enumerate 0 (pr_comparisons p)) = Inr paired"
    "es_metrics st = concat per_arm @ concat paired"
proof -
  have ids: "distinct (map ta_trial_id (pr_trials p))"
    using assms(1) by (auto simp: valid_preregistration_def basic_uniqueness_checks_def intro: card_distinct)
  obtain observed units per_arm paired where run:
    "check_ledger roster p trials = Inr observed" "metric_units p observed = Inr units"
    "map_result (\<lambda>(i, arm). arm_metrics ar p seed resamples (i, arm) (arm_units arm units))
       (enumerate 0 (sort_key arm_value (map ap_arm (pr_arms p)))) = Inr per_arm"
    "map_result (paired_metrics ar seed resamples units) (enumerate 0 (pr_comparisons p)) = Inr paired"
    "st = \<lparr>es_arms = map (\<lambda>arm. counts_of arm (arm_units arm units)) (sort_key arm_value (map ap_arm (pr_arms p))),
       es_metrics = concat per_arm @ concat paired, es_bootstrap_seed = seed,
       es_bootstrap_resamples = resamples, es_limitations = STATISTICS_LIMITATIONS\<rparr>"
    using assms(2) by (auto simp: summarize_trials_def Let_def raise_if_eq_Inr bind_result_eq_Inr)
  have l: "observed = dict_of tr_trial_id trials" "ledger_exact roster p trials"
    using run(1) check_ledger_Inr [OF ids] by blast+
  obtain ks where ks: "units = units_for p trials ks" "distinct ks" "set ks = unit_key ` set (pr_trials p)"
    "\<And>k. k \<in> set ks \<Longrightarrow> int (length (unit_results p trials k)) = pr_episodes_per_trial p"
    by (rule metric_units_Inr [OF ids l(2) run(2) [unfolded l(1)]]) blast
  show thesis
    by (rule that [OF l(2) ks(2,3,4) _ run(3,4) [unfolded ks(1)]]) (simp_all add: run(5) ks(1))
qed

lemma map_result_mem:
  assumes "map_result f xs = Inr ys"
  shows "x \<in> set xs \<Longrightarrow> \<exists>y \<in> set ys. f x = Inr y" "y \<in> set ys \<Longrightarrow> \<exists>x \<in> set xs. f x = Inr y"
proof -
  have "(x \<in> set xs \<longrightarrow> (\<exists>y \<in> set ys. f x = Inr y)) \<and> (y \<in> set ys \<longrightarrow> (\<exists>x \<in> set xs. f x = Inr y))" for x y
    using assms by (induction xs arbitrary: ys) (auto simp: result_simps)
  then show "x \<in> set xs \<Longrightarrow> \<exists>y \<in> set ys. f x = Inr y" "y \<in> set ys \<Longrightarrow> \<exists>x \<in> set xs. f x = Inr y"
    by blast+
qed

lemma arm_in_enumerate: "arm \<in> set xs \<Longrightarrow> \<exists>i. (i, arm) \<in> set (enumerate n xs)"
  by (induction xs arbitrary: n) auto

lemma filter_by_image:
  "finite K \<Longrightarrow> length (filter (\<lambda>a. f a \<in> K) xs) = (\<Sum>k \<in> K. length (filter (\<lambda>a. f a = k) xs))"
proof (induction xs)
  case (Cons x xs)
  have "(\<Sum>k \<in> K. length (filter (\<lambda>a. f a = k) (x # xs)))
      = (\<Sum>k \<in> K. (if f x = k then 1 else 0) + length (filter (\<lambda>a. f a = k) xs))"
    by (rule sum.cong) auto
  also have "\<dots> = (if f x \<in> K then 1 else 0) + (\<Sum>k \<in> K. length (filter (\<lambda>a. f a = k) xs))"
    using Cons.prems by (simp add: sum.distrib sum.delta')
  finally show ?case using Cons by simp
qed simp

lemma card_split: "finite B \<Longrightarrow> card {k \<in> B. \<not> P k} + card {k \<in> B. P k} = card B"
proof -
  assume "finite B"
  then have "card ({k \<in> B. \<not> P k} \<union> {k \<in> B. P k}) = card {k \<in> B. \<not> P k} + card {k \<in> B. P k}"
    by (intro card_Un_disjoint) auto
  moreover have "{k \<in> B. \<not> P k} \<union> {k \<in> B. P k} = B" by blast
  ultimately show ?thesis by simp
qed

lemma card_split2: "finite B \<Longrightarrow> card {k \<in> B. P k \<and> \<not> Q k} + card {k \<in> B. P k \<and> Q k} = card {k \<in> B. P k}"
  using card_split [of "{k \<in> B. P k}" Q] by (simp add: conj_assoc)

lemma assigned_total:
  assumes "\<And>k. k \<in> assigned_units p arm \<Longrightarrow> int (length (unit_results p trials k)) = pr_episodes_per_trial p"
  shows "int (card (assigned_units p arm)) * pr_episodes_per_trial p
    = int (length (filter (\<lambda>a. ta_arm a = arm) (pr_trials p)))"
proof -
  let ?A = "assigned_units p arm"
  have "finite ?A" by (simp add: assigned_units_def)
  then have "(\<Sum>k \<in> ?A. length (filter (\<lambda>a. unit_key a = k) (pr_trials p)))
      = length (filter (\<lambda>a. unit_key a \<in> ?A) (pr_trials p))"
    by (rule filter_by_image [symmetric])
  moreover have "filter (\<lambda>a. unit_key a \<in> ?A) (pr_trials p) = filter (\<lambda>a. ta_arm a = arm) (pr_trials p)"
    by (rule filter_cong) (auto simp: assigned_units_def unit_key_def)
  moreover have "int (\<Sum>k \<in> ?A. length (filter (\<lambda>a. unit_key a = k) (pr_trials p)))
      = (\<Sum>k \<in> ?A. pr_episodes_per_trial p)"
    unfolding of_nat_sum using assms by (intro sum.cong) (auto simp: unit_results_def)
  ultimately show ?thesis by simp
qed

text \<open>
  C20: the summary counts every assigned unit: for each arm the counts are those of the units (task,
  policy seed) preregistered for it, each of the frozen number of episodes, whatever their results;
  the units split into resolved, failed and invalid ones; the all-assigned estimate divides the
  units with a resolved episode by all assigned units, the valid-only estimate the resolved measured
  units by the measured ones, and an arm with no measured unit has no valid-only estimate.
\<close>

theorem summary_counts_every_unit:
  assumes "valid_preregistration p" "summarize_trials ar roster p trials seed resamples = Inr st"
    and "arm \<in> ap_arm ` set (pr_arms p)"
  shows "\<exists>c \<in> set (es_arms st). \<exists>m \<in> set (es_metrics st). \<exists>n \<in> set (es_metrics st). ac_arm c = arm
    \<and> ac_assigned c = int (card (assigned_units p arm))
    \<and> ac_assigned c * pr_episodes_per_trial p = int (length (filter (\<lambda>a. ta_arm a = arm) (pr_trials p)))
    \<and> ac_resolved c = int (card {k \<in> assigned_units p arm. unit_measured p trials k \<and> unit_resolved p trials k})
    \<and> ac_failed c = int (card {k \<in> assigned_units p arm. unit_measured p trials k \<and> \<not> unit_resolved p trials k})
    \<and> ac_invalid c = int (card {k \<in> assigned_units p arm. \<not> unit_measured p trials k})
    \<and> ac_resolved c + ac_failed c = ac_valid c \<and> ac_valid c + ac_invalid c = ac_assigned c
    \<and> me_name m = metric_label p @ ''/'' @ arm_value arm @ ''/all_assigned''
    \<and> me_estimate m = (if ac_assigned c = 0 then None else Some (round_float ar
        (rat_of_nat (card {k \<in> assigned_units p arm. unit_resolved p trials k}) / rat_of_int (ac_assigned c))))
    \<and> me_name n = metric_label p @ ''/'' @ arm_value arm @ ''/valid_only''
    \<and> me_estimate n = (if ac_valid c = 0 then None
        else Some (round_float ar (rat_of_int (ac_resolved c) / rat_of_int (ac_valid c))))"
proof -
  obtain ks per_arm paired where ks: "distinct ks" "set ks = unit_key ` set (pr_trials p)"
    "\<And>k. k \<in> set ks \<Longrightarrow> int (length (unit_results p trials k)) = pr_episodes_per_trial p"
    and arms: "es_arms st = map (\<lambda>arm. counts_of arm (arm_units arm (units_for p trials ks)))
       (sort_key arm_value (map ap_arm (pr_arms p)))"
    and per: "map_result (\<lambda>(i, arm). arm_metrics ar p seed resamples (i, arm) (arm_units arm (units_for p trials ks)))
       (enumerate 0 (sort_key arm_value (map ap_arm (pr_arms p)))) = Inr per_arm"
    and ms: "es_metrics st = concat per_arm @ concat paired"
    by (rule summarize_Inr [OF assms(1,2)]) blast
  let ?A = "assigned_units p arm"
  let ?V = "{k \<in> ?A. unit_measured p trials k}"
  let ?R = "{k \<in> ?A. unit_measured p trials k \<and> unit_resolved p trials k}"
  have fin: "finite ?A" by (simp add: assigned_units_def)
  have arm: "arm \<in> set (sort_key arm_value (map ap_arm (pr_arms p)))" using assms(3) by simp
  from arm_in_enumerate [OF this, of 0] map_result_mem(1) [OF per] obtain i ys where
    "ys \<in> set per_arm" "arm_metrics ar p seed resamples (i, arm) (arm_units arm (units_for p trials ks)) = Inr ys"
    by fastforce
  note ys = this
  from arm_metrics_Inr [OF ys(2) ks(1,2)] obtain m n where y: "ys = [m, n]" and mn':
    "me_name m = metric_label p @ ''/'' @ arm_value arm @ ''/all_assigned''"
    "me_estimate m = (if ?A = {} then None else Some (round_float ar
        (rat_of_nat (card {k \<in> ?A. unit_resolved p trials k}) / rat_of_nat (card ?A))))"
    "me_name n = metric_label p @ ''/'' @ arm_value arm @ ''/valid_only''"
    "me_estimate n = (if ?V = {} then None else Some (round_float ar (rat_of_nat (card ?R) / rat_of_nat (card ?V))))"
    by (elim exE conjE) rule
  have "set ys \<subseteq> set (es_metrics st)" using ys(1) ms by auto
  then have "m \<in> set (es_metrics st)" "n \<in> set (es_metrics st)" using y by simp_all
  note mn = this mn'
  note c = counts_of_units [OF ks(1,2) refl, of arm trials]
  have zero: "card ?A = 0 \<longleftrightarrow> ?A = {}" "card ?V = 0 \<longleftrightarrow> ?V = {}" using fin by auto
  note split = card_split2 [OF fin, of "unit_measured p trials" "unit_resolved p trials"]
    card_split [OF fin, of "unit_measured p trials"]
  have total: "int (card ?A) * pr_episodes_per_trial p = int (length (filter (\<lambda>a. ta_arm a = arm) (pr_trials p)))"
    by (rule assigned_total [of p arm trials]) (use ks(2,3) in \<open>auto simp: assigned_units_def\<close>)
  let ?c = "counts_of arm (arm_units arm (units_for p trials ks))"
  have "?c \<in> set (es_arms st)" using arm by (simp add: arms)
  then show ?thesis
    by (rule bexI [rotated], intro bexI [OF _ mn(1)] bexI [OF _ mn(2)])
      (use mn(3-6) total split zero in \<open>simp add: c\<close>)
qed

theorem summary_counts_every_unit_witness:
  "\<exists>c \<in> set (es_arms sample_statistics). ac_arm c = Arm_base
     \<and> ac_assigned c * 1 = int (length (filter (\<lambda>a. ta_arm a = Arm_base) (pr_trials sample_preregistration)))
     \<and> ac_resolved c + ac_failed c = ac_valid c \<and> ac_valid c + ac_invalid c = ac_assigned c"
proof -
  have "Arm_base \<in> ap_arm ` set (pr_arms sample_preregistration)"
    by (simp add: sample_preregistration_def sample_arm_def)
  from summary_counts_every_unit [OF sample_preregistration_valid sample_summary this]
  obtain c where "c \<in> set (es_arms sample_statistics)" "ac_arm c = Arm_base"
    "ac_assigned c * pr_episodes_per_trial sample_preregistration
       = int (length (filter (\<lambda>a. ta_arm a = Arm_base) (pr_trials sample_preregistration)))"
    "ac_resolved c + ac_failed c = ac_valid c" "ac_valid c + ac_invalid c = ac_assigned c"
    by (elim bexE conjE) rule
  moreover have "pr_episodes_per_trial sample_preregistration = 1" by (simp add: sample_preregistration_def)
  ultimately show ?thesis by auto
qed

section \<open>Bounds of the estimates\<close>

definition rounding_ok :: "arithmetic \<Rightarrow> bool" where
  "rounding_ok ar \<longleftrightarrow> mono (round_float ar) \<and> round_float ar 0 = 0 \<and> round_float ar 1 = 1 \<and> round_float ar (- 1) = - 1"

definition groups_within :: "rat \<Rightarrow> rat \<Rightarrow> groups \<Rightarrow> bool" where
  "groups_within lo hi d \<longleftrightarrow> distinct (keys d)
     \<and> (\<forall>vs \<in> set (dict_values d). vs \<noteq> [] \<and> (\<forall>v \<in> set vs. lo \<le> v \<and> v \<le> hi))"

lemma mean_within:
  assumes "mono (round_float ar)" "round_float ar lo = lo" "round_float ar hi = hi"
    "xs \<noteq> []" "\<forall>x \<in> set xs. lo \<le> x \<and> x \<le> hi"
  shows "lo \<le> mean ar xs \<and> mean ar xs \<le> hi"
proof -
  let ?n = "rat_of_nat (length xs)"
  have "lo * rat_of_nat (length ys) \<le> sum_list ys \<and> sum_list ys \<le> hi * rat_of_nat (length ys)"
    if "\<forall>x \<in> set ys. lo \<le> x \<and> x \<le> hi" for ys
    using that by (induction ys) (auto simp: algebra_simps intro: add_mono)
  from this [OF assms(5)] have "lo * ?n \<le> sum_list xs" "sum_list xs \<le> hi * ?n" by simp_all
  moreover have "0 < ?n" using assms(4) by simp
  ultimately have "lo \<le> sum_list xs / ?n" "sum_list xs / ?n \<le> hi"
    by (simp_all add: pos_le_divide_eq pos_divide_le_eq)
  from monoD [OF assms(1) this(1)] monoD [OF assms(1) this(2)] assms(2,3) show ?thesis
    by (simp add: mean_def)
qed

lemma estimate_within:
  assumes r: "mono (round_float ar)" "round_float ar lo = lo" "round_float ar hi = hi"
    and g: "groups_within lo hi d" and e: "estimate ar name d w n seed resamples limits = Inr m"
    and v: "me_estimate m = Some v"
  shows "lo \<le> v \<and> v \<le> hi"
proof -
  have ne: "concat (dict_values d) \<noteq> []"
    and val: "v = (if w then mean ar (map (mean ar) (dict_values d)) else mean ar (concat (dict_values d)))"
    using estimate_Inr(2) [OF e] g v by (auto simp: groups_within_def split: if_splits)
  have "\<forall>x \<in> set (concat (dict_values d)). lo \<le> x \<and> x \<le> hi" using g by (fastforce simp: groups_within_def)
  from mean_within [OF r ne this]
  have flat: "lo \<le> mean ar (concat (dict_values d)) \<and> mean ar (concat (dict_values d)) \<le> hi" .
  have "\<forall>x \<in> set (map (mean ar) (dict_values d)). lo \<le> x \<and> x \<le> hi"
  proof
    fix x
    assume "x \<in> set (map (mean ar) (dict_values d))"
    then obtain vs where "vs \<in> set (dict_values d)" "x = mean ar vs" by auto
    with g mean_within [OF r, of vs] show "lo \<le> x \<and> x \<le> hi" by (auto simp: groups_within_def)
  qed
  moreover have "map (mean ar) (dict_values d) \<noteq> []" using ne by auto
  ultimately have "lo \<le> mean ar (map (mean ar) (dict_values d)) \<and> mean ar (map (mean ar) (dict_values d)) \<le> hi"
    using mean_within [OF r] by blast
  with flat val show ?thesis by simp
qed

lemma group_by_within: "(\<And>x. x \<in> set xs \<Longrightarrow> lo \<le> g x \<and> g x \<le> hi) \<Longrightarrow> groups_within lo hi (group_by f g xs)"
  using keys_group_by [of f g xs] by (auto simp: groups_within_def in_group_by)

lemma within_lookup:
  "distinct (keys d) \<Longrightarrow> groups_within lo hi d \<longleftrightarrow>
     (\<forall>k vs. map_of d k = Some vs \<longrightarrow> vs \<noteq> [] \<and> (\<forall>v \<in> set vs. lo \<le> v \<and> v \<le> hi))"
  unfolding groups_within_def by (metis values_iff)

lemma append_within:
  assumes "groups_within lo hi d" "lo \<le> v" "v \<le> hi"
  shows "groups_within lo hi (dict_append k v d)"
proof -
  have d: "distinct (keys d)" using assms(1) by (simp add: groups_within_def)
  then have "distinct (keys (dict_append k v d))" by (auto simp: dict_append_def)
  with assms d show ?thesis
    by (auto simp: within_lookup dict_append_def dict_simps split: option.splits)
qed

lemma units_rates:
  assumes "map_of (units_for p trials ks) k = Some (family, x, y)"
  shows "0 \<le> x" "x \<le> 1" "y = Some z \<Longrightarrow> 0 \<le> z \<and> z \<le> 1"
proof -
  from map_of_SomeD [OF assms] have "(family, x, y) = unit_of (unit_results p trials k)"
    by (auto simp: units_for_def)
  then have "x = rate (unit_resolved p trials k)"
    "y = (if unit_measured p trials k then Some (rate (unit_resolved p trials k)) else None)"
    using unit_of_values [of p trials k] by (metis fst_conv snd_conv)+
  then show "0 \<le> x" "x \<le> 1" "y = Some z \<Longrightarrow> 0 \<le> z \<and> z \<le> 1"
    by (auto simp: rate_def split: if_splits)
qed

lemma paired_groups_within:
  assumes "paired_groups (units_for p trials ks) left right = Inr (all, valid)"
  shows "groups_within (- 1) 1 all \<and> groups_within (- 1) 1 valid"
proof -
  let ?P = "\<lambda>gs. groups_within (- 1) 1 (fst gs) \<and> groups_within (- 1) 1 (snd gs)"
  have "?P (all, valid)"
    using assms [unfolded paired_groups_def]
  proof (rule fold_result_invariant [where P = ?P])
    show "?P ([], [])" by (simp add: groups_within_def)
  next
    fix gs cell gs'
    assume gs: "?P gs" and step: "pair_cell (units_for p trials ks) left right gs cell = Inr gs'"
    obtain task seed where cell: "cell = (task, seed)" by (cases cell)
    from step obtain lf la lv rf ra rv where u:
      "map_of (units_for p trials ks) (task, seed, left) = Some (lf, la, lv)"
      "map_of (units_for p trials ks) (task, seed, right) = Some (rf, ra, rv)"
      and gs': "gs' = (dict_append lf (ra - la) (fst gs),
        (case (lv, rv) of (Some l, Some r) \<Rightarrow> dict_append lf (r - l) (snd gs) | _ \<Rightarrow> snd gs))"
      unfolding cell pair_cell_def by (auto simp: raise_if_eq_Inr split: option.splits)
    note l = units_rates [OF u(1)] and r = units_rates [OF u(2)]
    have "groups_within (- 1) 1 (fst gs')"
      using append_within gs l(1,2) r(1,2) by (simp add: gs')
    moreover have "groups_within (- 1) 1 (snd gs')"
    proof (cases lv)
      case (Some x)
      show ?thesis
      proof (cases rv)
        case (Some y)
        have "0 \<le> x \<and> x \<le> 1" "0 \<le> y \<and> y \<le> 1" using l(3) [OF \<open>lv = Some x\<close>] r(3) [OF Some] by auto
        then show ?thesis using append_within gs Some \<open>lv = Some x\<close> by (simp add: gs')
      qed (use gs \<open>lv = Some x\<close> in \<open>simp add: gs'\<close>)
    qed (use gs in \<open>simp add: gs'\<close>)
    ultimately show "?P gs'" ..
  qed
  then show ?thesis by simp
qed

lemma paired_names:
  assumes "paired_metrics ar seed resamples (units_for p trials ks) (i, left, right) = Inr ms" "m \<in> set ms"
  shows "\<exists>all valid d name w n s lims. paired_groups (units_for p trials ks) left right = Inr (all, valid)
    \<and> d \<in> {all, valid} \<and> estimate ar (''paired/'' @ name) d w n s resamples lims = Inr m"
proof -
  obtain all valid where g: "paired_groups (units_for p trials ks) left right = Inr (all, valid)"
    using assms(1) by (auto simp: paired_metrics_def bind_result_eq_Inr)
  let ?jobs = "[(population, groups, limits, w).
           (population, groups, limits) \<leftarrow>
             [(''all_assigned'', all, STATISTICS_LIMITATIONS),
              (''valid_only'', valid,
               STATISTICS_LIMITATIONS @ [''pairs with either invalid trial excluded from this denominator''])],
           w \<leftarrow> [(0, False), (1, True)]]"
  let ?f = "\<lambda>(population, groups, population_limits, weighting_index, family_weighted).
          estimate ar (''paired/'' @ arm_value right @ ''-'' @ arm_value left @ ''/''
              @ (if family_weighted then ''family_weighted'' else ''task_weighted'') @ ''/'' @ population)
            groups family_weighted
            (if family_weighted then int (length groups) else int (length (concat (dict_values groups))))
            (seed + 100 + int i * 4 + weighting_index) resamples population_limits"
  have "map_result ?f ?jobs = Inr ms" using assms(1) g by (simp only: paired_metrics_def prod.case bind_result_Inr)
  from map_result_mem(2) [OF this assms(2)] obtain y where y: "y \<in> set ?jobs" "?f y = Inr m" by blast
  obtain population d lims wi w where e: "y = (population, d, lims, wi, w)" by (cases y)
  have "d \<in> {all, valid}" using y(1) unfolding e by auto
  with g y(2) show ?thesis unfolding e prod.case by blast
qed

text \<open>
  C21: every estimate is in range: with a rounding that is monotone and exact on -1, 0 and 1, the
  rates of an arm lie in [0, 1] and the paired differences in [-1, 1].
\<close>

theorem estimates_in_range:
  assumes "valid_preregistration p" "rounding_ok ar"
    and "summarize_trials ar roster p trials seed resamples = Inr st"
    and "m \<in> set (es_metrics st)" "me_estimate m = Some v"
  shows "- 1 \<le> v \<and> v \<le> 1 \<and> (starts_with (metric_label p) (me_name m) \<longrightarrow> 0 \<le> v)"
proof -
  note r = assms(2) [unfolded rounding_ok_def]
  obtain ks per_arm paired where
    per: "map_result (\<lambda>(i, arm). arm_metrics ar p seed resamples (i, arm) (arm_units arm (units_for p trials ks)))
       (enumerate 0 (sort_key arm_value (map ap_arm (pr_arms p)))) = Inr per_arm"
    and pair: "map_result (paired_metrics ar seed resamples (units_for p trials ks)) (enumerate 0 (pr_comparisons p)) = Inr paired"
    and ms: "es_metrics st = concat per_arm @ concat paired"
    by (rule summarize_Inr [OF assms(1,3)]) blast
  from assms(4) ms consider ys where "ys \<in> set per_arm" "m \<in> set ys" | ys where "ys \<in> set paired" "m \<in> set ys"
    by auto
  then show ?thesis
  proof cases
    case 1
    from map_result_mem(2) [OF per 1(1)] obtain i arm where
      "arm_metrics ar p seed resamples (i, arm) (arm_units arm (units_for p trials ks)) = Inr ys" by auto
    then obtain name d n s lims where e: "estimate ar name d False n s resamples lims = Inr m"
      and d: "d \<in> {all_groups (arm_units arm (units_for p trials ks)), valid_groups (arm_units arm (units_for p trials ks))}"
      using 1(2) by (auto simp: arm_metrics_def Let_def bind_result_eq_Inr)
    have "0 \<le> fst (snd u) \<and> fst (snd u) \<le> 1 \<and> (\<forall>z. snd (snd u) = Some z \<longrightarrow> 0 \<le> z \<and> z \<le> 1)"
      if "u \<in> set (arm_units arm (units_for p trials ks))" for u
      using that by (auto simp: arm_units_for unit_of_values rate_def split: if_splits)
    then have "groups_within 0 1 d"
      using d by (auto simp: all_groups_def valid_groups_def intro!: group_by_within)
    from estimate_within [OF _ _ _ this e assms(5)] r show ?thesis by auto
  next
    case 2
    from map_result_mem(2) [OF pair 2(1)] obtain i left right where
      "paired_metrics ar seed resamples (units_for p trials ks) (i, left, right) = Inr ys" by auto
    from paired_names [OF this 2(2)] obtain all valid d name w n s lims where g:
      "paired_groups (units_for p trials ks) left right = Inr (all, valid)" "d \<in> {all, valid}"
      and e: "estimate ar (''paired/'' @ name) d w n s resamples lims = Inr m" by blast
    have d: "groups_within (- 1) 1 d" using paired_groups_within [OF g(1)] g(2) by auto
    then have "distinct (keys d)" by (simp add: groups_within_def)
    from estimate_Inr(1) [OF e this] have "me_name m = ''paired/'' @ name" .
    then have "\<not> starts_with (metric_label p) (me_name m)"
      by (auto simp: metric_label_def starts_with_iff)
    with estimate_within [OF _ _ _ d e assms(5)] r show ?thesis by auto
  qed
qed

theorem estimates_in_range_witness:
  "\<exists>m \<in> set (es_metrics sample_statistics). \<exists>v. me_estimate m = Some v \<and> - 1 \<le> v \<and> v \<le> 1"
proof -
  let ?m = "hd (es_metrics sample_statistics)"
  have "es_metrics sample_statistics \<noteq> [] \<and> me_estimate ?m = Some 0" by code_simp
  then have m: "?m \<in> set (es_metrics sample_statistics)" "me_estimate ?m = Some 0" by simp_all
  have "rounding_ok sample_arithmetic" by (simp add: rounding_ok_def sample_arithmetic_def mono_def)
  from estimates_in_range [OF sample_preregistration_valid this sample_summary m] m show ?thesis by blast
qed

end
