(* ===== verification/Base64.thy ===== *)
theory Base64
  imports Prelude
begin

text \<open>
  The base64 codec the object store and the registry use (\<^verbatim>\<open>base64.b64encode\<close> and
  \<^verbatim>\<open>base64.b64decode(..., validate=True)\<close> of the Python library): byte strings to texts over the
  standard alphabet with padding, and back. Decoding is only used where re-encoding must give the
  same text, so what it does on texts that are not canonical is immaterial beyond rejecting or
  returning something.
\<close>

definition ALPHABET :: string where
  "ALPHABET = ''ABCDEFGHIJKLMNOPQRSTUVWXYZabcdefghijklmnopqrstuvwxyz0123456789+/''"

definition sextet :: "nat \<Rightarrow> char" where
  "sextet n = ALPHABET ! (n mod 64)"

definition byte :: "char \<Rightarrow> nat" where
  "byte c = of_char c"

fun b64encode :: "string \<Rightarrow> string" where
  "b64encode [] = []"
| "b64encode [a] =
     [sextet (byte a div 4), sextet (byte a mod 4 * 16), CHR ''='', CHR ''='']"
| "b64encode [a, b] =
     [sextet (byte a div 4), sextet (byte a mod 4 * 16 + byte b div 16), sextet (byte b mod 16 * 4), CHR ''='']"
| "b64encode (a # b # c # rest) =
     sextet (byte a div 4) # sextet (byte a mod 4 * 16 + byte b div 16)
     # sextet (byte b mod 16 * 4 + byte c div 64) # sextet (byte c mod 64) # b64encode rest"

definition sextet_value :: "char \<Rightarrow> nat option" where
  "sextet_value c = (let n = length (takeWhile (\<lambda>d. d \<noteq> c) ALPHABET) in if n < 64 then Some n else None)"

fun b64decode :: "string \<Rightarrow> string option" where
  "b64decode [] = Some []"
| "b64decode (w # x # y # z # rest) =
     (case (sextet_value w, sextet_value x) of
        (Some i, Some j) \<Rightarrow>
          if rest = [] \<and> z = CHR ''='' \<and> y = CHR ''='' then Some [char_of (i * 4 + j div 16)]
          else (case sextet_value y of
                  None \<Rightarrow> None
                | Some k \<Rightarrow>
                    if rest = [] \<and> z = CHR ''=''
                    then Some [char_of (i * 4 + j div 16), char_of (j mod 16 * 16 + k div 4)]
                    else (case (sextet_value z, b64decode rest) of
                            (Some l, Some s) \<Rightarrow>
                              Some (char_of (i * 4 + j div 16) # char_of (j mod 16 * 16 + k div 4)
                                    # char_of (k mod 4 * 64 + l) # s)
                          | _ \<Rightarrow> None))
      | _ \<Rightarrow> None)"
| "b64decode _ = None"

lemma length_alphabet: "length ALPHABET = 64"
  by (simp add: ALPHABET_def)

lemma distinct_alphabet: "distinct ALPHABET"
  by (simp add: ALPHABET_def)

lemma byte_less: "byte c < 256"
  by (simp add: byte_def of_char_def)

lemma char_of_byte [simp]: "char_of (byte c) = c"
  by (simp add: byte_def)

lemma takeWhile_nth: "distinct xs \<Longrightarrow> n < length xs \<Longrightarrow> takeWhile (\<lambda>d. d \<noteq> xs ! n) xs = take n xs"
proof (induction xs arbitrary: n)
  case (Cons x xs)
  then show ?case by (cases n) auto
qed simp

lemma sextet_value_sextet [simp]: "sextet_value (sextet n) = Some (n mod 64)"
proof -
  have "n mod 64 < length ALPHABET" by (simp add: length_alphabet)
  from takeWhile_nth [OF distinct_alphabet this] show ?thesis
    by (simp add: sextet_value_def sextet_def Let_def length_alphabet)
qed

lemma sextet_padding [simp]: "sextet n \<noteq> CHR ''=''"
proof -
  have "n mod 64 < length ALPHABET" by (simp add: length_alphabet)
  then have "sextet n \<in> set ALPHABET" unfolding sextet_def by (rule nth_mem)
  moreover have "CHR ''='' \<notin> set ALPHABET" by (simp add: ALPHABET_def)
  ultimately show ?thesis by auto
qed

lemma sextet_parts:
  assumes "a < 256" "b < 256" "c < (256::nat)"
  shows "a div 4 mod 64 = a div 4" "(a mod 4 * 16 + b div 16) mod 64 = a mod 4 * 16 + b div 16"
    "(b mod 16 * 4 + c div 64) mod 64 = b mod 16 * 4 + c div 64" "a mod 4 * 16 mod 64 = a mod 4 * 16"
    "b mod 16 * 4 mod 64 = b mod 16 * 4"
  using assms by (auto simp: mod_less div_less)

lemma byte_parts [simp]:
  "byte b div 16 div 16 = 0" "byte b div 16 mod 16 = byte b div 16"
  "byte b div 64 div 4 = 0" "byte b div 64 mod 4 = byte b div 64"
  using byte_less [of b] by (simp_all add: div_less less_mult_imp_div_less)

lemmas sextet_bytes = sextet_parts [OF byte_less byte_less byte_less]

theorem b64decode_encode: "b64decode (b64encode s) = Some s"
  by (induction s rule: b64encode.induct) (simp_all add: sextet_bytes)

lemma b64encode_inject: "b64encode s = b64encode t \<Longrightarrow> s = t"
  by (metis b64decode_encode option.inject)

text \<open>The shape of an encoding: whole quads, padding only at the end, and the size determined by both.\<close>

lemma b64encode_shape:
  "\<exists>body pad. b64encode s = body @ replicate pad (CHR ''='') \<and> set body \<subseteq> set ALPHABET \<and> pad \<le> 2
     \<and> length (b64encode s) mod 4 = 0 \<and> length (b64encode s) div 4 * 3 = length s + pad"
proof -
  have al: "sextet n \<in> set ALPHABET" for n
    unfolding sextet_def by (rule nth_mem) (simp add: length_alphabet)
  show ?thesis
  proof (induction s rule: b64encode.induct)
    case 1
    show ?case by (intro exI [of _ "[]"] exI [of _ 0]) simp
  next
    case (2 a)
    show ?case
      by (intro exI [of _ "[sextet (byte a div 4), sextet (byte a mod 4 * 16)]"] exI [of _ 2])
        (simp add: al numeral_2_eq_2)
  next
    case (3 a b)
    show ?case
      by (intro exI [of _ "[sextet (byte a div 4), sextet (byte a mod 4 * 16 + byte b div 16), sextet (byte b mod 16 * 4)]"]
          exI [of _ 1]) (simp add: al)
  next
    case (4 a b c rest)
    then obtain body pad where b: "b64encode rest = body @ replicate pad (CHR ''='')" "set body \<subseteq> set ALPHABET"
      "pad \<le> 2" "length (b64encode rest) mod 4 = 0" "length (b64encode rest) div 4 * 3 = length rest + pad"
      by (elim exE conjE) rule
    let ?q = "[sextet (byte a div 4), sextet (byte a mod 4 * 16 + byte b div 16),
      sextet (byte b mod 16 * 4 + byte c div 64), sextet (byte c mod 64)]"
    have "length (b64encode (a # b # c # rest)) = 4 + length (b64encode rest)" by simp
    with b show ?case by (intro exI [of _ "?q @ body"] exI [of _ pad]) (simp add: al)
  qed
qed

end
