(* ===== verification/ArtifactStore.thy ===== *)
theory ArtifactStore
  imports Documents ContractRuns Base64
begin

text \<open>
  \<^verbatim>\<open>artifacts/store.py\<close>: the immutable object store. An object is the canonical JSON of its envelope
  under the file name of its digest; roles decide which visibilities may be read and published; a
  public or authoring artifact may not mention references of other visibilities. The directory is a
  dictionary from file names to bytes: the temporary file of \<open>_put\<close> is linked or discarded within the
  call, and the descriptor walk that refuses symbolic links is not modelled. \<open>codec\<close> holds what comes
  from outside: \<^verbatim>\<open>json.loads\<close> with the duplicate-key hook, and pydantic's dump and validation of the
  artifact models.
\<close>

section \<open>Roles\<close>

datatype artifact_error =
    AccessDenied actor_role visibility bool
  | ArtifactIntegrityError string
  | ArtifactNotFound string
  | ArtifactSizeLimitError string int int
  | LimitValueError string

definition ACCESS :: "actor_role \<Rightarrow> visibility set" where
  "ACCESS role = (case role of
      R_SOLVER \<Rightarrow> {V_PUBLIC}
    | R_AUTHOR \<Rightarrow> {V_PUBLIC, V_AUTHORING}
    | R_CONTROLLER \<Rightarrow> set every_visibility
    | R_TRAINER \<Rightarrow> {V_PUBLIC, V_TRAINING}
    | R_EVALUATOR \<Rightarrow> {V_PUBLIC, V_EVALUATION}
    | R_REVIEWER \<Rightarrow> set every_visibility)"

definition authorize :: "actor_role \<Rightarrow> visibility \<Rightarrow> bool \<Rightarrow> artifact_error + unit" where
  "authorize role vis write =
     raise_if (vis \<notin> ACCESS role \<or> write \<and> role = R_REVIEWER) (AccessDenied role vis write) (Inr ())"

section \<open>Objects\<close>

record codec =
  loads :: "string \<Rightarrow> json option"
  dump :: "artifact \<Rightarrow> json"
  load_model :: "string \<Rightarrow> string \<Rightarrow> artifact option"

type_synonym objects = "string dict"

definition validate_limit :: "string \<Rightarrow> int option \<Rightarrow> artifact_error + unit" where
  "validate_limit name limit =
     raise_if (\<not> option_all (\<lambda>n. 0 \<le> n) limit) (LimitValueError (name @ '' must be nonnegative'')) (Inr ())"

definition decode :: "runtime \<Rightarrow> codec \<Rightarrow> string \<Rightarrow> artifact_error + json" where
  "decode rt cd data =
     (case loads cd data of
        None \<Rightarrow> Inl (ArtifactIntegrityError ''invalid canonical JSON'')
      | Some value \<Rightarrow>
          raise_if (canonical_json rt value \<noteq> data)
            (ArtifactIntegrityError ''noncanonical serialized object'') (Inr value))"

definition check_ref :: "artifact_ref \<Rightarrow> artifact_error + artifact_ref" where
  "check_ref ref = raise_if (\<not> valid_ref ref) (ArtifactIntegrityError ''invalid artifact reference'') (Inr ref)"

definition REF_KEYS :: "string list" where
  "REF_KEYS = [''sha256'', ''kind'', ''schema_version'', ''visibility'', ''encoding'']"

definition is_ref_object :: "json dict \<Rightarrow> bool" where
  "is_ref_object kvs \<longleftrightarrow> set REF_KEYS \<subseteq> set (keys kvs)"

definition permitted_value :: "visibility set \<Rightarrow> json option \<Rightarrow> bool" where
  "permitted_value permitted v = (\<exists>p \<in> permitted. v = Some (JStr (visibility_value p)))"

text \<open>\<open>_public_refs\<close> raises at the first reference object outside the permitted visibilities.\<close>

fun public_refs :: "visibility set \<Rightarrow> json \<Rightarrow> bool" where
  "public_refs permitted (JObj kvs) =
     ((is_ref_object kvs \<longrightarrow> permitted_value permitted (map_of kvs ''visibility''))
      \<and> list_all (public_refs permitted) (map snd kvs))"
| "public_refs permitted (JArr xs) = list_all (public_refs permitted) xs"
| "public_refs permitted _ = True"

definition check_exposure :: "visibility \<Rightarrow> json \<Rightarrow> artifact_error + unit" where
  "check_exposure vis payload =
     raise_if (vis = V_PUBLIC \<and> \<not> public_refs {V_PUBLIC} payload
         \<or> vis = V_AUTHORING \<and> \<not> public_refs {V_PUBLIC, V_AUTHORING} payload)
       (ArtifactIntegrityError ''artifact exposes a restricted reference'') (Inr ())"

definition envelope :: "string \<Rightarrow> int \<Rightarrow> visibility \<Rightarrow> encoding \<Rightarrow> json \<Rightarrow> json" where
  "envelope kind version vis enc payload = JObj
     [(''kind'', JStr kind), (''schema_version'', JInt version), (''visibility'', JStr (visibility_value vis)),
      (''encoding'', JStr (encoding_value enc)), (''payload'', payload)]"

definition object_name :: "digest \<Rightarrow> string" where
  "object_name sha = sha @ ''.json''"

section \<open>Writing\<close>

text \<open>\<open>os.link\<close> creates the object if it is absent; a present object must have the same bytes.\<close>

definition link_object :: "objects \<Rightarrow> string \<Rightarrow> string \<Rightarrow> artifact_error + objects" where
  "link_object objs name data =
     (case map_of objs name of
        None \<Rightarrow> Inr (dict_put name data objs)
      | Some existing \<Rightarrow>
          raise_if (existing \<noteq> data)
            (ArtifactIntegrityError ''existing object differs: corruption or collision'') (Inr objs))"

definition put ::
  "runtime \<Rightarrow> actor_role \<Rightarrow> objects \<Rightarrow> string \<Rightarrow> visibility \<Rightarrow> encoding \<Rightarrow> json \<Rightarrow> int
     \<Rightarrow> artifact_error + artifact_ref \<times> objects" where
  "put rt role objs kind vis enc payload version =
     (let template = \<lparr>ref_sha256 = replicate 64 CHR ''0'', ref_kind = kind, ref_schema_version = version,
                      ref_visibility = vis, ref_encoding = enc\<rparr> in
      raise_if (\<not> valid_ref template) (LimitValueError ''invalid artifact reference'')
      (bind_result (authorize role vis True) (\<lambda>_.
       let data = canonical_json rt (envelope kind version vis enc payload);
           sha = sha256 rt data in
       raise_if (\<not> is_digest sha) (LimitValueError ''invalid artifact reference'')
       (bind_result (link_object objs (object_name sha) data) (\<lambda>objs'.
        Inr (template\<lparr>ref_sha256 := sha\<rparr>, objs'))))))"

definition put_bytes ::
  "runtime \<Rightarrow> actor_role \<Rightarrow> objects \<Rightarrow> string \<Rightarrow> string \<Rightarrow> visibility
     \<Rightarrow> artifact_error + artifact_ref \<times> objects" where
  "put_bytes rt role objs data kind vis =
     raise_if (kind \<in> set ARTIFACT_TYPES)
       (ArtifactIntegrityError ''typed artifact kinds require put_artifact'')
       (put rt role objs kind vis Enc_bytes (JStr (b64encode data)) 1)"

definition put_artifact ::
  "runtime \<Rightarrow> codec \<Rightarrow> actor_role \<Rightarrow> objects \<Rightarrow> artifact \<Rightarrow> artifact_error + artifact_ref \<times> objects" where
  "put_artifact rt cd role objs a =
     raise_if (\<not> valid_artifact a) (ArtifactIntegrityError ''invalid artifact model'')
     (let base = artifact_base a; payload = dump cd a in
      bind_result (check_exposure (am_visibility base) payload) (\<lambda>_.
      put rt role objs (am_kind base) (am_visibility base) Enc_json payload (am_schema_version base)))"

section \<open>Reading\<close>

definition read_file :: "objects \<Rightarrow> string \<Rightarrow> int option \<Rightarrow> artifact_error + string" where
  "read_file objs name cap =
     (case map_of objs name of
        None \<Rightarrow> Inl (ArtifactNotFound name)
      | Some data \<Rightarrow>
          (case cap of
             None \<Rightarrow> Inr data
           | Some limit \<Rightarrow>
               raise_if (int (length data) > limit)
                 (ArtifactSizeLimitError ''max_envelope_bytes'' limit (int (length data))) (Inr data)))"

definition envelope_payload :: "artifact_ref \<Rightarrow> json \<Rightarrow> artifact_error + json" where
  "envelope_payload ref value =
     (case value of
        JObj kvs \<Rightarrow>
          raise_if (set (keys kvs) \<noteq> set [''kind'', ''schema_version'', ''visibility'', ''encoding'', ''payload''])
            (ArtifactIntegrityError ''invalid object envelope'')
          (raise_if (map_of kvs ''kind'' \<noteq> Some (JStr (ref_kind ref))
              \<or> map_of kvs ''schema_version'' \<noteq> Some (JInt (ref_schema_version ref))
              \<or> map_of kvs ''visibility'' \<noteq> Some (JStr (visibility_value (ref_visibility ref)))
              \<or> map_of kvs ''encoding'' \<noteq> Some (JStr (encoding_value (ref_encoding ref))))
            (ArtifactIntegrityError ''reference metadata mismatch'')
          (case map_of kvs ''payload'' of
             None \<Rightarrow> Inl (ArtifactIntegrityError ''invalid object envelope'')
           | Some payload \<Rightarrow> Inr payload))
      | _ \<Rightarrow> Inl (ArtifactIntegrityError ''invalid object envelope''))"

definition get_payload ::
  "runtime \<Rightarrow> codec \<Rightarrow> actor_role \<Rightarrow> objects \<Rightarrow> artifact_ref \<Rightarrow> int option \<Rightarrow> artifact_error + json" where
  "get_payload rt cd role objs ref cap =
     bind_result (check_ref ref) (\<lambda>ref.
     bind_result (authorize role (ref_visibility ref) False) (\<lambda>_.
     bind_result (read_file objs (object_name (ref_sha256 ref)) cap) (\<lambda>data.
     raise_if (sha256 rt data \<noteq> ref_sha256 ref) (ArtifactIntegrityError ''content digest mismatch'')
     (bind_result (decode rt cd data) (envelope_payload ref)))))"

definition padding :: "string \<Rightarrow> nat" where
  "padding payload =
     (if drop (length payload - 2) payload = ''=='' then 2
      else if drop (length payload - 1) payload = ''='' then 1 else 0)"

definition bytes_of_payload :: "json \<Rightarrow> int option \<Rightarrow> artifact_error + string" where
  "bytes_of_payload payload cap =
     (case payload of
        JStr text \<Rightarrow>
          raise_if (\<not> list_all (\<lambda>c. byte c < 128) text \<or> length text mod 4 \<noteq> 0)
            (ArtifactIntegrityError ''invalid byte encoding'')
          (let pad = padding text; size = int (length text div 4 * 3) - int pad in
           raise_if (length (takeWhile (\<lambda>c. c \<noteq> CHR ''='') text) \<noteq> length text - pad)
             (ArtifactIntegrityError ''invalid byte encoding'')
           (raise_if (\<not> option_all (\<lambda>limit. size \<le> limit) cap)
             (ArtifactSizeLimitError ''max_payload_bytes'' (the cap) size)
           (case b64decode text of
              None \<Rightarrow> Inl (ArtifactIntegrityError ''invalid byte encoding'')
            | Some data \<Rightarrow>
                raise_if (b64encode data \<noteq> text) (ArtifactIntegrityError ''invalid byte encoding'') (Inr data))))
      | _ \<Rightarrow> Inl (ArtifactIntegrityError ''invalid byte encoding''))"

definition get_bytes ::
  "runtime \<Rightarrow> codec \<Rightarrow> actor_role \<Rightarrow> objects \<Rightarrow> artifact_ref \<Rightarrow> int option \<Rightarrow> int option
     \<Rightarrow> artifact_error + string" where
  "get_bytes rt cd role objs ref envelope_cap payload_cap =
     bind_result (validate_limit ''max_envelope_bytes'' envelope_cap) (\<lambda>_.
     bind_result (validate_limit ''max_payload_bytes'' payload_cap) (\<lambda>_.
     bind_result (check_ref ref) (\<lambda>ref.
     raise_if (ref_encoding ref \<noteq> Enc_bytes \<or> ref_kind ref \<in> set ARTIFACT_TYPES)
       (ArtifactIntegrityError ''reference is not an opaque byte object'')
     (raise_if (ref_schema_version ref \<noteq> 1) (ArtifactIntegrityError ''unsupported bytes schema version'')
     (bind_result (get_payload rt cd role objs ref envelope_cap) (\<lambda>payload.
      bytes_of_payload payload payload_cap))))))"

definition get_artifact ::
  "runtime \<Rightarrow> codec \<Rightarrow> actor_role \<Rightarrow> objects \<Rightarrow> artifact_ref \<Rightarrow> int option \<Rightarrow> artifact_error + artifact" where
  "get_artifact rt cd role objs ref cap =
     bind_result (validate_limit ''max_envelope_bytes'' cap) (\<lambda>_.
     bind_result (check_ref ref) (\<lambda>ref.
     raise_if (ref_encoding ref \<noteq> Enc_json \<or> ref_kind ref \<notin> set ARTIFACT_TYPES)
       (ArtifactIntegrityError ''reference is not a known typed artifact'')
     (raise_if (Some (ref_schema_version ref) \<noteq> ARTIFACT_SCHEMA_VERSIONS (ref_kind ref))
       (ArtifactIntegrityError ''unsupported artifact schema version; revalidate and republish'')
     (bind_result (get_payload rt cd role objs ref cap) (\<lambda>payload.
      case load_model cd (ref_kind ref) (canonical_json rt payload) of
        None \<Rightarrow> Inl (ArtifactIntegrityError ''invalid artifact payload'')
      | Some a \<Rightarrow>
          let base = artifact_base a in
          raise_if (am_kind base \<noteq> ref_kind ref \<or> am_schema_version base \<noteq> ref_schema_version ref
              \<or> am_visibility base \<noteq> ref_visibility ref)
            (ArtifactIntegrityError ''artifact/envelope metadata mismatch'')
          (bind_result (check_exposure (am_visibility base) payload) (\<lambda>_. Inr a)))))))"

section \<open>What an accepted call guarantees\<close>

lemma authorize_Inr [simp]:
  "authorize role vis write = Inr u \<longleftrightarrow> vis \<in> ACCESS role \<and> (write \<longrightarrow> role \<noteq> R_REVIEWER)"
  by (auto simp: authorize_def raise_if_def)

lemma validate_limit_Inr [simp]: "validate_limit name limit = Inr u \<longleftrightarrow> option_all (\<lambda>n. 0 \<le> n) limit"
  by (simp add: validate_limit_def raise_if_def)

lemma check_ref_Inr [simp]: "check_ref ref = Inr r \<longleftrightarrow> r = ref \<and> valid_ref ref"
  by (auto simp: check_ref_def raise_if_def)

lemma check_exposure_Inr [simp]:
  "check_exposure vis payload = Inr u \<longleftrightarrow> (vis = V_PUBLIC \<longrightarrow> public_refs {V_PUBLIC} payload)
     \<and> (vis = V_AUTHORING \<longrightarrow> public_refs {V_PUBLIC, V_AUTHORING} payload)"
  by (auto simp: check_exposure_def raise_if_def)

lemma decode_Inr: "decode rt cd data = Inr v \<longleftrightarrow> loads cd data = Some v \<and> canonical_json rt v = data"
  by (auto simp: decode_def raise_if_def split: option.splits)

lemma read_file_Inr:
  "read_file objs name cap = Inr data \<longleftrightarrow> map_of objs name = Some data
     \<and> option_all (\<lambda>limit. int (length data) \<le> limit) cap"
  by (auto simp: read_file_def raise_if_def split: option.splits)

lemma link_object_Inr:
  "link_object objs name data = Inr objs' \<longleftrightarrow>
     (map_of objs name = None \<and> objs' = dict_put name data objs)
     \<or> (map_of objs name = Some data \<and> objs' = objs)"
  by (auto simp: link_object_def raise_if_def split: option.splits)

lemma link_object_adds:
  "link_object objs name data = Inr objs' \<Longrightarrow> map_of objs' = (map_of objs)(name \<mapsto> data)
     \<and> (\<forall>n d. map_of objs n = Some d \<longrightarrow> map_of objs' n = Some d)"
  by (auto simp: link_object_Inr dict_simps)

lemma put_Inr:
  assumes "put rt role objs kind vis enc payload version = Inr (ref, objs')"
  shows "link_object objs (object_name (ref_sha256 ref)) (canonical_json rt (envelope kind version vis enc payload)) = Inr objs'"
    "ref = \<lparr>ref_sha256 = sha256 rt (canonical_json rt (envelope kind version vis enc payload)), ref_kind = kind,
       ref_schema_version = version, ref_visibility = vis, ref_encoding = enc\<rparr>"
    "valid_ref ref" "vis \<in> ACCESS role" "role \<noteq> R_REVIEWER"
  using assms by (auto simp: put_def Let_def result_simps valid_ref_def)

lemma get_payload_Inr:
  "get_payload rt cd role objs ref cap = Inr payload \<longleftrightarrow> valid_ref ref \<and> ref_visibility ref \<in> ACCESS role
     \<and> (\<exists>data value. map_of objs (object_name (ref_sha256 ref)) = Some data
          \<and> option_all (\<lambda>limit. int (length data) \<le> limit) cap
          \<and> sha256 rt data = ref_sha256 ref \<and> loads cd data = Some value \<and> canonical_json rt value = data
          \<and> envelope_payload ref value = Inr payload)"
  by (auto simp: get_payload_def result_simps read_file_Inr decode_Inr)

lemma get_bytes_Inr:
  "get_bytes rt cd role objs ref ecap pcap = Inr data \<longleftrightarrow>
     option_all (\<lambda>n. 0 \<le> n) ecap \<and> option_all (\<lambda>n. 0 \<le> n) pcap
     \<and> valid_ref ref \<and> ref_encoding ref = Enc_bytes \<and> ref_kind ref \<notin> set ARTIFACT_TYPES \<and> ref_schema_version ref = 1
     \<and> (\<exists>payload. get_payload rt cd role objs ref ecap = Inr payload \<and> bytes_of_payload payload pcap = Inr data)"
  by (auto simp: get_bytes_def result_simps)

lemma get_artifact_Inr:
  "get_artifact rt cd role objs ref cap = Inr a \<longleftrightarrow>
     option_all (\<lambda>n. 0 \<le> n) cap \<and> valid_ref ref \<and> ref_encoding ref = Enc_json
     \<and> ref_kind ref \<in> set ARTIFACT_TYPES \<and> Some (ref_schema_version ref) = ARTIFACT_SCHEMA_VERSIONS (ref_kind ref)
     \<and> (\<exists>payload. get_payload rt cd role objs ref cap = Inr payload
          \<and> load_model cd (ref_kind ref) (canonical_json rt payload) = Some a
          \<and> am_kind (artifact_base a) = ref_kind ref \<and> am_schema_version (artifact_base a) = ref_schema_version ref
          \<and> am_visibility (artifact_base a) = ref_visibility ref
          \<and> (ref_visibility ref = V_PUBLIC \<longrightarrow> public_refs {V_PUBLIC} payload)
          \<and> (ref_visibility ref = V_AUTHORING \<longrightarrow> public_refs {V_PUBLIC, V_AUTHORING} payload))"
  by (auto simp: get_artifact_def Let_def result_simps split: option.splits)

section \<open>An immutable store\<close>

text \<open>
  What the clients of the store rely on: writing never changes what can be read. Reading is partial,
  a write relates the store before and after an accepted call.
\<close>

locale immutable_store =
  fixes writes :: "'o \<Rightarrow> 'o \<Rightarrow> bool" and reads :: "'o \<Rightarrow> 'r \<Rightarrow> 'v option"
  assumes write_keeps: "writes s t \<Longrightarrow> reads s r = Some v \<Longrightarrow> reads t r = Some v"
begin

lemma later_keeps: "writes\<^sup>*\<^sup>* s t \<Longrightarrow> reads s r = Some v \<Longrightarrow> reads t r = Some v"
  by (induction rule: rtranclp_induct) (auto intro: write_keeps)

lemma reads_agree: "writes\<^sup>*\<^sup>* s t \<Longrightarrow> reads s r = Some v \<Longrightarrow> reads t r = Some w \<Longrightarrow> v = w"
  by (auto dest: later_keeps)

end

inductive stored :: "runtime \<Rightarrow> codec \<Rightarrow> objects \<Rightarrow> objects \<Rightarrow> bool" for rt cd where
  bytes: "put_bytes rt role objs data kind vis = Inr (ref, objs') \<Longrightarrow> stored rt cd objs objs'"
| artifact: "put_artifact rt cd role objs a = Inr (ref, objs') \<Longrightarrow> stored rt cd objs objs'"

definition read_bytes :: "runtime \<Rightarrow> codec \<Rightarrow> objects \<Rightarrow> actor_role \<times> artifact_ref \<Rightarrow> string option" where
  "read_bytes rt cd objs r =
     (case get_bytes rt cd (fst r) objs (snd r) None None of Inl _ \<Rightarrow> None | Inr d \<Rightarrow> Some d)"

definition read_artifact :: "runtime \<Rightarrow> codec \<Rightarrow> objects \<Rightarrow> actor_role \<times> artifact_ref \<Rightarrow> artifact option" where
  "read_artifact rt cd objs r =
     (case get_artifact rt cd (fst r) objs (snd r) None of Inl _ \<Rightarrow> None | Inr a \<Rightarrow> Some a)"

lemma put_keeps:
  "put rt role objs kind vis enc payload version = Inr (ref, objs') \<Longrightarrow> map_of objs n = Some d \<Longrightarrow> map_of objs' n = Some d"
  by (blast dest: put_Inr(1) link_object_adds)

lemma stored_keeps: "stored rt cd objs objs' \<Longrightarrow> map_of objs n = Some d \<Longrightarrow> map_of objs' n = Some d"
  by (induction rule: stored.induct)
    (auto simp: put_bytes_def put_artifact_def Let_def result_simps intro: put_keeps)

lemma payload_keeps:
  "stored rt cd objs objs' \<Longrightarrow> get_payload rt cd role objs ref cap = Inr p \<Longrightarrow> get_payload rt cd role objs' ref cap = Inr p"
  unfolding get_payload_Inr by (blast intro: stored_keeps)

lemma bytes_keep:
  "stored rt cd objs objs' \<Longrightarrow> get_bytes rt cd role objs ref ecap pcap = Inr d \<Longrightarrow>
     get_bytes rt cd role objs' ref ecap pcap = Inr d"
  unfolding get_bytes_Inr by (blast dest: payload_keeps)

lemma artifact_keeps:
  "stored rt cd objs objs' \<Longrightarrow> get_artifact rt cd role objs ref cap = Inr a \<Longrightarrow>
     get_artifact rt cd role objs' ref cap = Inr a"
  unfolding get_artifact_Inr by (blast dest: payload_keeps)

lemma read_Some [simp]:
  "read_bytes rt cd objs (role, ref) = Some d \<longleftrightarrow> get_bytes rt cd role objs ref None None = Inr d"
  "read_artifact rt cd objs (role, ref) = Some a \<longleftrightarrow> get_artifact rt cd role objs ref None = Inr a"
  by (auto simp: read_bytes_def read_artifact_def split: sum.splits)

interpretation byte_store: immutable_store "stored rt cd" "read_bytes rt cd" for rt cd
  by unfold_locales (auto simp: split_paired_all dest: bytes_keep)

interpretation artifact_store: immutable_store "stored rt cd" "read_artifact rt cd" for rt cd
  by unfold_locales (auto simp: split_paired_all dest: artifact_keeps)

section \<open>Reading an envelope back\<close>

fun unique_keys :: "json \<Rightarrow> bool" where
  "unique_keys (JObj kvs) = (distinct (keys kvs) \<and> list_all unique_keys (map snd kvs))"
| "unique_keys (JArr xs) = list_all unique_keys xs"
| "unique_keys _ = True"

text \<open>
  What \<^verbatim>\<open>json.loads\<close> does on the text of a value without repeated keys: it returns the value up to
  the order of the keys.
\<close>

definition parses :: "runtime \<Rightarrow> codec \<Rightarrow> json \<Rightarrow> bool" where
  "parses rt cd v \<longleftrightarrow> (\<exists>w. loads cd (canonical_json rt v) = Some w \<and> same_json w v \<and> unique_keys w)"

lemma sorted_json_atoms:
  "sorted_json x = JStr s \<longleftrightarrow> x = JStr s" "sorted_json x = JInt i \<longleftrightarrow> x = JInt i"
  by (cases x; simp)+

lemma sorted_lookup:
  assumes "distinct (keys kvs)"
  shows "map_of (sort_key fst (map (\<lambda>kv. (fst kv, sorted_json (snd kv))) kvs)) k = map_option sorted_json (map_of kvs k)"
proof -
  have "distinct (keys (map (\<lambda>kv. (fst kv, sorted_json (snd kv))) kvs))" using assms by (simp add: comp_def)
  then have "map_of (sort_key fst (map (\<lambda>kv. (fst kv, sorted_json (snd kv))) kvs)) k
      = map_of (map (\<lambda>(k, v). (k, sorted_json v)) kvs) k"
    by (simp add: map_of_sort_key case_prod_unfold)
  then show ?thesis by (simp add: map_of_map)
qed

lemma same_object:
  assumes "same_json w (JObj ys)" "unique_keys w" "distinct (keys ys)"
  obtains kvs where "w = JObj kvs" "set (keys kvs) = set (keys ys)"
    "\<And>k. map_option sorted_json (map_of kvs k) = map_option sorted_json (map_of ys k)"
proof -
  obtain kvs where w: "w = JObj kvs" using assms(1) by (cases w) (auto simp: same_json_def)
  have eq: "map_option sorted_json (map_of kvs k) = map_option sorted_json (map_of ys k)" for k
    using assms sorted_lookup [of kvs k] sorted_lookup [of ys k] by (simp add: w same_json_def)
  then have "map_of kvs k = None \<longleftrightarrow> map_of ys k = None" for k by (metis option.map_disc_iff)
  then have "set (keys kvs) = set (keys ys)" by (simp add: map_of_eq_None_iff set_eq_iff)
  from that [OF w this eq] show thesis .
qed

lemma same_envelope:
  assumes "same_json w (envelope kind version vis enc payload)" "unique_keys w"
  shows "\<exists>payload'. envelope_payload \<lparr>ref_sha256 = sha, ref_kind = kind, ref_schema_version = version,
       ref_visibility = vis, ref_encoding = enc\<rparr> w = Inr payload' \<and> same_json payload' payload \<and> unique_keys payload'"
proof -
  let ?ys = "[(''kind'', JStr kind), (''schema_version'', JInt version), (''visibility'', JStr (visibility_value vis)),
      (''encoding'', JStr (encoding_value enc)), (''payload'', payload)]"
  obtain kvs where w: "w = JObj kvs" "set (keys kvs) = set (keys ?ys)"
    "\<And>k. map_option sorted_json (map_of kvs k) = map_option sorted_json (map_of ?ys k)"
    using same_object [of w ?ys] assms by (auto simp: envelope_def)
  have f: "map_of kvs ''kind'' = Some (JStr kind)" "map_of kvs ''schema_version'' = Some (JInt version)"
    "map_of kvs ''visibility'' = Some (JStr (visibility_value vis))"
    "map_of kvs ''encoding'' = Some (JStr (encoding_value enc))"
    using w(3) [of "''kind''"] w(3) [of "''schema_version''"] w(3) [of "''visibility''"] w(3) [of "''encoding''"]
    by (auto simp: sorted_json_atoms)
  obtain payload' where p: "map_of kvs ''payload'' = Some payload'" "sorted_json payload' = sorted_json payload"
    using w(3) [of "''payload''"] by auto
  have "unique_keys payload'"
    using assms(2) map_of_SomeD [OF p(1)] by (auto simp: w list_all_iff)
  with f p w show ?thesis by (simp add: envelope_payload_def raise_if_def same_json_def)
qed

lemma put_payload_reads:
  assumes f: "float_text_ok rt" and p: "put rt role objs kind vis enc payload version = Inr (ref, objs')"
    and c: "parses rt cd (envelope kind version vis enc payload)" and r: "vis \<in> ACCESS reader"
  shows "\<exists>payload'. get_payload rt cd reader objs' ref None = Inr payload'
    \<and> same_json payload' payload \<and> unique_keys payload'"
proof -
  let ?v = "envelope kind version vis enc payload"
  note put = put_Inr [OF p]
  have "map_of objs' (object_name (ref_sha256 ref)) = Some (canonical_json rt ?v)"
    using link_object_adds [OF put(1)] by simp
  moreover obtain w where w: "loads cd (canonical_json rt ?v) = Some w" "same_json w ?v" "unique_keys w"
    using c by (auto simp: parses_def)
  moreover have "canonical_json rt w = canonical_json rt ?v" using w(2) canonical_json_eq_iff [OF f] by blast
  moreover obtain payload' where "envelope_payload ref w = Inr payload'" "same_json payload' payload" "unique_keys payload'"
    using same_envelope [OF w(2,3), of "ref_sha256 ref"] put(2) by auto
  moreover have "sha256 rt (canonical_json rt ?v) = ref_sha256 ref" "ref_visibility ref = vis" using put(2) by simp_all
  ultimately show ?thesis using put(3) r unfolding get_payload_Inr by auto
qed

lemma alphabet_ascii: "list_all (\<lambda>c. c \<noteq> CHR ''='' \<and> byte c < 128) ALPHABET"
  by code_simp

lemma padding_of:
  assumes "t = body @ replicate pad (CHR ''='')" "pad \<le> 2" "length t mod 4 = 0"
    and body: "\<And>c. c \<in> set body \<Longrightarrow> c \<noteq> CHR ''=''"
  shows "padding t = pad"
proof (cases "body = []")
  case True
  then show ?thesis using assms by (cases pad) (auto simp: padding_def)
next
  case False
  then obtain as c where c: "body = as @ [c]" by (cases body rule: rev_cases) auto
  then have "c \<noteq> CHR ''=''" using body by auto
  then show ?thesis using assms(1,2) by (auto simp: padding_def c le_Suc_eq numeral_2_eq_2)
qed

lemma bytes_of_encoded:
  assumes "option_all (\<lambda>limit. int (length data) \<le> limit) cap"
  shows "bytes_of_payload (JStr (b64encode data)) cap = Inr data"
proof -
  let ?t = "b64encode data"
  obtain body pad where b: "?t = body @ replicate pad (CHR ''='')" "set body \<subseteq> set ALPHABET" "pad \<le> 2"
      "length ?t mod 4 = 0" "length ?t div 4 * 3 = length data + pad"
    using b64encode_shape [of data] by (elim exE conjE) rule
  have body: "\<forall>c \<in> set body. c \<noteq> CHR ''='' \<and> byte c < 128"
    using b(2) alphabet_ascii unfolding list_all_iff by blast
  moreover have "byte (CHR ''='') < 128" by (simp add: byte_def)
  ultimately have "list_all (\<lambda>c. byte c < 128) ?t" by (simp add: b(1) list_all_iff set_replicate_conv_if)
  moreover have "takeWhile (\<lambda>c. c \<noteq> CHR ''='') ?t = body"
    using body by (cases pad) (auto simp: b(1) takeWhile_append2 takeWhile_eq_all_conv)
  moreover have "padding ?t = pad" by (rule padding_of [OF b(1,3,4)]) (use body in blast)
  ultimately show ?thesis
    using assms b(1,4,5) b64decode_encode [of data] by (auto simp: bytes_of_payload_def Let_def raise_if_def)
qed

lemma public_refs_sorted: "unique_keys j \<Longrightarrow> public_refs P (sorted_json j) = public_refs P j"
proof (induction j)
  case (JObj kvs)
  have d: "distinct (keys kvs)" "\<And>v. v \<in> set (map snd kvs) \<Longrightarrow> unique_keys v"
    using JObj.prems by (auto simp: list_all_iff)
  let ?s = "sort_key fst (map (\<lambda>kv. (fst kv, sorted_json (snd kv))) kvs)"
  have "is_ref_object ?s = is_ref_object kvs" by (simp add: is_ref_object_def image_image)
  moreover have "permitted_value P (map_of ?s ''visibility'') = permitted_value P (map_of kvs ''visibility'')"
    using sorted_lookup [OF d(1), of "''visibility''"]
    by (cases "map_of kvs ''visibility''") (auto simp: permitted_value_def sorted_json_atoms)
  moreover have "list_all (public_refs P) (map snd ?s) = list_all (public_refs P) (map snd kvs)"
    using JObj.IH d(2) by (fastforce simp: list_all_iff image_image)
  ultimately show ?case by simp
qed (auto simp: list_all_iff)

lemma public_refs_same:
  "same_json a b \<Longrightarrow> unique_keys a \<Longrightarrow> unique_keys b \<Longrightarrow> public_refs P a = public_refs P b"
  by (metis public_refs_sorted same_json_def)

lemma bytes_of_payload_value:
  "bytes_of_payload p cap = Inr data \<Longrightarrow> p = JStr (b64encode data)"
  by (auto simp: bytes_of_payload_def Let_def result_simps split: json.splits option.splits)

lemma model_kind_known:
  "valid_model kind vs x \<Longrightarrow> kind \<in> set ARTIFACT_TYPES \<Longrightarrow>
     am_kind (artifact_model.truncate x) \<in> set ARTIFACT_TYPES
     \<and> Some (am_schema_version (artifact_model.truncate x)) = ARTIFACT_SCHEMA_VERSIONS (am_kind (artifact_model.truncate x))"
  by (simp add: valid_model_def artifact_model.defs)

lemma artifact_kind_known:
  "valid_artifact a \<Longrightarrow> am_kind (artifact_base a) \<in> set ARTIFACT_TYPES
     \<and> Some (am_schema_version (artifact_base a)) = ARTIFACT_SCHEMA_VERSIONS (am_kind (artifact_base a))"
  by (cases a; simp only: valid_artifact.simps artifact_base.simps; rule model_kind_known;
      fastforce simp: valid_candidate_def valid_source_pair_def valid_contract_def valid_environment_def
        valid_verifier_bundle_def valid_task_bundle_def valid_qualification_def valid_rollout_def
        valid_checkpoint_def valid_evaluation_report_def ARTIFACT_TYPES_def)

end
