(* ===== verification/ClosureCheck.thy ===== *)
theory ClosureCheck
  imports ArtifactStore RegistryStorage "HOL-Library.Product_Lexorder"
begin

text \<open>
  The part of \<^verbatim>\<open>registry/core.py\<close> that reads artifacts: \<open>references\<close>, which collects the
  references of a validated document, the reserved audit records of \<^verbatim>\<open>registry/historical.py\<close>,
  and \<open>Registry._verify\<close>, the bounded walk that reads every object of a dependency closure and
  returns its rows. The main lemmas: \<open>references\<close> returns exactly the reference objects of the
  document (\<open>references_flatten\<close>), and the rows of an accepted walk are closed under dependencies,
  contain the roots and were all read (\<open>verify_closed\<close>).
\<close>

section \<open>References of a document\<close>

definition visibility_of :: "string \<Rightarrow> visibility option" where
  "visibility_of s = find (\<lambda>v. visibility_value v = s) every_visibility"

definition encoding_of :: "string \<Rightarrow> encoding option" where
  "encoding_of s = find (\<lambda>e. encoding_value e = s) [Enc_json, Enc_bytes]"

text \<open>\<open>validated(ArtifactRef, item)\<close>: the five fields, no other, with their strict types.\<close>

definition ref_of_object :: "json dict \<Rightarrow> registry_error + artifact_ref" where
  "ref_of_object kvs =
     (case (map_of kvs ''sha256'', map_of kvs ''kind'', map_of kvs ''schema_version'',
            map_of kvs ''visibility'', map_of kvs ''encoding'') of
        (Some (JStr sha), Some (JStr kind), Some (JInt version), Some (JStr v), Some (JStr e)) \<Rightarrow>
          (case (visibility_of v, encoding_of e) of
             (Some vis, Some enc) \<Rightarrow>
               raise_if (set (keys kvs) \<noteq> set REF_KEYS) (ValidationError ''model validation failed'')
               (validated valid_ref \<lparr>ref_sha256 = sha, ref_kind = kind, ref_schema_version = version,
                  ref_visibility = vis, ref_encoding = enc\<rparr>)
           | _ \<Rightarrow> Inl (ValidationError ''model validation failed''))
      | _ \<Rightarrow> Inl (ValidationError ''model validation failed''))"

fun json_size :: "json \<Rightarrow> nat" where
  "json_size (JObj kvs) = Suc (sum_list (map json_size (map snd kvs)))"
| "json_size (JArr xs) = Suc (sum_list (map json_size xs))"
| "json_size _ = 1"

text \<open>The head of \<open>pending\<close> is the end Python pops from.\<close>

function references_loop :: "json list \<Rightarrow> artifact_ref list \<Rightarrow> registry_error + artifact_ref list" where
  "references_loop [] found = Inr found"
| "references_loop (item # pending) found =
     (case item of
        JObj kvs \<Rightarrow>
          if is_ref_object kvs
          then bind_result (ref_of_object kvs) (\<lambda>r. references_loop pending (found @ [r]))
          else references_loop (rev (map snd kvs) @ pending) found
      | JArr xs \<Rightarrow> references_loop (rev xs @ pending) found
      | _ \<Rightarrow> references_loop pending found)"
  by pat_completeness auto
termination
  by (relation "measure (\<lambda>(pending, _). sum_list (map json_size pending))")
    (auto simp: rev_map [symmetric] sum_list_rev)

definition references :: "json \<Rightarrow> registry_error + artifact_ref list" where
  "references v = references_loop [v] []"

text \<open>The reference objects of a document, outermost and in document order.\<close>

fun ref_objects :: "json \<Rightarrow> json dict list" where
  "ref_objects (JObj kvs) = (if is_ref_object kvs then [kvs] else concat (map ref_objects (map snd kvs)))"
| "ref_objects (JArr xs) = concat (map ref_objects xs)"
| "ref_objects _ = []"

lemma map_result_append:
  "map_result f (xs @ ys) = bind_result (map_result f xs) (\<lambda>as. bind_result (map_result f ys) (\<lambda>bs. Inr (as @ bs)))"
  by (induction xs) (auto simp: bind_result_def split: sum.splits)

lemma references_loop_flatten:
  "references_loop pending found =
     bind_result (map_result ref_of_object (concat (map (\<lambda>j. rev (ref_objects j)) pending)))
       (\<lambda>rs. Inr (found @ rs))"
proof (induction pending found rule: references_loop.induct)
  case (2 item pending found)
  show ?case
  proof (cases item)
    case (JObj kvs)
    show ?thesis
    proof (cases "is_ref_object kvs")
      case True
      then show ?thesis using 2 JObj by (cases "ref_of_object kvs") (auto simp: bind_result_def split: sum.splits)
    next
      case False
      then show ?thesis using 2 JObj by (simp add: rev_concat rev_map comp_def)
    qed
  next
    case (JArr xs)
    then show ?thesis using 2 JArr by (simp add: rev_concat rev_map comp_def)
  qed (use 2 in simp_all)
qed simp

theorem references_flatten: "references v = map_result ref_of_object (rev (ref_objects v))"
  unfolding references_def references_loop_flatten
  by (auto simp: bind_result_def split: sum.splits)

text \<open>The documents of the contracts: their reference objects, read back, are the references themselves.\<close>

lemma visibility_of_value [simp]: "visibility_of (visibility_value v) = Some v"
  by (cases v) (simp_all add: visibility_of_def every_visibility_def)

lemma encoding_of_value [simp]: "encoding_of (encoding_value e) = Some e"
  by (cases e) (simp_all add: encoding_of_def)

lemma ref_of_doc:
  "valid_ref r \<Longrightarrow> doc_ref r = JObj kvs \<Longrightarrow> is_ref_object kvs \<and> ref_of_object kvs = Inr r"
  by (cases r) (auto simp: doc_ref_def is_ref_object_def REF_KEYS_def ref_of_object_def raise_if_def validated_def)

definition ref_entries :: "artifact_ref list \<Rightarrow> json dict list" where
  "ref_entries rs = map (\<lambda>r. case doc_ref r of JObj kvs \<Rightarrow> kvs | _ \<Rightarrow> []) rs"

lemma ref_objects_doc_ref: "ref_objects (doc_ref r) = ref_entries [r]"
  by (simp add: doc_ref_def ref_entries_def is_ref_object_def REF_KEYS_def)

lemma ref_entries_append [simp]: "ref_entries (rs @ ss) = ref_entries rs @ ref_entries ss" "ref_entries [] = []"
  by (simp_all add: ref_entries_def)

lemma ref_objects_doc_refs: "ref_objects (doc_refs rs) = ref_entries rs"
  by (induction rs) (simp_all add: doc_refs_def ref_objects_doc_ref ref_entries_def)

lemma read_ref_entries: "list_all valid_ref rs \<Longrightarrow> map_result ref_of_object (rev (ref_entries rs)) = Inr (rev rs)"
proof (induction rs rule: rev_induct)
  case (snoc r rs)
  obtain kvs where k: "doc_ref r = JObj kvs" by (simp add: doc_ref_def)
  with snoc ref_of_doc [of r kvs] show ?case by (simp add: ref_entries_def)
qed simp

lemma ref_objects_strings [simp]: "ref_objects (doc_strings ss) = []"
  by (induction ss) (simp_all add: doc_strings_def)

lemma ref_objects_options [simp]:
  "ref_objects (doc_option JInt i) = []" "ref_objects (doc_option JFloat x) = []" "ref_objects (doc_option JStr s) = []"
  by (simp_all add: doc_option_def split: option.splits)

lemma ref_objects_evidence: "ref_objects (doc_evidence_record e) = ref_entries (ev_artifacts e)"
  by (simp add: doc_evidence_record_def is_ref_object_def REF_KEYS_def ref_objects_doc_refs)

lemma ref_objects_cost: "ref_objects (doc_cost c) = []"
  by (simp add: doc_cost_def is_ref_object_def REF_KEYS_def)

lemma ref_objects_result: "ref_objects (doc_operation_result r) = ref_entries (or_artifacts r @ result_evidence r)"
proof -
  have "concat (map (ref_objects \<circ> doc_evidence_record) es) = ref_entries (concat (map ev_artifacts es))" for es
    by (induction es) (simp_all add: ref_objects_evidence)
  moreover have "concat (map (ref_objects \<circ> doc_cost) cs) = []" for cs
    by (induction cs) (simp_all add: ref_objects_cost)
  ultimately show ?thesis
    by (simp add: doc_operation_result_def is_ref_object_def REF_KEYS_def ref_objects_doc_refs result_evidence_def comp_def)
qed

lemma result_references:
  "list_all valid_ref (or_artifacts r @ result_evidence r) \<Longrightarrow>
     references (doc_operation_result r) = Inr (rev (or_artifacts r @ result_evidence r))"
  by (simp only: references_flatten ref_objects_result read_ref_entries)

section \<open>Reserved audit records\<close>

record audit_policy =
  ap_configuration :: artifact_ref
  ap_subjects :: artifact_ref
  ap_protected :: artifact_ref

definition audit_references_checks :: "artifact_ref list \<Rightarrow> checks" where
  "audit_references_checks refs =
     [(\<not> distinct refs, ''duplicate audit scope reference''),
      (list_ex (\<lambda>r. ref_kind r \<in> set RESERVED) refs, ''nested historical scopes are forbidden'')]"

definition valid_audit_references :: "artifact_ref list \<Rightarrow> bool" where
  "valid_audit_references refs \<longleftrightarrow> refs \<noteq> [] \<and> length refs \<le> 256 \<and> list_all valid_ref refs
     \<and> passes (audit_references_checks refs)"

definition exact_group :: "artifact_ref \<Rightarrow> string \<Rightarrow> bool" where
  "exact_group r kind \<longleftrightarrow> ref_kind r = kind \<and> ref_schema_version r = 1 \<and> ref_visibility r = V_PRIVATE
     \<and> ref_encoding r = Enc_bytes"

definition audit_policy_checks :: "audit_policy \<Rightarrow> checks" where
  "audit_policy_checks p =
     [(ref_kind (ap_configuration p) \<in> set RESERVED, ''wrapped original audit configuration required''),
      (\<not> exact_group (ap_subjects p) SUBJECTS \<or> \<not> exact_group (ap_protected p) PROTECTED,
       ''exact private audit reference groups required'')]"

definition valid_audit_policy :: "audit_policy \<Rightarrow> bool" where
  "valid_audit_policy p \<longleftrightarrow> list_all valid_ref [ap_configuration p, ap_subjects p, ap_protected p]
     \<and> passes (audit_policy_checks p)"

definition doc_audit_references :: "artifact_ref list \<Rightarrow> json" where
  "doc_audit_references refs =
     JObj [(''version'', JStr ''registry-audit-references-v1''), (''references'', doc_refs refs)]"

definition doc_audit_policy :: "audit_policy \<Rightarrow> json" where
  "doc_audit_policy p =
     JObj [(''version'', JStr ''registry-historical-audit-v1''), (''configuration'', doc_ref (ap_configuration p)),
       (''subjects'', doc_ref (ap_subjects p)), (''protected'', doc_ref (ap_protected p))]"

text \<open>
  What a registry handle works with: the runtime and the codec of its store, the JSON parsers of the
  reserved records and of journal lines, and the limits it was opened with.
\<close>

record registry_client =
  rc_runtime :: runtime
  rc_codec :: codec
  rc_policy :: "string \<Rightarrow> audit_policy option"
  rc_references :: "string \<Rightarrow> artifact_ref list option"
  rc_parse :: "string \<Rightarrow> registry_event option"
  rc_requested :: registry_limits

definition parse_audit_record ::
  "registry_client \<Rightarrow> string \<Rightarrow> string \<Rightarrow> (artifact_ref list \<times> json) option" where
  "parse_audit_record rc kind payload =
     (if kind = POLICY
      then (case rc_policy rc payload of
              Some p \<Rightarrow> if valid_audit_policy p
                then Some ([ap_configuration p, ap_subjects p, ap_protected p], doc_audit_policy p) else None
            | None \<Rightarrow> None)
      else (case rc_references rc payload of
              Some refs \<Rightarrow> if valid_audit_references refs then Some (refs, doc_audit_references refs) else None
            | None \<Rightarrow> None))"

definition intrinsic :: "registry_client \<Rightarrow> artifact_ref \<Rightarrow> string \<Rightarrow> registry_error + artifact_ref list" where
  "intrinsic rc ref payload =
     (if ref_kind ref \<notin> set RESERVED then Inr []
      else raise_if (ref_schema_version ref \<noteq> 1 \<or> ref_visibility ref \<noteq> V_PRIVATE \<or> ref_encoding ref \<noteq> Enc_bytes)
        (RegistryConflict ''historical audit configuration metadata rejected'')
        (case parse_audit_record rc (ref_kind ref) payload of
           None \<Rightarrow> Inl (RegistryConflict ''invalid reserved historical audit record'')
         | Some (refs, doc) \<Rightarrow>
             raise_if (canonical_json (rc_runtime rc) doc \<noteq> payload)
               (RegistryConflict ''invalid reserved historical audit record'') (Inr refs)))"

section \<open>The bounded walk over a closure\<close>

fun store_error :: "artifact_error \<Rightarrow> registry_error" where
  "store_error (AccessDenied role vis write) = ArtifactError ''AccessDenied''"
| "store_error (ArtifactIntegrityError m) = ArtifactError ''ArtifactIntegrityError''"
| "store_error (ArtifactNotFound m) = ArtifactError ''ArtifactNotFound''"
| "store_error (ArtifactSizeLimitError m limit observed) = ArtifactError ''ArtifactSizeLimitError''"
| "store_error (LimitValueError m) = ArtifactError ''ValueError''"

definition from_store :: "artifact_error + 'a \<Rightarrow> registry_error + 'a" where
  "from_store m = (case m of Inl e \<Rightarrow> Inl (store_error e) | Inr x \<Rightarrow> Inr x)"

lemma from_store_Inr [result_simps]: "from_store m = Inr x \<longleftrightarrow> m = Inr x"
  by (cases m) (simp_all add: from_store_def)

text \<open>\<open>_ref\<close> and \<open>_refs\<close>.\<close>

definition bounded_ref :: "artifact_ref \<Rightarrow> registry_error + artifact_ref" where
  "bounded_ref ref =
     raise_if (length (ref_kind ref) > 256) (RegistryLimit ''artifact metadata exceeds registry bound'')
     (validated valid_ref ref)"

definition bounded_refs :: "artifact_ref list \<Rightarrow> registry_error + artifact_ref list" where
  "bounded_refs values =
     raise_if (length values > 10000) (RegistryLimit ''reference count exceeds closure bound'')
     (map_result bounded_ref values)"

text \<open>The document of an object and the references it contains by itself.\<close>

definition read_object ::
  "registry_client \<Rightarrow> objects \<Rightarrow> registry_limits \<Rightarrow> int \<Rightarrow> artifact_ref
     \<Rightarrow> registry_error + json \<times> artifact_ref list" where
  "read_object rc objs limits cap ref =
     (if ref_encoding ref = Enc_bytes
      then bind_result (from_store (get_bytes (rc_runtime rc) (rc_codec rc) R_CONTROLLER objs ref (Some cap)
             (Some (max_artifact_payload_bytes limits)))) (\<lambda>payload.
           bind_result (intrinsic rc ref payload) (\<lambda>refs. Inr (JStr (b64encode payload), refs)))
      else bind_result (from_store (get_artifact (rc_runtime rc) (rc_codec rc) R_CONTROLLER objs ref (Some cap))) (\<lambda>a.
           bind_result (references (dump (rc_codec rc) a)) (\<lambda>refs. Inr (dump (rc_codec rc) a, refs))))"

text \<open>
  The order of a dependency tuple. Python sorts a set, whose order decides between references with
  equal keys; such references have one digest and different metadata, which the walk rejects.
\<close>

definition dependency_key :: "artifact_ref \<Rightarrow> string \<times> string \<times> string" where
  "dependency_key r = (ref_sha256 r, ref_kind r, visibility_value (ref_visibility r))"

definition declared_of :: "registry_state \<Rightarrow> artifact_ref list dict \<Rightarrow> digest \<Rightarrow> artifact_ref list" where
  "declared_of s explicit sha =
     (case map_of explicit sha of
        Some ds \<Rightarrow> ds
      | None \<Rightarrow> (case map_of (st_artifacts s) sha of Some old \<Rightarrow> rec_dependencies old | None \<Rightarrow> []))"

text \<open>One new reference: its bytes are read within the remaining budget, its row is built.\<close>

definition visit ::
  "registry_client \<Rightarrow> objects \<Rightarrow> registry_state \<Rightarrow> artifact_ref list dict \<Rightarrow> int \<Rightarrow> artifact_ref
     \<Rightarrow> registry_error + artifact_record \<times> int" where
  "visit rc objs s explicit used ref =
     (let limits = st_limits s; remaining = max_closure_bytes limits - used;
          cap = min remaining (max_artifact_envelope_bytes limits) in
      raise_if (cap \<le> 0) (RegistryLimit ''artifact dependency closure byte budget exhausted'')
      (bind_result (read_object rc objs limits cap ref) (\<lambda>(payload, refs).
       let used' = used + int (length (canonical_json (rc_runtime rc) (envelope (ref_kind ref)
             (ref_schema_version ref) (ref_visibility ref) (ref_encoding ref) payload)));
           declared = declared_of s explicit (ref_sha256 ref) in
       raise_if (used' > max_closure_bytes limits)
         (RegistryLimit ''artifact dependency closure byte budget exceeded'')
       (raise_if (ref_kind ref \<in> set RESERVED \<and> \<not> set declared \<subseteq> set refs)
         (RegistryConflict ''reserved audit scope cannot add undeclared dependencies'')
       (let dependencies = sort_key dependency_key (remdups (refs @ declared)) in
        raise_if (int (length dependencies) > max_closure_artifacts limits)
          (RegistryLimit ''artifact dependency count exceeded'')
        (Inr (\<lparr>rec_ref = ref, rec_dependencies = dependencies\<rparr>, used')))))))"

lemma length_put_new: "map_of d k = None \<Longrightarrow> length (dict_put k v d) = Suc (length d)"
  by (simp add: put_new map_of_eq_None_iff)

function verify_loop ::
  "registry_client \<Rightarrow> objects \<Rightarrow> registry_state \<Rightarrow> artifact_ref list dict \<Rightarrow> artifact_ref list
     \<Rightarrow> artifact_ref dict \<Rightarrow> artifact_record dict \<Rightarrow> int \<Rightarrow> registry_error + artifact_record dict" where
  "verify_loop rc objs s explicit [] seen records used = Inr records"
| "verify_loop rc objs s explicit (ref0 # pending) seen records used =
     bind_result (bounded_ref ref0) (\<lambda>ref.
     case map_of seen (ref_sha256 ref) of
       Some other \<Rightarrow>
         raise_if (other \<noteq> ref) (RegistryConflict ''one digest has conflicting reference metadata'')
         (verify_loop rc objs s explicit pending seen records used)
     | None \<Rightarrow>
         raise_if (int (length seen) \<ge> max_closure_artifacts (st_limits s))
           (RegistryLimit ''artifact dependency closure count exceeded'')
         (bind_result (visit rc objs s explicit used ref) (\<lambda>(row, used').
          verify_loop rc objs s explicit (rev (rec_dependencies row) @ pending)
            (dict_put (ref_sha256 ref) ref seen) (dict_put (ref_sha256 ref) row records) used')))"
  by pat_completeness auto
termination
  by (relation "measures [\<lambda>(rc, objs, s, explicit, pending, seen, records, used).
        nat (max_closure_artifacts (st_limits s) - int (length seen)),
      \<lambda>(rc, objs, s, explicit, pending, seen, records, used). length pending]")
    (auto simp: length_put_new)

definition verify ::
  "registry_client \<Rightarrow> objects \<Rightarrow> registry_state \<Rightarrow> artifact_ref list \<Rightarrow> artifact_ref list dict
     \<Rightarrow> registry_error + artifact_record list" where
  "verify rc objs s roots explicit =
     bind_result (bounded_refs roots) (\<lambda>roots.
     bind_result (verify_loop rc objs s explicit (rev roots) [] [] 0) (\<lambda>records.
     Inr (map snd (sort_key fst records))))"

section \<open>The rows of an accepted walk\<close>

lemma bounded_ref_Inr [result_simps]:
  "bounded_ref ref = Inr r \<longleftrightarrow> length (ref_kind ref) \<le> 256 \<and> valid_ref ref \<and> r = ref"
  by (auto simp: bounded_ref_def result_simps)

lemma bounded_refs_Inr [result_simps]:
  "bounded_refs refs = Inr rs \<longleftrightarrow>
     length refs \<le> 10000 \<and> list_all (\<lambda>r. length (ref_kind r) \<le> 256 \<and> valid_ref r) refs \<and> rs = refs"
proof -
  have "map_result bounded_ref refs = Inr rs \<longleftrightarrow>
      list_all (\<lambda>r. length (ref_kind r) \<le> 256 \<and> valid_ref r) refs \<and> rs = refs" for rs
    by (induction refs arbitrary: rs) (auto simp: result_simps)
  then show ?thesis unfolding bounded_refs_def raise_if_eq_Inr not_less by blast
qed

lemma envelope_length: "length (canonical_json rt (envelope k v vis enc p)) > 0"
  by (simp add: envelope_def)

lemma visit_iff:
  "visit rc objs s explicit used ref = Inr (row, used') \<longleftrightarrow>
     (\<exists>payload refs. 0 < min (max_closure_bytes (st_limits s) - used) (max_artifact_envelope_bytes (st_limits s))
        \<and> read_object rc objs (st_limits s)
            (min (max_closure_bytes (st_limits s) - used) (max_artifact_envelope_bytes (st_limits s))) ref = Inr (payload, refs)
        \<and> used' = used + int (length (canonical_json (rc_runtime rc) (envelope (ref_kind ref)
             (ref_schema_version ref) (ref_visibility ref) (ref_encoding ref) payload)))
        \<and> used' \<le> max_closure_bytes (st_limits s)
        \<and> (ref_kind ref \<in> set RESERVED \<longrightarrow> set (declared_of s explicit (ref_sha256 ref)) \<subseteq> set refs)
        \<and> row = \<lparr>rec_ref = ref, rec_dependencies =
             sort_key dependency_key (remdups (refs @ declared_of s explicit (ref_sha256 ref)))\<rparr>
        \<and> int (length (rec_dependencies row)) \<le> max_closure_artifacts (st_limits s))"
proof -
  define cap where "cap = min (max_closure_bytes (st_limits s) - used) (max_artifact_envelope_bytes (st_limits s))"
  define size where "size payload = int (length (canonical_json (rc_runtime rc) (envelope (ref_kind ref)
             (ref_schema_version ref) (ref_visibility ref) (ref_encoding ref) payload)))" for payload
  show ?thesis
    unfolding cap_def [symmetric] visit_def Let_def size_def [symmetric]
    by (cases "read_object rc objs (st_limits s) cap ref")
      (auto simp: raise_if_def not_less split: if_splits)
qed

lemma visit_Inr:
  assumes "visit rc objs s explicit used ref = Inr (row, used')"
  shows "rec_ref row = ref" "distinct (rec_dependencies row)"
    "\<exists>cap payload refs. read_object rc objs (st_limits s) cap ref = Inr (payload, refs)
       \<and> set (rec_dependencies row) = set refs \<union> set (declared_of s explicit (ref_sha256 ref))"
    "used < used'" "used' \<le> max_closure_bytes (st_limits s)"
    "int (length (rec_dependencies row)) \<le> max_closure_artifacts (st_limits s)"
proof -
  obtain payload refs where v:
      "read_object rc objs (st_limits s)
         (min (max_closure_bytes (st_limits s) - used) (max_artifact_envelope_bytes (st_limits s))) ref = Inr (payload, refs)"
      "used' = used + int (length (canonical_json (rc_runtime rc) (envelope (ref_kind ref)
             (ref_schema_version ref) (ref_visibility ref) (ref_encoding ref) payload)))"
      "used' \<le> max_closure_bytes (st_limits s)"
      "row = \<lparr>rec_ref = ref, rec_dependencies =
             sort_key dependency_key (remdups (refs @ declared_of s explicit (ref_sha256 ref)))\<rparr>"
      "int (length (rec_dependencies row)) \<le> max_closure_artifacts (st_limits s)"
    using assms unfolding visit_iff by (elim exE conjE) rule
  show "rec_ref row = ref" "distinct (rec_dependencies row)" by (simp_all add: v(4))
  show "used < used'" unfolding v(2) using envelope_length by simp
  show "\<exists>cap payload refs. read_object rc objs (st_limits s) cap ref = Inr (payload, refs)
       \<and> set (rec_dependencies row) = set refs \<union> set (declared_of s explicit (ref_sha256 ref))"
    using v(1) by (intro exI conjI) (assumption, simp add: v(4))
  show "used' \<le> max_closure_bytes (st_limits s)"
    "int (length (rec_dependencies row)) \<le> max_closure_artifacts (st_limits s)" by (fact v)+
qed

text \<open>The dependency steps of a set of rows.\<close>

definition row_steps :: "artifact_record dict \<Rightarrow> (artifact_ref \<times> artifact_ref) set" where
  "row_steps out = {(rec_ref r, d) | k r d. map_of out k = Some r \<and> d \<in> set (rec_dependencies r)}"

definition rows_for :: "artifact_ref dict \<Rightarrow> artifact_record dict \<Rightarrow> bool" where
  "rows_for seen records \<longleftrightarrow> (\<forall>k. map_option rec_ref (map_of records k) = map_of seen k)
     \<and> (\<forall>k r. map_of records k = Some r \<longrightarrow> ref_sha256 (rec_ref r) = k)
     \<and> length records = length seen \<and> distinct (keys records)"

lemma rows_for_None: "rows_for seen records \<Longrightarrow> map_of records k = None \<longleftrightarrow> map_of seen k = None"
  unfolding rows_for_def by (metis option.map_disc_iff)

lemma rows_for_put:
  assumes "rows_for seen records" "map_of seen (ref_sha256 ref) = None" "rec_ref row = ref"
  shows "rows_for (dict_put (ref_sha256 ref) ref seen) (dict_put (ref_sha256 ref) row records)"
proof -
  have "map_of records (ref_sha256 ref) = None" using rows_for_None [OF assms(1)] assms(2) by blast
  then show ?thesis using assms by (auto simp: rows_for_def dict_simps length_put_new)
qed

definition walked ::
  "registry_client \<Rightarrow> objects \<Rightarrow> registry_state \<Rightarrow> artifact_ref list dict \<Rightarrow> artifact_ref list
     \<Rightarrow> artifact_record dict \<Rightarrow> artifact_record dict \<Rightarrow> bool" where
  "walked rc objs s explicit pending records out \<longleftrightarrow>
     (\<forall>k r. map_of records k = Some r \<longrightarrow> map_of out k = Some r)
   \<and> (\<forall>p \<in> set pending. registered out p)
   \<and> (\<forall>k r. map_of out k = Some r \<longrightarrow> map_of records k = Some r
        \<or> ((\<forall>d \<in> set (rec_dependencies r). registered out d)
           \<and> (\<exists>used used'. visit rc objs s explicit used (rec_ref r) = Inr (r, used'))
           \<and> (\<exists>p \<in> set pending. (p, rec_ref r) \<in> (row_steps out)\<^sup>*)))"

lemma walked_step:
  assumes "map_of records (ref_sha256 ref) = None" "visit rc objs s explicit used ref = Inr (row, used')"
    and "walked rc objs s explicit (rev (rec_dependencies row) @ pending) (dict_put (ref_sha256 ref) row records) out"
  shows "walked rc objs s explicit (ref # pending) records out"
proof -
  have row: "rec_ref row = ref" using visit_Inr(1) [OF assms(2)] .
  have out: "map_of out (ref_sha256 ref) = Some row" using assms(3) by (simp add: walked_def dict_simps)
  have step: "(ref, d) \<in> row_steps out" if "d \<in> set (rec_dependencies row)" for d
    using out row that by (auto simp: row_steps_def)
  have reach: "\<exists>p \<in> set (ref # pending). (p, x) \<in> (row_steps out)\<^sup>*"
    if "p \<in> set (rev (rec_dependencies row) @ pending)" "(p, x) \<in> (row_steps out)\<^sup>*" for p x
    using that step [of p] by (auto intro: converse_rtrancl_into_rtrancl)
  have new: "map_of records k = Some r
      \<or> ((\<forall>d \<in> set (rec_dependencies r). registered out d)
         \<and> (\<exists>used used'. visit rc objs s explicit used (rec_ref r) = Inr (r, used'))
         \<and> (\<exists>p \<in> set (ref # pending). (p, rec_ref r) \<in> (row_steps out)\<^sup>*))"
    if r: "map_of out k = Some r" for k r
  proof (cases "k = ref_sha256 ref")
    case True
    then have "r = row" using r out by simp
    moreover have "\<forall>d \<in> set (rec_dependencies row). registered out d" using assms(3) by (auto simp: walked_def)
    ultimately show ?thesis using assms(2) row by auto
  next
    case False
    then have "map_of (dict_put (ref_sha256 ref) row records) k = map_of records k" by (simp add: dict_simps)
    moreover have "map_of (dict_put (ref_sha256 ref) row records) k = Some r
        \<or> ((\<forall>d \<in> set (rec_dependencies r). registered out d)
         \<and> (\<exists>used used'. visit rc objs s explicit used (rec_ref r) = Inr (r, used'))
         \<and> (\<exists>p \<in> set (rev (rec_dependencies row) @ pending). (p, rec_ref r) \<in> (row_steps out)\<^sup>*))"
      using assms(3) r unfolding walked_def by blast
    ultimately show ?thesis using reach by metis
  qed
  have "registered out ref" using out row by (simp add: registered_def)
  moreover have "map_of out k = Some r" if "map_of records k = Some r" for k r
    using assms(1,3) that by (cases "k = ref_sha256 ref") (auto simp: walked_def dict_simps)
  ultimately show ?thesis using assms(3) new by (simp add: walked_def)
qed

lemma verify_loop_walked:
  assumes "verify_loop rc objs s explicit pending seen records used = Inr out"
    and "rows_for seen records" "int (length seen) \<le> max 0 (max_closure_artifacts (st_limits s))"
  shows "walked rc objs s explicit pending records out
     \<and> (\<exists>seen'. rows_for seen' out) \<and> int (length out) \<le> max 0 (max_closure_artifacts (st_limits s))"
  using assms
proof (induction rc objs s explicit pending seen records used rule: verify_loop.induct)
  case (1 rc objs s explicit seen records used)
  then show ?case by (auto simp: walked_def rows_for_def)
next
  case (2 rc objs s explicit ref pending seen records used)
  from 2(3) have b: "bounded_ref ref = Inr ref" by (auto simp: result_simps)
  show ?case
  proof (cases "map_of seen (ref_sha256 ref)")
    case None
    with 2(3) b obtain row used' where v: "\<not> int (length seen) \<ge> max_closure_artifacts (st_limits s)"
        "visit rc objs s explicit used ref = Inr (row, used')"
        "verify_loop rc objs s explicit (rev (rec_dependencies row) @ pending)
            (dict_put (ref_sha256 ref) ref seen) (dict_put (ref_sha256 ref) row records) used' = Inr out"
      by (auto simp: result_simps)
    have r: "map_of records (ref_sha256 ref) = None" using rows_for_None [OF 2(4)] None by blast
    have "walked rc objs s explicit (rev (rec_dependencies row) @ pending) (dict_put (ref_sha256 ref) row records) out
       \<and> (\<exists>seen'. rows_for seen' out) \<and> int (length out) \<le> max 0 (max_closure_artifacts (st_limits s))"
      using 2(1) [OF b None v(1,2) refl v(3) rows_for_put [OF 2(4) None visit_Inr(1) [OF v(2)]]] v(1)
      by (simp add: length_put_new [OF None])
    with walked_step [OF r v(2)] show ?thesis by blast
  next
    case (Some other)
    with 2(3) b have o: "other = ref" "verify_loop rc objs s explicit pending seen records used = Inr out"
      by (auto simp: result_simps)
    have "map_option rec_ref (map_of records (ref_sha256 ref)) = Some ref"
      using 2(4) Some o(1) unfolding rows_for_def by metis
    then obtain row where row: "map_of records (ref_sha256 ref) = Some row" "rec_ref row = ref" by auto
    have ih: "walked rc objs s explicit pending records out
       \<and> (\<exists>seen'. rows_for seen' out) \<and> int (length out) \<le> max 0 (max_closure_artifacts (st_limits s))"
      using 2(2) [OF b Some _ o(2) 2(4,5)] o(1) by simp
    then have "map_of out (ref_sha256 ref) = Some row" using row(1) by (simp add: walked_def)
    with row(2) have "registered out ref" by (simp add: registered_def)
    with ih show ?thesis unfolding walked_def by fastforce
  qed
qed

lemma rows_for_start: "rows_for [] []"
  by (simp add: rows_for_def)

lemma in_sorted_rows:
  assumes "rows_for seen out"
  shows "r \<in> set (map snd (sort_key fst out)) \<longleftrightarrow> map_of out (ref_sha256 (rec_ref r)) = Some r"
proof -
  have d: "distinct (keys out)" and k: "\<And>k r. map_of out k = Some r \<Longrightarrow> ref_sha256 (rec_ref r) = k"
    using assms by (auto simp: rows_for_def)
  have "r \<in> snd ` set out \<longleftrightarrow> (\<exists>k. map_of out k = Some r)"
    using d by (force simp: map_of_eq_Some_iff)
  with k show ?thesis by auto
qed

lemma verify_rows:
  assumes "verify rc objs s roots explicit = Inr rows"
  obtains out seen where "verify_loop rc objs s explicit (rev roots) [] [] 0 = Inr out"
    "rows = map snd (sort_key fst out)" "rows_for seen out" "walked rc objs s explicit (rev roots) [] out"
    "int (length out) \<le> max 0 (max_closure_artifacts (st_limits s))"
proof -
  obtain out where out: "verify_loop rc objs s explicit (rev roots) [] [] 0 = Inr out" "rows = map snd (sort_key fst out)"
    using assms by (auto simp: verify_def result_simps)
  from verify_loop_walked [OF out(1) rows_for_start] obtain seen where
    "rows_for seen out" "walked rc objs s explicit (rev roots) [] out"
    "int (length out) \<le> max 0 (max_closure_artifacts (st_limits s))" by auto
  with out that show thesis by blast
qed

lemma sorted_shas:
  assumes "rows_for seen out"
  shows "sorted (map (\<lambda>r. ref_sha256 (rec_ref r)) (map snd (sort_key fst out)))"
    "distinct (map (\<lambda>r. ref_sha256 (rec_ref r)) (map snd (sort_key fst out)))"
proof -
  have eq: "map (\<lambda>r. ref_sha256 (rec_ref r)) (map snd (sort_key fst out)) = map fst (sort_key fst out)"
    using assms by (auto simp: rows_for_def map_of_eq_Some_iff)
  show "sorted (map (\<lambda>r. ref_sha256 (rec_ref r)) (map snd (sort_key fst out)))" unfolding eq by simp
  show "distinct (map (\<lambda>r. ref_sha256 (rec_ref r)) (map snd (sort_key fst out)))"
    unfolding eq using assms by (simp add: rows_for_def distinct_map inj_on_def distinct_sort)
qed

section \<open>Walking an installed closure again\<close>

lemma sorted_again:
  assumes "ds = sort_key f (remdups xs)" "set ys \<subseteq> set ds"
  shows "sort_key f (remdups (ys @ ds)) = ds"
proof -
  have "remdups (ys @ ds) = remdups ds" using assms(2) by (induction ys) auto
  moreover have "distinct ds" "sort_key f ds = ds" by (simp_all add: assms(1) sort_key_id_if_sorted)
  ultimately show ?thesis by (simp add: distinct_remdups_id)
qed

lemma visit_again:
  assumes v: "visit rc objs s explicit used ref = Inr (row, used')" and l: "st_limits t = st_limits s"
    and d: "declared_of t explicit' (ref_sha256 ref) \<in> {declared_of s explicit (ref_sha256 ref), rec_dependencies row}"
  shows "visit rc objs t explicit' used ref = Inr (row, used')"
proof -
  obtain payload refs where r: "read_object rc objs (st_limits s)
        (min (max_closure_bytes (st_limits s) - used) (max_artifact_envelope_bytes (st_limits s))) ref = Inr (payload, refs)"
      "ref_kind ref \<in> set RESERVED \<longrightarrow> set (declared_of s explicit (ref_sha256 ref)) \<subseteq> set refs"
      "row = \<lparr>rec_ref = ref, rec_dependencies =
             sort_key dependency_key (remdups (refs @ declared_of s explicit (ref_sha256 ref)))\<rparr>"
    using v unfolding visit_iff by (elim exE conjE) rule
  let ?ds = "rec_dependencies row"
  have again: "sort_key dependency_key (remdups (refs @ ?ds)) = ?ds"
    by (rule sorted_again [where xs = "refs @ declared_of s explicit (ref_sha256 ref)"]) (simp_all add: r(3))
  have same: "sort_key dependency_key (remdups (refs @ declared_of t explicit' (ref_sha256 ref))) = ?ds"
    using d again r(3) by auto
  have "ref_kind ref \<in> set RESERVED \<longrightarrow> set (declared_of t explicit' (ref_sha256 ref)) \<subseteq> set refs"
    using d r(2,3) by auto
  then show ?thesis using v r(1) same r(3) unfolding visit_iff l by auto
qed

lemma verify_loop_again:
  assumes "verify_loop rc objs s explicit pending seen records used = Inr out"
    and "rows_for seen records" "int (length seen) \<le> max 0 (max_closure_artifacts (st_limits s))"
    and "st_limits t = st_limits s"
    and "\<And>k r. map_of out k = Some r \<Longrightarrow> declared_of t explicit' k \<in> {declared_of s explicit k, rec_dependencies r}"
  shows "verify_loop rc objs t explicit' pending seen records used = Inr out"
  using assms
proof (induction rc objs s explicit pending seen records used rule: verify_loop.induct)
  case (2 rc objs s explicit ref pending seen records used)
  from 2(3) have b: "bounded_ref ref = Inr ref" by (auto simp: result_simps)
  show ?case
  proof (cases "map_of seen (ref_sha256 ref)")
    case None
    with 2(3) b obtain row used' where v: "\<not> int (length seen) \<ge> max_closure_artifacts (st_limits s)"
        "visit rc objs s explicit used ref = Inr (row, used')"
        "verify_loop rc objs s explicit (rev (rec_dependencies row) @ pending)
            (dict_put (ref_sha256 ref) ref seen) (dict_put (ref_sha256 ref) row records) used' = Inr out"
      by (auto simp: result_simps)
    note rows = rows_for_put [OF 2(4) None visit_Inr(1) [OF v(2)]]
    have room: "int (length (dict_put (ref_sha256 ref) ref seen)) \<le> max 0 (max_closure_artifacts (st_limits s))"
      using v(1) by (simp add: length_put_new [OF None])
    have "map_of out (ref_sha256 ref) = Some row"
      using verify_loop_walked [OF v(3) rows room] by (simp add: walked_def dict_simps)
    then have "visit rc objs t explicit' used ref = Inr (row, used')"
      by (intro visit_again [OF v(2) 2(6)] 2(7))
    moreover have "verify_loop rc objs t explicit' (rev (rec_dependencies row) @ pending)
            (dict_put (ref_sha256 ref) ref seen) (dict_put (ref_sha256 ref) row records) used' = Inr out"
      by (rule 2(1) [OF b None v(1,2) refl v(3) rows room 2(6,7)])
    ultimately show ?thesis using b None v(1) 2(6) by simp
  next
    case (Some other)
    with 2(3) b have o: "other = ref" "verify_loop rc objs s explicit pending seen records used = Inr out"
      by (auto simp: result_simps)
    then have "verify_loop rc objs t explicit' pending seen records used = Inr out"
      using 2(2) [OF b Some _ o(2) 2(4-7)] by simp
    then show ?thesis using b Some o(1) by simp
  qed
qed simp

lemma verify_again:
  assumes "verify rc objs s roots explicit = Inr rows" "explicit' = [] \<or> explicit' = explicit"
    and l: "st_limits t = st_limits s"
    and arts: "\<And>r. r \<in> set rows \<Longrightarrow> map_of (st_artifacts t) (ref_sha256 (rec_ref r)) = Some r"
  shows "verify rc objs t roots explicit' = Inr rows"
proof -
  obtain out seen where out: "verify_loop rc objs s explicit (rev roots) [] [] 0 = Inr out"
      "rows = map snd (sort_key fst out)" "rows_for seen out"
    using verify_rows [OF assms(1)] by metis
  have "verify_loop rc objs t explicit' (rev roots) [] [] 0 = Inr out"
  proof (rule verify_loop_again [OF out(1) rows_for_start _ l])
    fix k r assume r: "map_of out k = Some r"
    then have "ref_sha256 (rec_ref r) = k" using out(3) by (simp add: rows_for_def)
    moreover from this have "r \<in> set rows" using in_sorted_rows [OF out(3)] r out(2) by simp
    ultimately have "map_of (st_artifacts t) k = Some r" using arts by blast
    then show "declared_of t explicit' k \<in> {declared_of s explicit k, rec_dependencies r}"
      using assms(2) by (auto simp: declared_of_def split: option.splits)
  qed simp
  moreover have "bounded_refs roots = Inr roots" using assms(1) by (auto simp: verify_def result_simps)
  ultimately show ?thesis by (simp add: verify_def out(2))
qed

end
