(* ===== verification/RegistryApi.thy ===== *)
theory RegistryApi
  imports ClosureCheck
begin

text \<open>
  The operations of \<open>Registry\<close> in \<^verbatim>\<open>registry/core.py\<close>. Every operation validates its arguments,
  builds its event under the storage lock from the recovered state, verifies the closure of the
  references it is about, and commits through \<open>Storage.change\<close>; readers go through \<open>Storage.view\<close>.
  The clock and the fresh claim token are arguments. The main lemma is \<open>change_again\<close>: a request
  whose builder asks for the same event again is answered from the stored history.
\<close>

definition transact ::
  "registry_client \<Rightarrow> utc_datetime \<Rightarrow> (registry_state \<Rightarrow> registry_error + string \<times> event_data) \<Rightarrow> disk
     \<Rightarrow> registry_error + disk \<times> registry_state" where
  "transact rc now builder dk =
     change (rc_runtime rc) (rc_parse rc) (rc_requested rc) now
       (\<lambda>state. bind_result (builder state) (\<lambda>built. Inr (Some built))) dk"

definition inspect ::
  "registry_client \<Rightarrow> (registry_state \<Rightarrow> registry_event list \<Rightarrow> registry_error + 'a) \<Rightarrow> disk
     \<Rightarrow> registry_error + disk \<times> 'a" where
  "inspect rc reader dk = view (rc_runtime rc) (rc_parse rc) (rc_requested rc) reader dk"

text \<open>A subscript of the new state, as the operations end.\<close>

definition returning :: "'a option \<Rightarrow> disk \<Rightarrow> registry_error + disk \<times> 'a" where
  "returning v dk = (case v of None \<Rightarrow> Inl (KeyError ''missing row'') | Some x \<Rightarrow> Inr (dk, x))"

lemma returning_Inr: "returning v dk = Inr (dk', x) \<longleftrightarrow> v = Some x \<and> dk' = dk"
  by (auto simp: returning_def split: option.splits)

section \<open>Artifacts and jobs\<close>

definition register ::
  "registry_client \<Rightarrow> objects \<Rightarrow> utc_datetime \<Rightarrow> artifact_ref \<Rightarrow> artifact_ref list \<Rightarrow> disk
     \<Rightarrow> registry_error + disk \<times> artifact_record" where
  "register rc objs now ref0 dependencies0 dk =
     bind_result (bounded_ref ref0) (\<lambda>ref.
     bind_result (bounded_refs dependencies0) (\<lambda>dependencies.
     raise_if (\<not> distinct dependencies) (RegistryConflict ''duplicate explicit dependency'')
     (bind_result (transact rc now (\<lambda>state.
         bind_result (verify rc objs state [ref] [(ref_sha256 ref, dependencies)]) (\<lambda>rows.
         Inr (''register/'' @ ref_sha256 ref, E_register rows))) dk) (\<lambda>(dk', state).
      returning (map_of (st_artifacts state) (ref_sha256 ref)) dk'))))"

definition enqueue ::
  "registry_client \<Rightarrow> objects \<Rightarrow> utc_datetime \<Rightarrow> job_spec \<Rightarrow> disk \<Rightarrow> registry_error + disk \<times> job_record" where
  "enqueue rc objs now spec0 dk =
     bind_result (validated valid_job_spec spec0) (\<lambda>spec.
     let key = identity (rc_runtime rc) (doc_spec spec) in
     bind_result (transact rc now (\<lambda>state.
         bind_result (verify rc objs state (spec_refs spec) []) (\<lambda>rows.
         Inr (''enqueue/'' @ key, E_enqueue rows spec))) dk) (\<lambda>(dk', state).
     returning (map_of (st_jobs state) key) dk'))"

definition put_private ::
  "registry_client \<Rightarrow> objects \<Rightarrow> json \<Rightarrow> string \<Rightarrow> registry_error + artifact_ref \<times> objects" where
  "put_private rc objs doc kind =
     from_store (put_bytes (rc_runtime rc) R_CONTROLLER objs (canonical_json (rc_runtime rc) doc) kind V_PRIVATE)"

definition historical_audit_configuration ::
  "registry_client \<Rightarrow> objects \<Rightarrow> utc_datetime \<Rightarrow> artifact_ref \<Rightarrow> artifact_ref list \<Rightarrow> artifact_ref list \<Rightarrow> disk
     \<Rightarrow> registry_error + objects \<times> disk \<times> artifact_ref" where
  "historical_audit_configuration rc objs now configuration0 subjects0 protected0 dk =
     bind_result (bounded_ref configuration0) (\<lambda>configuration.
     bind_result (bounded_refs subjects0) (\<lambda>s.
     bind_result (validated valid_audit_references s) (\<lambda>subjects.
     bind_result (bounded_refs protected0) (\<lambda>p.
     bind_result (validated valid_audit_references p) (\<lambda>protected.
     raise_if (ref_kind configuration \<in> set RESERVED)
       (RegistryConflict ''historical audit configuration cannot wrap another scope'')
     (bind_result (put_private rc objs (doc_audit_references subjects) SUBJECTS) (\<lambda>(subject_ref, objs1).
      bind_result (put_private rc objs1 (doc_audit_references protected) PROTECTED) (\<lambda>(protected_ref, objs2).
      bind_result (validated valid_audit_policy
          \<lparr>ap_configuration = configuration, ap_subjects = subject_ref, ap_protected = protected_ref\<rparr>) (\<lambda>policy.
      bind_result (put_private rc objs2 (doc_audit_policy policy) POLICY) (\<lambda>(reference, objs3).
      bind_result (register rc objs3 now reference [] dk) (\<lambda>(dk', _).
      Inr (objs3, dk', reference))))))))))))"

section \<open>Claims\<close>

definition claim_of_key :: "registry_state \<Rightarrow> string \<Rightarrow> claim option" where
  "claim_of_key state key =
     map_option at_claim (find (\<lambda>a. cl_claim_key (at_claim a) = key) (dict_values (st_attempts state)))"

definition claim_builder ::
  "registry_client \<Rightarrow> objects \<Rightarrow> digest \<Rightarrow> string \<Rightarrow> string \<Rightarrow> digest \<Rightarrow> registry_state
     \<Rightarrow> registry_error + string \<times> event_data" where
  "claim_builder rc objs jid owner key token state =
     bind_result (get_job state jid) (\<lambda>job.
     let spec = job_spec_of job in
     bind_result (job_usable state spec (spec_refs spec)) (\<lambda>_.
     bind_result (verify rc objs state (spec_refs spec) []) (\<lambda>_.
     bind_result
       (case claim_of_key state key of
          Some existing \<Rightarrow>
            raise_if (cl_job_id existing \<noteq> jid \<or> cl_owner existing \<noteq> owner)
              (ClaimConflict ''claim key belongs to a different owner/job'')
            (bind_result (authenticate state existing True) (\<lambda>_. Inr existing))
        | None \<Rightarrow> validated valid_claim
            \<lparr>cl_job_id = jid, cl_attempt_id = attempt_identity (rc_runtime rc) jid key owner,
             cl_owner = owner, cl_claim_key = key, cl_token = token\<rparr>) (\<lambda>c.
     Inr (''claim/'' @ key, E_claim [] c)))))"

definition claim_job ::
  "registry_client \<Rightarrow> objects \<Rightarrow> utc_datetime \<Rightarrow> digest \<Rightarrow> string \<Rightarrow> string \<Rightarrow> digest \<Rightarrow> disk
     \<Rightarrow> registry_error + disk \<times> claim" where
  "claim_job rc objs now jid owner key token dk =
     bind_result (transact rc now (claim_builder rc objs jid owner key token) dk) (\<lambda>(dk', state).
     returning (claim_of_key state key) dk')"

definition abandon ::
  "registry_client \<Rightarrow> objects \<Rightarrow> utc_datetime \<Rightarrow> claim \<Rightarrow> string \<Rightarrow> artifact_ref list \<Rightarrow> disk
     \<Rightarrow> registry_error + disk \<times> attempt_record" where
  "abandon rc objs now claim0 reason evidence0 dk =
     bind_result (validated valid_claim claim0) (\<lambda>c.
     bind_result (bounded_refs evidence0) (\<lambda>evidence.
     bind_result (transact rc now (\<lambda>state.
         bind_result (authenticate state c False) (\<lambda>_.
         bind_result (verify rc objs state evidence []) (\<lambda>rows.
         Inr (''abandon/'' @ cl_attempt_id c, E_abandon rows c reason evidence)))) dk) (\<lambda>(dk', state).
     returning (map_of (st_attempts state) (cl_attempt_id c)) dk')))"

definition retry ::
  "registry_client \<Rightarrow> objects \<Rightarrow> utc_datetime \<Rightarrow> digest \<Rightarrow> string \<Rightarrow> artifact_ref list \<Rightarrow> disk
     \<Rightarrow> registry_error + disk \<times> job_record" where
  "retry rc objs now jid reason evidence0 dk =
     bind_result (bounded_refs evidence0) (\<lambda>evidence.
     bind_result (transact rc now (\<lambda>state.
         bind_result (get_job state jid) (\<lambda>job.
         bind_result (verify rc objs state (evidence @ spec_refs (job_spec_of job)) []) (\<lambda>rows.
         Inr (''retry/'' @ jid @ ''/'' @ int_repr (int (length (job_attempts job))),
              E_retry rows jid reason evidence)))) dk) (\<lambda>(dk', state).
     returning (map_of (st_jobs state) jid) dk'))"

definition reconcile ::
  "registry_client \<Rightarrow> objects \<Rightarrow> utc_datetime \<Rightarrow> claim \<Rightarrow> cost_observation \<Rightarrow> disk
     \<Rightarrow> registry_error + disk \<times> observation_record" where
  "reconcile rc objs now claim0 observation0 dk =
     bind_result (validated valid_claim claim0) (\<lambda>c.
     bind_result (validated valid_observation observation0) (\<lambda>b.
     bind_result (transact rc now (\<lambda>state.
         bind_result (authenticate state c False) (\<lambda>_.
         bind_result (verify rc objs state (ob_receipts b) []) (\<lambda>rows.
         Inr (''reconcile/'' @ ob_source b @ ''/'' @ ob_upstream_attempt_id b @ ''/'' @ int_repr (ob_revision b),
              E_reconcile rows c b)))) dk) (\<lambda>(dk', state).
     returning (map_of (st_observations state)
       (observation_identity (rc_runtime rc) (cl_attempt_id c) b)) dk')))"

definition complete_builder ::
  "registry_client \<Rightarrow> objects \<Rightarrow> claim \<Rightarrow> operation_result \<Rightarrow> digest list \<Rightarrow> registry_state
     \<Rightarrow> registry_error + string \<times> event_data" where
  "complete_builder rc objs c result observations state =
     raise_if (int (length observations) > max_events (st_limits state))
       (RegistryLimit ''completion snapshot identities must be a bounded tuple'')
     (bind_result (authenticate state c False) (\<lambda>(attempt, job).
      raise_if (at_state attempt = A_abandoned)
        (StaleClaim ''abandoned attempt cannot finalize a job; reconcile its receipts separately'')
      (bind_result (references (doc_operation_result result)) (\<lambda>refs.
       bind_result (verify rc objs state (refs @ spec_refs (job_spec_of job)) []) (\<lambda>rows.
       Inr (''complete/'' @ job_id job, E_complete rows c result observations))))))"

definition complete_job ::
  "registry_client \<Rightarrow> objects \<Rightarrow> utc_datetime \<Rightarrow> claim \<Rightarrow> operation_result \<Rightarrow> digest list \<Rightarrow> disk
     \<Rightarrow> registry_error + disk \<times> job_record" where
  "complete_job rc objs now claim0 result0 observations dk =
     bind_result (validated valid_claim claim0) (\<lambda>c.
     bind_result (validated valid_operation_result result0) (\<lambda>result.
     raise_if (length observations > 100000)
       (RegistryLimit ''completion snapshot identities must be a bounded tuple'')
     (raise_if (\<not> distinct observations) (RegistryConflict ''duplicate completion accounting snapshot'')
     (bind_result (transact rc now (complete_builder rc objs c result (sort observations)) dk) (\<lambda>(dk', state).
      returning (map_of (st_jobs state) (cl_job_id c)) dk')))))"

section \<open>Readers\<close>

definition recover :: "registry_client \<Rightarrow> disk \<Rightarrow> registry_error + disk \<times> recovery_report" where
  "recover rc dk =
     bind_result (recovered (rc_runtime rc) (rc_parse rc) (rc_requested rc) dk) (\<lambda>(dk', state, events, report).
     Inr (dk', report))"

definition job_refs :: "job_record \<Rightarrow> registry_error + artifact_ref list" where
  "job_refs job =
     (case job_result job of
        None \<Rightarrow> Inr (spec_refs (job_spec_of job))
      | Some result \<Rightarrow> bind_result (references (doc_operation_result result)) (\<lambda>refs.
          Inr (spec_refs (job_spec_of job) @ refs)))"

definition read_job ::
  "registry_client \<Rightarrow> objects \<Rightarrow> digest \<Rightarrow> disk \<Rightarrow> registry_error + disk \<times> job_record" where
  "read_job rc objs jid dk = inspect rc (\<lambda>state _.
     bind_result (get_job state jid) (\<lambda>job.
     bind_result (job_refs job) (\<lambda>refs.
     bind_result (verify rc objs state refs []) (\<lambda>_. Inr job)))) dk"

definition read_attempts ::
  "registry_client \<Rightarrow> digest \<Rightarrow> disk \<Rightarrow> registry_error + disk \<times> attempt_record list" where
  "read_attempts rc jid dk = inspect rc (\<lambda>state _.
     bind_result (get_job state jid) (\<lambda>job.
     map_result (\<lambda>k. case map_of (st_attempts state) k of None \<Rightarrow> Inl (KeyError k) | Some a \<Rightarrow> Inr a)
       (job_attempts job))) dk"

definition read_accounting ::
  "registry_client \<Rightarrow> objects \<Rightarrow> digest \<Rightarrow> disk \<Rightarrow> registry_error + disk \<times> accounting_report" where
  "read_accounting rc objs jid dk = inspect rc (\<lambda>state _.
     bind_result (accounting state jid) (\<lambda>report.
     bind_result (verify rc objs state
         (concat (map (\<lambda>item. ob_receipts (obr_observation item)) (acc_observations report))) []) (\<lambda>_.
     Inr report))) dk"

definition read_observation ::
  "registry_client \<Rightarrow> objects \<Rightarrow> digest \<Rightarrow> disk \<Rightarrow> registry_error + disk \<times> observation_record" where
  "read_observation rc objs oid dk = inspect rc (\<lambda>state _.
     case map_of (st_observations state) oid of
       None \<Rightarrow> Inl (UnknownIdentity ''unknown accounting snapshot'')
     | Some item \<Rightarrow>
         bind_result (verify rc objs state (ob_receipts (obr_observation item)) []) (\<lambda>_. Inr item)) dk"

definition read_events ::
  "registry_client \<Rightarrow> int \<Rightarrow> int \<Rightarrow> disk \<Rightarrow> registry_error + disk \<times> registry_event list" where
  "read_events rc after limit dk =
     raise_if (after < 0 \<or> \<not> (1 \<le> limit \<and> limit \<le> 1000))
       (ValidationError ''event cursor must be nonnegative and page size 1..1000'')
     (inspect rc (\<lambda>_ events. Inr (take (nat limit) (filter (\<lambda>e. int (re_sequence e) > after) events))) dk)"

section \<open>Quarantine\<close>

definition quarantine ::
  "registry_client \<Rightarrow> objects \<Rightarrow> utc_datetime \<Rightarrow> artifact_ref \<Rightarrow> string \<Rightarrow> string \<Rightarrow> artifact_ref list \<Rightarrow> disk
     \<Rightarrow> registry_error + disk \<times> quarantine_notice" where
  "quarantine rc objs now ref0 notice_id reason evidence0 dk =
     bind_result (bounded_ref ref0) (\<lambda>ref.
     bind_result (bounded_refs evidence0) (\<lambda>evidence.
     bind_result (validated valid_notice
         \<lparr>qn_notice_id = notice_id, qn_root = ref, qn_reason = reason, qn_evidence = evidence, qn_active = True,
          qn_resolution_reason = None, qn_resolution_evidence = []\<rparr>) (\<lambda>notice.
     bind_result (transact rc now (\<lambda>state.
         bind_result (affected state ref) (\<lambda>_.
         bind_result (verify rc objs state evidence []) (\<lambda>rows.
         Inr (''quarantine/'' @ notice_id, E_quarantine rows notice)))) dk) (\<lambda>(dk', state).
     returning (map_of (st_notices state) notice_id) dk'))))"

definition lift_quarantine ::
  "registry_client \<Rightarrow> objects \<Rightarrow> utc_datetime \<Rightarrow> string \<Rightarrow> string \<Rightarrow> artifact_ref list \<Rightarrow> disk
     \<Rightarrow> registry_error + disk \<times> quarantine_notice" where
  "lift_quarantine rc objs now notice_id reason evidence0 dk =
     bind_result (bounded_refs evidence0) (\<lambda>evidence.
     bind_result (transact rc now (\<lambda>state.
         bind_result (verify rc objs state evidence []) (\<lambda>rows.
         Inr (''lift/'' @ notice_id, E_lift rows notice_id reason evidence))) dk) (\<lambda>(dk', state).
     returning (map_of (st_notices state) notice_id) dk'))"

definition trace_ref ::
  "registry_client \<Rightarrow> artifact_ref \<Rightarrow> disk \<Rightarrow> registry_error + disk \<times> trace_report" where
  "trace_ref rc ref0 dk =
     bind_result (bounded_ref ref0) (\<lambda>ref. inspect rc (\<lambda>state _. trace state ref) dk)"

definition assert_usable ::
  "registry_client \<Rightarrow> objects \<Rightarrow> artifact_ref \<Rightarrow> disk \<Rightarrow> registry_error + disk \<times> unit" where
  "assert_usable rc objs ref0 dk =
     bind_result (bounded_ref ref0) (\<lambda>ref. inspect rc (\<lambda>state _.
       bind_result (usable state [ref] {}) (\<lambda>_.
       bind_result (verify rc objs state [ref] []) (\<lambda>_. Inr ()))) dk)"

definition expand_limits ::
  "registry_client \<Rightarrow> utc_datetime \<Rightarrow> registry_limits \<Rightarrow> string \<Rightarrow> disk \<Rightarrow> registry_error + disk \<times> registry_limits" where
  "expand_limits rc now limits0 reason dk =
     bind_result (validated valid_limits limits0) (\<lambda>limits.
     bind_result (change (rc_runtime rc) (rc_parse rc) (rc_requested rc) now
         (expand_builder (rc_runtime rc) limits reason) dk) (\<lambda>(dk', state). Inr (dk', st_limits state)))"

section \<open>Repeating a request\<close>

lemma event_body_inject: "float_text_ok rt \<Longrightarrow> event_body rt a = event_body rt b \<Longrightarrow> a = b"
proof -
  assume ok: "float_text_ok rt" and eq: "event_body rt a = event_body rt b"
  then have "same_json (doc_event a) (doc_event b)"
    using canonical_json_eq_iff [OF ok] by (simp add: event_body_def)
  then have "re_event_id a = re_event_id b \<and> same_json (JObj (doc_event_body a)) (JObj (doc_event_body b))"
    by (simp add: doc_event_def doc_event_body_def same_json_simps)
  then show "a = b" by (auto simp: doc_event_body_same intro: registry_event.equality)
qed

lemma recovered_Inr:
  "recovered rt parse requested d0 = Inr (dk, state, events, report) \<longleftrightarrow>
     load rt parse requested (dk_database d0) = Inr (state, events)
     \<and> project (st_limits state) (bodies (dk_database d0)) d0 = Inr (dk, report)"
  by (auto simp: recovered_def result_simps)

lemma loaded_rows:
  "fold_result (load_row rt parse) es rows = Inr events \<Longrightarrow>
     \<exists>new. events = es @ new \<and> map (\<lambda>r. snd (snd r)) rows = map (event_body rt) new"
proof (induction rows arbitrary: es)
  case (Cons row rows)
  then obtain e where e: "row = (re_sequence e, re_semantic_key e, event_body rt e)"
      "fold_result (load_row rt parse) (es @ [e]) rows = Inr events"
    by (auto simp: load_row_Inr bind_result_eq_Inr)
  from Cons.IH [OF e(2)] obtain new where "events = (es @ [e]) @ new"
    "map (\<lambda>r. snd (snd r)) rows = map (event_body rt) new" by blast
  with e(1) show ?case by (intro exI [of _ "e # new"]) simp
qed simp

lemma loaded_bodies:
  assumes ok: "float_text_ok rt" and l: "load rt parse requested db = Inr (state, events)"
  shows "bodies db = map (event_body rt) events" "list_all is_line (bodies db)"
    "int (length (concat (bodies db))) \<le> max_journal_bytes (st_limits state)"
proof -
  have "fold_result (load_row rt parse) [] (db_events db) = Inr events" using l by (simp add: load_Inr load_history_Inr)
  from loaded_rows [OF this] show b: "bodies db = map (event_body rt) events" by (simp add: bodies_def case_prod_unfold)
  show "list_all is_line (bodies db)" using event_body_line [OF ok] by (simp add: b list_all_iff)
  show "int (length (concat (bodies db))) \<le> max_journal_bytes (st_limits state)"
    using l by (simp add: load_Inr load_history_Inr total_bytes_concat)
qed

lemma recovered_again:
  assumes "float_text_ok rt" "load rt parse requested (dk_database d0) = Inr (state, events)"
    and "project (st_limits state) (bodies (dk_database d0)) d0 = Inr (dk, report)"
  shows "load rt parse requested (dk_database dk) = Inr (state, events)
     \<and> (\<exists>report'. recovered rt parse requested dk = Inr (dk, state, events, report'))"
proof -
  let ?raw = "bodies (dk_database d0)"
  note b = loaded_bodies [OF assms(1,2)]
  have dk: "dk = projected ?raw d0" using project_Inr [OF b(2,3)] assms(3) by blast
  then have same: "bodies (dk_database dk) = ?raw" by (simp add: projected_def bodies_def)
  have load: "load rt parse requested (dk_database dk) = Inr (state, events)"
    using assms(2) by (simp add: dk projected_def load_Inr load_history_Inr bodies_def)
  have "\<exists>r. project (st_limits state) ?raw dk = Inr (dk, r)"
    using project_Inr [OF b(2,3), of dk dk] projected_ok [OF b(2), of d0] projected_idem [of ?raw d0] dk by simp
  then show ?thesis using load same by (auto simp: recovered_Inr)
qed

lemma load_acknowledged: "load rt parse requested (db\<lparr>db_acknowledged := n\<rparr>) = load rt parse requested db"
  by (simp add: load_def load_history_def bodies_def)

lemma project_database:
  "project limits raw d = Inr (d', r) \<Longrightarrow> \<exists>n. dk_database d' = (dk_database d)\<lparr>db_acknowledged := n\<rparr>"
  by (auto simp: project_def Let_def result_simps)

lemma find_append: "find P (xs @ ys) = (case find P xs of None \<Rightarrow> find P ys | Some x \<Rightarrow> Some x)"
  by (induction xs) auto

text \<open>
  What an accepted change leaves behind: the committed disk loads to the returned state; either
  nothing was asked for, or the event of the key is in the history, appended now or found there.
\<close>

lemma appended_loads:
  assumes ok: "float_text_ok rt" and old: "load rt parse requested (dk_database dk) = Inr (state, events)"
    and step: "append_event rt state events key now d dk = Inr (dk', state')"
    and loads: "load rt parse requested (dk_database dk') = Inr (t, events')"
  shows "t = state' \<and> events' = events @ [next_event rt events key now d]"
proof -
  let ?e = "next_event rt events key now d"
  obtain db where p: "persist rt (st_limits state') ?e state' (dk_database dk) = Inr db"
      "dk' = dk\<lparr>dk_database := db\<lparr>db_limits := st_limits state'\<rparr>\<rparr>"
    using append_event_Inr(5) [OF step] by blast
  have table: "db_events (dk_database dk') = db_events (dk_database dk) @ [(re_sequence ?e, re_semantic_key ?e, event_body rt ?e)]"
    using p by (auto simp: persist_Inr)
  have rows: "fold_result (load_row rt parse) [] (db_events (dk_database dk)) = Inr events"
    "fold_result (load_row rt parse) [] (db_events (dk_database dk')) = Inr events'"
    using old loads by (simp_all add: load_Inr load_history_Inr)
  then obtain e' where e': "parse (event_body rt e') = Some e'" "event_body rt e' = event_body rt ?e"
    by (auto simp: table fold_result_append load_row_Inr result_simps)
  then have "parse (event_body rt ?e) = Some ?e" using event_body_inject [OF ok] by metis
  from append_reloads [OF old step this] loads show ?thesis by simp
qed

lemma change_commits:
  assumes ok: "float_text_ok rt" and c: "change rt parse requested now builder d0 = Inr (dk', t)"
    and loads: "load rt parse requested (dk_database dk') = Inr (t', events)"
  shows "\<exists>state report. recovered rt parse requested dk' = Inr (dk', t, events, report)
     \<and> ((builder state = Inr None \<and> t = state)
      \<or> (\<exists>key d prior. builder state = Inr (Some (key, d)) \<and> find (\<lambda>e. re_semantic_key e = key) events = Some prior
          \<and> ((state = t \<and> same_request rt t prior d = Inr True)
           \<or> (re_data prior = new_rows state d \<and> apply_event rt state (new_rows state d) = Inr t))))"
proof -
  from c obtain dk state es report built where r: "load rt parse requested (dk_database d0) = Inr (state, es)"
      "project (st_limits state) (bodies (dk_database d0)) d0 = Inr (dk, report)" "builder state = Inr built"
      and rest: "(case built of None \<Rightarrow> Inr (dk, state)
     | Some (key, d) \<Rightarrow>
        (case find (\<lambda>e. re_semantic_key e = key) es of
           Some prior \<Rightarrow>
             bind_result (same_request rt state prior d) (\<lambda>same.
             raise_if (\<not> same) (RegistryConflict ''semantic event key reused with different content'')
             (Inr (dk, state)))
         | None \<Rightarrow>
             bind_result (append_event rt state es key now (new_rows state d) dk) (\<lambda>(dk', state').
             bind_result (project (st_limits state') (bodies (dk_database dk')) dk') (\<lambda>(dk'', report').
             Inr (dk'', state'))))) = Inr (dk', t)"
    unfolding change_def by (auto simp: recovered_Inr bind_result_eq_Inr)
  obtain report1 where again: "load rt parse requested (dk_database dk) = Inr (state, es)"
      "recovered rt parse requested dk = Inr (dk, state, es, report1)"
    using recovered_again [OF ok r(1,2)] by blast
  consider "built = None" | key d prior where "built = Some (key, d)" "find (\<lambda>e. re_semantic_key e = key) es = Some prior"
    | key d where "built = Some (key, d)" "find (\<lambda>e. re_semantic_key e = key) es = None"
    by (metis not_None_eq surj_pair)
  then show ?thesis
  proof cases
    case 1
    with rest have same: "dk' = dk" "t = state" by simp_all
    then have "events = es" using again(1) loads by simp
    then show ?thesis using 1 r(3) same again(2) by blast
  next
    case 2
    with rest have same: "dk' = dk" "t = state" "same_request rt state prior d = Inr True"
      by (auto simp: result_simps)
    then have "events = es" using again(1) loads by simp
    then show ?thesis using 2 r(3) same again(2) by blast
  next
    case 3
    let ?e = "next_event rt es key now (new_rows state d)"
    from 3 rest obtain dk1 report' where a: "append_event rt state es key now (new_rows state d) dk = Inr (dk1, t)"
        "project (st_limits t) (bodies (dk_database dk1)) dk1 = Inr (dk', report')"
      by (auto simp: result_simps)
    have "load rt parse requested (dk_database dk1) = Inr (t', events)"
      using loads project_database [OF a(2)] by (auto simp: load_acknowledged)
    from appended_loads [OF ok again(1) a(1) this] have now: "t' = t" "events = es @ [?e]" by simp_all
    then obtain report2 where "recovered rt parse requested dk' = Inr (dk', t, events, report2)"
      using recovered_again [OF ok _ a(2)] \<open>load rt parse requested (dk_database dk1) = Inr (t', events)\<close> by blast
    moreover have "find (\<lambda>e. re_semantic_key e = key) events = Some ?e"
      using 3(2) by (simp add: now(2) find_append next_event_def Let_def)
    ultimately show ?thesis using 3(1) r(3) append_event_Inr(1) [OF a(1)] by fastforce
  qed
qed

lemma read_object_valid: "read_object rc objs limits cap ref = Inr x \<Longrightarrow> valid_ref ref"
  by (auto simp: read_object_def result_simps get_bytes_Inr get_artifact_Inr split: if_splits)

lemma verified_rows:
  assumes "verify rc objs s roots explicit = Inr rows"
  shows "r \<in> set rows \<Longrightarrow> valid_ref (rec_ref r)"
    "r \<in> set rows \<Longrightarrow> d \<in> set (rec_dependencies r) \<Longrightarrow> \<exists>r' \<in> set rows. rec_ref r' = d"
    "r \<in> set rows \<Longrightarrow> int (length (rec_dependencies r)) \<le> max_closure_artifacts (st_limits s)"
    "distinct (map (\<lambda>r. ref_sha256 (rec_ref r)) rows)" "sorted (map (\<lambda>r. ref_sha256 (rec_ref r)) rows)"
proof -
  obtain out seen where o: "rows = map snd (sort_key fst out)" "rows_for seen out"
    "walked rc objs s explicit (rev roots) [] out"
    using verify_rows [OF assms] by metis
  note mem = in_sorted_rows [OF o(2), folded o(1)]
  show "distinct (map (\<lambda>r. ref_sha256 (rec_ref r)) rows)" "sorted (map (\<lambda>r. ref_sha256 (rec_ref r)) rows)"
    using sorted_shas [OF o(2)] unfolding o(1) by blast+
  assume "r \<in> set rows"
  then have r: "map_of out (ref_sha256 (rec_ref r)) = Some r" by (simp add: mem)
  have facts: "\<forall>d \<in> set (rec_dependencies r). registered out d"
    "\<exists>used used'. visit rc objs s explicit used (rec_ref r) = Inr (r, used')"
    using o(3) r by (auto simp: walked_def)
  then obtain used used' where v: "visit rc objs s explicit used (rec_ref r) = Inr (r, used')" by blast
  show "valid_ref (rec_ref r)" using visit_Inr(3) [OF v] read_object_valid by blast
  show "int (length (rec_dependencies r)) \<le> max_closure_artifacts (st_limits s)" by (rule visit_Inr(6) [OF v])
  show "\<exists>r' \<in> set rows. rec_ref r' = d" if "d \<in> set (rec_dependencies r)"
  proof -
    from facts(1) that obtain r' where "map_of out (ref_sha256 d) = Some r'" "rec_ref r' = d"
      by (auto simp: registered_def split: option.splits)
    then show ?thesis using mem by auto
  qed
qed

lemma verified_rows_valid:
  assumes "verify rc objs s roots explicit = Inr rows" "max_closure_artifacts (st_limits s) \<le> 10000"
  shows "list_all valid_artifact_record rows"
  unfolding list_all_iff
proof
  fix r assume r: "r \<in> set rows"
  have "valid_ref d" if "d \<in> set (rec_dependencies r)" for d
    using verified_rows(1,2) [OF assms(1)] r that by metis
  then show "valid_artifact_record r"
    using verified_rows(1,3) [OF assms(1) r] assms(2)
    by (auto simp: valid_artifact_record_def valid_refs_def list_all_iff)
qed

lemma new_rows_installed:
  assumes "apply_event rt s (new_rows s (E_register rows)) = Inr t" "r \<in> set rows"
  shows "map_of (st_artifacts t) (ref_sha256 (rec_ref r)) = Some r" "st_limits t = st_limits s"
proof -
  let ?new = "filter (\<lambda>r. map_of (st_artifacts s) (ref_sha256 (rec_ref r)) \<noteq> Some r) rows"
  have a: "apply_rows s ?new = Inr t"
    using assms(1) by (simp add: new_rows_def apply_event_def bind_result_eq_Inr)
  then have f: "fold_result install_record (st_artifacts s) ?new = Inr (st_artifacts t)"
    by (auto simp: apply_rows_def install_def result_simps)
  show "map_of (st_artifacts t) (ref_sha256 (rec_ref r)) = Some r"
    using assms(2) fold_install_lookup [OF f, of "ref_sha256 (rec_ref r)" r] by auto
  show "st_limits t = st_limits s" using apply_rows_same [OF a] by simp
qed

lemma request_repeats:
  assumes "list_all valid_artifact_record rows" "distinct (map (\<lambda>r. ref_sha256 (rec_ref r)) rows)"
    and "\<And>r. r \<in> set rows \<Longrightarrow> map_of (st_artifacts t) (ref_sha256 (rec_ref r)) = Some r"
    and "re_data prior = E_register old" "set old \<subseteq> set rows"
  shows "same_request rt t prior (E_register rows) = Inr True"
proof -
  let ?f = "\<lambda>r. ref_sha256 (rec_ref r)"
  have d: "foldl (\<lambda>m r. dict_put (?f r) r m) [] rows = dict_of ?f rows" by (simp add: dict_of_def)
  have "list_all (\<lambda>(k, r). map_of (st_artifacts t) k = Some r) (dict_of ?f rows)"
    using assms(3) by (simp add: dict_of_distinct [OF assms(2)] list_all_iff)
  moreover have "list_all (\<lambda>r. map_of (dict_of ?f rows) (?f r) = Some r) old"
    using assms(5) map_of_dict_of [OF assms(2)] by (auto simp: list_all_iff)
  moreover have "map_result (validated valid_artifact_record) rows = Inr rows" using assms(1) by (simp add: map_validated)
  ultimately show ?thesis using assms(4) by (simp add: same_request_def d doc_request_def Let_def)
qed

abbreviation register_builder ::
  "registry_client \<Rightarrow> objects \<Rightarrow> artifact_ref \<Rightarrow> artifact_ref list \<Rightarrow> registry_state
     \<Rightarrow> registry_error + string \<times> event_data" where
  "register_builder rc objs ref deps \<equiv> \<lambda>state.
     bind_result (verify rc objs state [ref] [(ref_sha256 ref, deps)]) (\<lambda>rows.
     Inr (''register/'' @ ref_sha256 ref, E_register rows))"

lemma register_Inr:
  "register rc objs now ref deps dk = Inr (dk', r) \<longleftrightarrow>
     length (ref_kind ref) \<le> 256 \<and> valid_ref ref \<and> bounded_refs deps = Inr deps \<and> distinct deps
     \<and> (\<exists>state. transact rc now (register_builder rc objs ref deps) dk = Inr (dk', state)
          \<and> map_of (st_artifacts state) (ref_sha256 ref) = Some r)"
proof -
  have "bounded_refs deps = Inr ds \<Longrightarrow> ds = deps" for ds by (auto simp: bounded_refs_Inr)
  then show ?thesis
    by (cases "bounded_refs deps") (auto simp: register_def returning_Inr result_simps)
qed

lemma register_again:
  assumes ok: "float_text_ok (rc_runtime rc)" and r: "register rc objs now ref deps dk = Inr (dk', r)"
    and loads: "load (rc_runtime rc) (rc_parse rc) (rc_requested rc) (dk_database dk') = Inr (t, events)"
    and cap: "max_closure_artifacts (st_limits t) \<le> 10000"
  shows "register rc objs later ref deps dk' = Inr (dk', r)"
proof -
  let ?rt = "rc_runtime rc" and ?key = "''register/'' @ ref_sha256 ref"
  let ?b = "\<lambda>state. bind_result (register_builder rc objs ref deps state) (\<lambda>built. Inr (Some built))"
  note reg = r [unfolded register_Inr transact_def]
  then obtain u where u: "change ?rt (rc_parse rc) (rc_requested rc) now ?b dk = Inr (dk', u)"
      "map_of (st_artifacts u) (ref_sha256 ref) = Some r" by blast
  have some: "?b state \<noteq> Inr None" for state by (cases "register_builder rc objs ref deps state") simp_all
  from change_commits [OF ok u(1) loads] some obtain state report key d prior where
      rec: "recovered ?rt (rc_parse rc) (rc_requested rc) dk' = Inr (dk', u, events, report)"
      and b: "?b state = Inr (Some (key, d))" "find (\<lambda>e. re_semantic_key e = key) events = Some prior"
      and found: "(state = u \<and> same_request ?rt u prior d = Inr True)
           \<or> (re_data prior = new_rows state d \<and> apply_event ?rt state (new_rows state d) = Inr u)"
    by metis
  have tu: "t = u" using rec loads by (simp add: recovered_Inr)
  from b(1) obtain rows where v: "verify rc objs state [ref] [(ref_sha256 ref, deps)] = Inr rows"
      "d = E_register rows" "key = ?key" by (auto simp: result_simps)
  have again: "verify rc objs u [ref] [(ref_sha256 ref, deps)] = Inr rows \<and> same_request ?rt u prior d = Inr True"
    using found
  proof
    assume "state = u \<and> same_request ?rt u prior d = Inr True"
    with v(1) show ?thesis by simp
  next
    assume f: "re_data prior = new_rows state d \<and> apply_event ?rt state (new_rows state d) = Inr u"
    note inst = new_rows_installed [of ?rt state rows u, OF f [THEN conjunct2, unfolded v(2)]]
    have lim: "st_limits u = st_limits state"
      using f apply_keeps_limits [of ?rt state "new_rows state d" u] by (simp add: v(2) new_rows_def)
    have "list_all valid_artifact_record rows"
      using verified_rows_valid [OF v(1)] cap tu lim by simp
    moreover have "same_request ?rt u prior (E_register rows) = Inr True"
      by (rule request_repeats [OF calculation verified_rows(4) [OF v(1)] inst(1)])
        (use f in \<open>auto simp: v(2) new_rows_def\<close>)
    moreover have "verify rc objs u [ref] [(ref_sha256 ref, deps)] = Inr rows"
      by (rule verify_again [OF v(1) _ lim inst(1)]) simp_all
    ultimately show ?thesis by (simp add: v(2))
  qed
  then have "change ?rt (rc_parse rc) (rc_requested rc) later ?b dk' = Inr (dk', u)"
    using rec b(2) v(2,3) by (simp add: change_def)
  then show ?thesis using reg u(2) by (auto simp: register_Inr transact_def)
qed

lemma verified_roots:
  assumes "verify rc objs s roots explicit = Inr rows" "p \<in> set roots"
  shows "p \<in> (\<lambda>r. rec_ref r) ` set rows"
proof -
  obtain out seen where o: "rows = map snd (sort_key fst out)" "rows_for seen out"
    "walked rc objs s explicit (rev roots) [] out"
    using verify_rows [OF assms(1)] by metis
  have "registered out p" using o(3) assms(2) by (simp add: walked_def)
  then obtain r where r: "map_of out (ref_sha256 p) = Some r" "rec_ref r = p"
    by (auto simp: registered_def split: option.splits)
  then have "r \<in> set rows" using in_sorted_rows [OF o(2), folded o(1), of r] by simp
  with r(2) show ?thesis by blast
qed

end
