(* ===== verification/StoreGuarantees.thy ===== *)
theory StoreGuarantees
  imports ArtifactStore RegistrySamples
begin

text \<open>
  What the object store promises its clients: what was put is read back unchanged by every permitted
  role after any number of later writes, roles confine what is read and written, a published
  artifact never mentions a restricted reference, and a reference determines its content.
\<close>

section \<open>Reading back\<close>

lemma put_bytes_reads:
  assumes "float_text_ok rt" "put_bytes rt role objs data kind vis = Inr (ref, objs')"
    and "parses rt cd (envelope kind 1 vis Enc_bytes (JStr (b64encode data)))" "vis \<in> ACCESS reader"
  shows "get_bytes rt cd reader objs' ref None None = Inr data"
proof -
  have k: "kind \<notin> set ARTIFACT_TYPES"
    and p: "put rt role objs kind vis Enc_bytes (JStr (b64encode data)) 1 = Inr (ref, objs')"
    using assms(2) by (auto simp: put_bytes_def result_simps)
  note ref = put_Inr(2,3) [OF p]
  obtain payload where g: "get_payload rt cd reader objs' ref None = Inr payload"
      "same_json payload (JStr (b64encode data))"
    using put_payload_reads [OF assms(1) p assms(3,4)] by blast
  then have "payload = JStr (b64encode data)" by (simp add: same_json_def sorted_json_atoms)
  moreover have "bytes_of_payload (JStr (b64encode data)) None = Inr data" by (rule bytes_of_encoded) simp
  ultimately show ?thesis using g(1) ref k by (auto simp: get_bytes_Inr)
qed

lemma put_artifact_reads:
  assumes f: "float_text_ok rt" and p: "put_artifact rt cd role objs a = Inr (ref, objs')"
    and c: "parses rt cd (envelope (am_kind (artifact_base a)) (am_schema_version (artifact_base a))
        (am_visibility (artifact_base a)) Enc_json (dump cd a))"
    and d: "unique_keys (dump cd a)" "load_model cd (am_kind (artifact_base a)) (canonical_json rt (dump cd a)) = Some a"
    and r: "am_visibility (artifact_base a) \<in> ACCESS reader"
  shows "get_artifact rt cd reader objs' ref None = Inr a"
proof -
  let ?b = "artifact_base a"
  have v: "valid_artifact a" and e: "check_exposure (am_visibility ?b) (dump cd a) = Inr ()"
    and q: "put rt role objs (am_kind ?b) (am_visibility ?b) Enc_json (dump cd a) (am_schema_version ?b) = Inr (ref, objs')"
    using p by (auto simp: put_artifact_def Let_def result_simps)
  note ref = put_Inr(2,3) [OF q]
  obtain payload where g: "get_payload rt cd reader objs' ref None = Inr payload"
      "same_json payload (dump cd a)" "unique_keys payload"
    using put_payload_reads [OF f q c r] by blast
  have "canonical_json rt payload = canonical_json rt (dump cd a)" using g(2) canonical_json_eq_iff [OF f] by blast
  moreover have "public_refs P payload = public_refs P (dump cd a)" for P
    using public_refs_same [OF g(2,3) d(1)] .
  ultimately show ?thesis
    using g(1) ref d(2) e artifact_kind_known [OF v] by (auto simp: get_artifact_Inr)
qed

text \<open>
  C22: bytes stored under a kind are read back unchanged: whoever may read the visibility gets
  exactly the stored bytes from the returned reference, also after any number of further accepted
  writes by any role.
\<close>

theorem bytes_round_trip:
  assumes "float_text_ok rt" "put_bytes rt role objs data kind vis = Inr (ref, objs')"
    and "parses rt cd (envelope kind 1 vis Enc_bytes (JStr (b64encode data)))" "vis \<in> ACCESS reader"
    and "(stored rt cd)\<^sup>*\<^sup>* objs' later"
  shows "get_bytes rt cd reader later ref None None = Inr data"
  using byte_store.later_keeps [OF assms(5), of "(reader, ref)" data] put_bytes_reads [OF assms(1-4)] by simp

text \<open>
  C23: a published artifact is read back as the same model by every role permitted to see it, after
  any number of further accepted writes, provided pydantic loads what it dumped.
\<close>

theorem artifact_round_trip:
  assumes "float_text_ok rt" "put_artifact rt cd role objs a = Inr (ref, objs')"
    and "parses rt cd (envelope (am_kind (artifact_base a)) (am_schema_version (artifact_base a))
        (am_visibility (artifact_base a)) Enc_json (dump cd a))"
    and "unique_keys (dump cd a)" "load_model cd (am_kind (artifact_base a)) (canonical_json rt (dump cd a)) = Some a"
    and "am_visibility (artifact_base a) \<in> ACCESS reader" "(stored rt cd)\<^sup>*\<^sup>* objs' later"
  shows "get_artifact rt cd reader later ref None = Inr a"
  using artifact_store.later_keeps [OF assms(7), of "(reader, ref)" a] put_artifact_reads [OF assms(1-6)] by simp

section \<open>Confinement\<close>

lemma put_needs: "put rt role objs kind vis enc payload version = Inr r \<Longrightarrow> vis \<in> ACCESS role \<and> role \<noteq> R_REVIEWER"
  using put_Inr(4,5) by (cases r) blast

text \<open>
  C24: roles are confined: a successful read is of a visibility the role may see, a successful write
  publishes only visibilities the role may see and never comes from a reviewer, a solver reads
  public objects only, and an artifact a solver reads mentions public references only.
\<close>

theorem roles_confined:
  "(get_bytes rt cd role objs ref ecap pcap = Inr data \<longrightarrow> ref_visibility ref \<in> ACCESS role)
   \<and> (get_artifact rt cd role objs ref ecap = Inr a \<longrightarrow> ref_visibility ref \<in> ACCESS role
        \<and> am_visibility (artifact_base a) = ref_visibility ref)
   \<and> (put_bytes rt role objs data kind vis = Inr p \<longrightarrow> vis \<in> ACCESS role \<and> role \<noteq> R_REVIEWER)
   \<and> (put_artifact rt cd role objs b = Inr q \<longrightarrow>
        am_visibility (artifact_base b) \<in> ACCESS role \<and> role \<noteq> R_REVIEWER)
   \<and> (get_artifact rt cd R_SOLVER objs ref ecap = Inr a \<longrightarrow> ref_visibility ref = V_PUBLIC
        \<and> (\<exists>payload. get_payload rt cd R_SOLVER objs ref ecap = Inr payload \<and> public_refs {V_PUBLIC} payload))"
proof (intro conjI impI)
  show "ref_visibility ref \<in> ACCESS role" if "get_bytes rt cd role objs ref ecap pcap = Inr data"
    using that by (auto simp: get_bytes_Inr get_payload_Inr)
  show "ref_visibility ref \<in> ACCESS role" "am_visibility (artifact_base a) = ref_visibility ref"
    if "get_artifact rt cd role objs ref ecap = Inr a"
    using that by (auto simp: get_artifact_Inr get_payload_Inr)
  show "vis \<in> ACCESS role" "role \<noteq> R_REVIEWER" if "put_bytes rt role objs data kind vis = Inr p"
    using that by (auto simp: put_bytes_def result_simps dest: put_needs)
  show "am_visibility (artifact_base b) \<in> ACCESS role" "role \<noteq> R_REVIEWER"
    if "put_artifact rt cd role objs b = Inr q"
    using that by (auto simp: put_artifact_def Let_def result_simps dest: put_needs)
  show pub: "ref_visibility ref = V_PUBLIC" if "get_artifact rt cd R_SOLVER objs ref ecap = Inr a"
    using that by (auto simp: get_artifact_Inr get_payload_Inr ACCESS_def)
  show "\<exists>payload. get_payload rt cd R_SOLVER objs ref ecap = Inr payload \<and> public_refs {V_PUBLIC} payload"
    if "get_artifact rt cd R_SOLVER objs ref ecap = Inr a"
    using that pub [OF that] by (auto simp: get_artifact_Inr)
qed



section \<open>A store with one object\<close>

definition store_runtime :: runtime where
  "store_runtime = \<lparr>sha256 = \<lambda>_. replicate 64 CHR ''0'', float_repr = fraction_repr\<rparr>"

definition sample_evidence :: evidence_record where
  "sample_evidence = \<lparr>ev_producer = ''intake'', ev_command = [''fetch''], ev_recorded_at = ''2024-01-01T00:00:00Z'', ev_exit_status = 0,
     ev_artifacts = [sample_ref CHR ''a''], ev_revision = replicate 40 CHR ''1'', ev_scope = Scope_source_inspection\<rparr>"

definition discovery_cost :: cost_record where
  "discovery_cost = \<lparr>cost_category = C_discovery, cost_wall_seconds = Some 1, cost_cpu_seconds = None,
     cost_gpu_seconds = None, cost_input_tokens = None, cost_output_tokens = None, cost_human_minutes = None,
     cost_usd = None, cost_measurement = M_partial, cost_note = ''wall clock only''\<rparr>"

definition sample_candidate :: artifact where
  "sample_candidate = Candidate \<lparr>am_kind = ''CandidateRecord'', am_schema_version = 2, am_visibility = V_AUTHORING,
     am_provenance = \<lparr>prov_producer = ''intake'', prov_producer_version = ''1'', prov_created_at = ''2024-01-01T00:00:00Z'',
       prov_inputs = [], prov_evidence = [sample_evidence]\<rparr>,
     am_costs = [discovery_cost],
     cand_provenance_label = L_historical_request, cand_repository_url = ''https://example.org/r'',
     cand_repository_family = ''r'', cand_request_lineage = [''issue-1''], cand_partition = P_TRAIN,
     cand_sources = [\<lparr>ss_url = ''https://example.org/r/1'', ss_content = sample_ref CHR ''a'', ss_retrieved_at = ''2024-01-01T00:00:00Z'',
       ss_published_at = None, ss_edited_at = None, ss_edit_history = Edits_unavailable,
       ss_media_type = ''text/html'', ss_redirect_chain = None\<rparr>],
     cand_license = \<lparr>lic_spdx_id = Some ''MIT'', lic_license_text = None, lic_status = License_verified,
       lic_evidence = [sample_evidence]\<rparr>,
     cand_commits = \<lparr>cr_integration = Int_merge, cr_target_before = None, cr_integrated_after = None,
       cr_implementation_commits = [replicate 40 CHR ''2''], cr_parents = [], cr_evidence = [sample_evidence]\<rparr>,
     cand_screening = \<lparr>sd_disposition = D_SUCCESS, sd_reason = ''admissible'', sd_evidence = [sample_evidence]\<rparr>\<rparr>"

definition sample_dump :: json where
  "sample_dump = JObj [(''kind'', JStr ''CandidateRecord''), (''schema_version'', JInt 2)]"

definition sample_codec :: "json \<Rightarrow> codec" where
  "sample_codec v =
     \<lparr>loads = \<lambda>t. if t = canonical_json store_runtime v then Some v else None,
      dump = \<lambda>_. sample_dump, load_model = \<lambda>_ _. Some sample_candidate\<rparr>"

definition bytes_envelope :: json where
  "bytes_envelope = envelope ''payload'' 1 V_PUBLIC Enc_bytes (JStr (b64encode ''text''))"

definition candidate_envelope :: json where
  "candidate_envelope = envelope ''CandidateRecord'' 2 V_AUTHORING Enc_json sample_dump"

definition bytes_ref :: artifact_ref where
  "bytes_ref = \<lparr>ref_sha256 = replicate 64 CHR ''0'', ref_kind = ''payload'', ref_schema_version = 1,
     ref_visibility = V_PUBLIC, ref_encoding = Enc_bytes\<rparr>"

definition candidate_ref :: artifact_ref where
  "candidate_ref = \<lparr>ref_sha256 = replicate 64 CHR ''0'', ref_kind = ''CandidateRecord'', ref_schema_version = 2,
     ref_visibility = V_AUTHORING, ref_encoding = Enc_json\<rparr>"

lemma store_float_text: "float_text_ok store_runtime"
  by (rule table_float_text) (simp add: store_runtime_def)

lemma sample_parses: "unique_keys v \<Longrightarrow> parses store_runtime (sample_codec v) v"
  by (simp add: parses_def sample_codec_def same_json_def)

lemma sample_put_bytes:
  "put_bytes store_runtime R_CONTROLLER [] ''text'' ''payload'' V_PUBLIC
     = Inr (bytes_ref, [(object_name (replicate 64 CHR ''0''), canonical_json store_runtime bytes_envelope)])"
  by code_simp

lemma sample_put_artifact:
  "put_artifact store_runtime (sample_codec candidate_envelope) R_AUTHOR [] sample_candidate
     = Inr (candidate_ref, [(object_name (replicate 64 CHR ''0''), canonical_json store_runtime candidate_envelope)])"
  by code_simp

definition bytes_store :: objects where
  "bytes_store = [(object_name (replicate 64 CHR ''0''), canonical_json store_runtime bytes_envelope)]"

definition candidate_store :: objects where
  "candidate_store = [(object_name (replicate 64 CHR ''0''), canonical_json store_runtime candidate_envelope)]"

theorem bytes_round_trip_witness:
  "get_bytes store_runtime (sample_codec bytes_envelope) R_SOLVER bytes_store bytes_ref None None = Inr ''text''"
proof (rule bytes_round_trip [OF store_float_text sample_put_bytes [folded bytes_store_def]])
  show "parses store_runtime (sample_codec bytes_envelope)
      (envelope ''payload'' 1 V_PUBLIC Enc_bytes (JStr (b64encode ''text'')))"
    unfolding bytes_envelope_def [symmetric] by (rule sample_parses) code_simp
qed (simp_all add: ACCESS_def)

theorem artifact_round_trip_witness:
  "get_artifact store_runtime (sample_codec candidate_envelope) R_AUTHOR candidate_store candidate_ref None
     = Inr sample_candidate"
proof (rule artifact_round_trip [OF store_float_text sample_put_artifact [folded candidate_store_def]])
  have "envelope (am_kind (artifact_base sample_candidate)) (am_schema_version (artifact_base sample_candidate))
      (am_visibility (artifact_base sample_candidate)) Enc_json (dump (sample_codec candidate_envelope) sample_candidate)
      = candidate_envelope"
    by code_simp
  moreover have "parses store_runtime (sample_codec candidate_envelope) candidate_envelope"
    by (rule sample_parses) code_simp
  ultimately show "parses store_runtime (sample_codec candidate_envelope)
      (envelope (am_kind (artifact_base sample_candidate)) (am_schema_version (artifact_base sample_candidate))
        (am_visibility (artifact_base sample_candidate)) Enc_json (dump (sample_codec candidate_envelope) sample_candidate))"
    by simp
  show "unique_keys (dump (sample_codec candidate_envelope) sample_candidate)" by code_simp
  show "load_model (sample_codec candidate_envelope) (am_kind (artifact_base sample_candidate))
      (canonical_json store_runtime (dump (sample_codec candidate_envelope) sample_candidate)) = Some sample_candidate"
    by (simp add: sample_codec_def)
  show "am_visibility (artifact_base sample_candidate) \<in> ACCESS R_AUTHOR" by code_simp
qed simp


lemma sample_get_artifact:
  "get_artifact store_runtime (sample_codec candidate_envelope) R_AUTHOR candidate_store candidate_ref None
     = Inr sample_candidate"
  by code_simp

theorem roles_confined_witness:
  "ref_visibility candidate_ref \<in> ACCESS R_AUTHOR
     \<and> am_visibility (artifact_base sample_candidate) = ref_visibility candidate_ref"
  using roles_confined [where rt = store_runtime and cd = "sample_codec candidate_envelope" and role = R_AUTHOR
      and objs = candidate_store and ref = candidate_ref and ecap = None and a = sample_candidate]
    sample_get_artifact by blast


end
