(* ===== verification/RegistryApiGuarantees.thy ===== *)
theory RegistryApiGuarantees
  imports RegistryApi StoreGuarantees RegistryGuarantees
begin

text \<open>
  What the registry operations guarantee about the objects behind them: which references a document
  contributes, what an accepted closure walk has read, that registering again changes nothing, and
  that a completion has read everything it reports.
\<close>

text \<open>
  C26: \<open>references\<close>, a worklist over nested dictionaries and lists, returns exactly the reference
  objects of the document, outermost ones only, each validated, in reverse document order, and
  raises exactly if one of them is not a valid reference.
\<close>

theorem references_exact:
  "references v = map_result ref_of_object (rev (ref_objects v))"
  by (rule references_flatten)


text \<open>
  C28: registering is idempotent: repeating an accepted registration at any later time on the disk
  it left, once that disk loads, is accepted, returns the same record and leaves the disk as it is.
\<close>

theorem register_idempotent:
  assumes "float_text_ok (rc_runtime rc)" "register rc objs now ref deps dk = Inr (dk', r)"
    and "load (rc_runtime rc) (rc_parse rc) (rc_requested rc) (dk_database dk') = Inr (t, events)"
    and "max_closure_artifacts (st_limits t) \<le> 10000"
  shows "register rc objs later ref deps dk' = Inr (dk', r)"
  by (rule register_again [OF assms])


section \<open>A registry with one artifact\<close>

definition bytes_row :: artifact_record where
  "bytes_row = \<lparr>rec_ref = bytes_ref, rec_dependencies = []\<rparr>"

definition bytes_key :: string where
  "bytes_key = ''register/'' @ replicate 64 CHR ''0''"

definition bytes_event :: registry_event where
  "bytes_event = next_event store_runtime [] bytes_key ''2024-01-01T00:00:00Z''
     (E_register [bytes_row])"

definition sample_client :: registry_client where
  "sample_client = \<lparr>rc_runtime = store_runtime, rc_codec = sample_codec bytes_envelope, rc_policy = \<lambda>_. None,
     rc_references = \<lambda>_. None, rc_parse = \<lambda>_. Some bytes_event, rc_requested = default_limits\<rparr>"



definition bytes_state :: registry_state where
  "bytes_state = (initial_state default_limits)\<lparr>st_artifacts := [(ref_sha256 bytes_ref, bytes_row)]\<rparr>"

definition bytes_disk :: disk where
  "bytes_disk = \<lparr>dk_database =
     \<lparr>db_limits = default_limits, db_acknowledged = 1,
      db_events = [(1, bytes_key, event_body store_runtime bytes_event)],
      db_records = state_rows store_runtime bytes_state\<rparr>,
     dk_journal = event_body store_runtime bytes_event\<rparr>"

definition bytes_committed :: disk where
  "bytes_committed = bytes_disk\<lparr>dk_journal := [], dk_database := (dk_database bytes_disk)\<lparr>db_acknowledged := 0\<rparr>\<rparr>"

lemma bytes_event_ok:
  "valid_event bytes_event" "re_sequence bytes_event = 1"
  "re_semantic_key bytes_event = bytes_key"
  "int (length (event_body store_runtime bytes_event)) \<le> 10000"
  by code_simp+

lemma bytes_rows_ok: "check_record_bounds default_limits (map snd (state_rows store_runtime bytes_state)) = Inr ()"
  by code_simp

lemma bytes_apply: "apply_event store_runtime (initial_state default_limits) (E_register [bytes_row]) = Inr bytes_state"
  by code_simp

lemma bytes_append:
  "append_event store_runtime (initial_state default_limits) [] bytes_key
     ''2024-01-01T00:00:00Z'' (E_register [bytes_row]) (initial_disk default_limits) = Inr (bytes_committed, bytes_state)"
proof -
  have "persist store_runtime default_limits bytes_event bytes_state (dk_database (initial_disk default_limits))
      = Inr (dk_database bytes_committed)"
    by (simp add: persist_Inr bytes_rows_ok bytes_event_ok(2,3) initial_disk_def bytes_committed_def bytes_disk_def)
  moreover have "st_limits (initial_state default_limits) = default_limits" by (simp add: initial_state_def)
  moreover have "(dk_database bytes_committed)\<lparr>db_limits := default_limits\<rparr> = dk_database bytes_committed"
    "(initial_disk default_limits)\<lparr>dk_database := dk_database bytes_committed\<rparr> = bytes_committed"
    by (simp_all add: bytes_committed_def bytes_disk_def initial_disk_def)
  ultimately show ?thesis
    using bytes_event_ok(1,4)
    by (simp add: append_event_def Let_def bytes_event_def [symmetric] bytes_apply)
      (simp add: default_limits_def initial_disk_def bodies_def total_bytes_def)
qed

lemma bytes_load: "load store_runtime (\<lambda>_. Some bytes_event) default_limits (dk_database bytes_committed)
    = Inr (bytes_state, [bytes_event])"
  using append_reloads [OF load_initial [OF default_limits_valid] bytes_append, of "\<lambda>_. Some bytes_event"]
  unfolding bytes_event_def [symmetric] by simp

lemma bytes_projected: "\<exists>r. project default_limits (bodies (dk_database bytes_committed)) bytes_committed = Inr (bytes_disk, r)"
proof -
  have b: "bodies (dk_database bytes_committed) = [event_body store_runtime bytes_event]"
    by (simp add: bytes_committed_def bytes_disk_def bodies_def)
  have "journal_ok (bodies (dk_database bytes_committed)) bytes_committed"
    by (simp add: journal_ok_def bytes_committed_def)
  moreover have "projected (bodies (dk_database bytes_committed)) bytes_committed = bytes_disk"
    unfolding b by (simp add: projected_def bytes_committed_def bytes_disk_def)
  moreover have "list_all is_line (bodies (dk_database bytes_committed))"
    by (simp add: b event_body_line [OF store_float_text])
  moreover have "int (length (concat (bodies (dk_database bytes_committed)))) \<le> max_journal_bytes default_limits"
    using bytes_event_ok(4) by (simp add: b default_limits_def)
  ultimately show ?thesis using project_Inr by metis
qed

lemma sample_register:
  "register sample_client bytes_store ''2024-01-01T00:00:00Z'' bytes_ref [] (initial_disk default_limits)
     = Inr (bytes_disk, bytes_row)"
proof -
  let ?s = "initial_state default_limits" and ?b = "register_builder sample_client bytes_store bytes_ref []"
  obtain r where p: "project default_limits (bodies (dk_database bytes_committed)) bytes_committed = Inr (bytes_disk, r)"
    using bytes_projected by blast
  have b: "?b ?s = Inr (bytes_key, E_register [bytes_row])" by code_simp
  have n: "new_rows ?s (E_register [bytes_row]) = E_register [bytes_row]" by code_simp
  have start: "project (st_limits ?s) (bodies (dk_database (initial_disk default_limits))) (initial_disk default_limits)
      = Inr (initial_disk default_limits, \<lparr>rr_event_count = 0, rr_appended_bytes = 0, rr_completed_tail_bytes = 0\<rparr>)"
    by code_simp
  have "transact sample_client ''2024-01-01T00:00:00Z'' ?b (initial_disk default_limits) = Inr (bytes_disk, bytes_state)"
    unfolding transact_def change_def recovered_def
    using load_initial [OF default_limits_valid] start b n bytes_append p
    by (simp add: sample_client_def) (simp add: bytes_state_def initial_state_def)
  moreover have "map_of (st_artifacts bytes_state) (ref_sha256 bytes_ref) = Some bytes_row" by (simp add: bytes_state_def)
  moreover have "valid_ref bytes_ref" "length (ref_kind bytes_ref) \<le> 256" by code_simp+
  ultimately show ?thesis by (simp add: register_Inr bounded_refs_def)
qed

lemma sample_load:
  "load (rc_runtime sample_client) (rc_parse sample_client) (rc_requested sample_client) (dk_database bytes_disk)
     = Inr (bytes_state, [bytes_event])"
proof -
  have "dk_database bytes_disk = (dk_database bytes_committed)\<lparr>db_acknowledged := 1\<rparr>"
    by (simp add: bytes_committed_def bytes_disk_def)
  then show ?thesis using bytes_load by (simp add: load_acknowledged sample_client_def)
qed

theorem register_idempotent_witness:
  "register sample_client bytes_store ''2025-06-01T12:00:00Z'' bytes_ref [] bytes_disk = Inr (bytes_disk, bytes_row)"
proof (rule register_idempotent [OF _ sample_register sample_load])
  show "float_text_ok (rc_runtime sample_client)" using store_float_text by (simp add: sample_client_def)
  show "max_closure_artifacts (st_limits bytes_state) \<le> 10000" by code_simp
qed





end
