(* ===== verification/AuditSampling.thy ===== *)
theory AuditSampling
  imports Json ContractRuns SplitClosure
begin

text \<open>
  \<^verbatim>\<open>audits/models.py\<close> and \<^verbatim>\<open>audits/selection.py\<close>: the frozen audit population, the stratified
  sampling plan, the deterministic selection of every stratum by hash rank, and the adjudication
  records with their validators. Probabilities are exact rationals. The main lemmas describe the
  grouping (\<open>group_entries_Inr\<close>) and the sample of a stratum (\<open>stratum_sample\<close>).
\<close>

section \<open>The population\<close>

datatype verifier_decision = Vd_accepted | Vd_rejected | Vd_invalid_environment | Vd_invalid_measurement

fun verifier_decision_value :: "verifier_decision \<Rightarrow> string" where
  "verifier_decision_value Vd_accepted = ''accepted''"
| "verifier_decision_value Vd_rejected = ''rejected''"
| "verifier_decision_value Vd_invalid_environment = ''invalid_environment''"
| "verifier_decision_value Vd_invalid_measurement = ''invalid_measurement''"

datatype validity = Is_valid | Is_invalid | Is_unresolved
datatype assessment = As_correct | As_defect | As_unresolved
datatype attestation_status = At_authenticated | At_unavailable

record patch_entry =
  pe_subject_id :: digest
  pe_run_id :: digest
  pe_repository_family :: string
  pe_verifier_decision :: verifier_decision
  pe_failure_category :: string

definition run_identity_checks :: "'a patch_entry_scheme \<Rightarrow> checks" where
  "run_identity_checks e = [(pe_subject_id e \<noteq> pe_run_id e, ''patch subject must be the exact run ID'')]"

definition valid_patch_entry :: "'a patch_entry_scheme \<Rightarrow> bool" where
  "valid_patch_entry e \<longleftrightarrow> is_digest (pe_subject_id e) \<and> is_digest (pe_run_id e)
     \<and> is_identifier (pe_repository_family e) \<and> is_identifier (pe_failure_category e)
     \<and> passes (run_identity_checks e)"

record source_entry =
  se_subject_id :: digest
  se_construct_job_id :: digest
  se_candidate :: artifact_ref
  se_source_disposition :: artifact_ref
  se_repository_family :: string
  se_failure_category :: string

definition candidate_identity_checks :: "'a source_entry_scheme \<Rightarrow> checks" where
  "candidate_identity_checks e =
     [(ref_kind (se_candidate e) \<noteq> ''CandidateRecord''
         \<or> ref_kind (se_source_disposition e) \<noteq> ''m6-source-disposition''
         \<or> se_subject_id e \<noteq> se_construct_job_id e, ''source subject must be the exact construct job'')]"

definition valid_source_entry :: "'a source_entry_scheme \<Rightarrow> bool" where
  "valid_source_entry e \<longleftrightarrow> is_digest (se_subject_id e) \<and> is_digest (se_construct_job_id e)
     \<and> valid_ref (se_candidate e) \<and> valid_ref (se_source_disposition e)
     \<and> is_identifier (se_repository_family e) \<and> is_identifier (se_failure_category e)
     \<and> passes (candidate_identity_checks e)"

datatype frame_entry = Patch_entry patch_entry | Source_entry source_entry

datatype audit_unit = Unit_patch | Unit_source

fun entry_unit :: "frame_entry \<Rightarrow> audit_unit" where
  "entry_unit (Patch_entry e) = Unit_patch"
| "entry_unit (Source_entry e) = Unit_source"

fun entry_subject :: "frame_entry \<Rightarrow> digest" where
  "entry_subject (Patch_entry e) = pe_subject_id e"
| "entry_subject (Source_entry e) = se_subject_id e"

fun entry_family :: "frame_entry \<Rightarrow> string" where
  "entry_family (Patch_entry e) = pe_repository_family e"
| "entry_family (Source_entry e) = se_repository_family e"

fun entry_category :: "frame_entry \<Rightarrow> string" where
  "entry_category (Patch_entry e) = pe_failure_category e"
| "entry_category (Source_entry e) = se_failure_category e"

text \<open>\<open>_status\<close>; the status of a source entry is always \<open>rejected_source\<close>.\<close>

fun entry_status :: "frame_entry \<Rightarrow> string" where
  "entry_status (Patch_entry e) = verifier_decision_value (pe_verifier_decision e)"
| "entry_status (Source_entry e) = ''rejected_source''"

fun valid_entry :: "frame_entry \<Rightarrow> bool" where
  "valid_entry (Patch_entry e) = valid_patch_entry e"
| "valid_entry (Source_entry e) = valid_source_entry e"

record population_frame =
  pf_entries :: "frame_entry list"
  pf_created_at :: utc_datetime

definition population_checks :: "population_frame \<Rightarrow> checks" where
  "population_checks p =
     [(\<not> distinct (map entry_subject (pf_entries p)), ''duplicate audit population subject''),
      (\<not> list_ex (\<lambda>e. entry_unit e = Unit_patch) (pf_entries p), ''audit population requires patch units''),
      (\<not> list_ex (\<lambda>e. entry_unit e = Unit_source) (pf_entries p),
       ''audit population requires rejected-source units'')]"

definition valid_population :: "population_frame \<Rightarrow> bool" where
  "valid_population p \<longleftrightarrow> pf_entries p \<noteq> [] \<and> list_all valid_entry (pf_entries p)
     \<and> passes (population_checks p)"

section \<open>The plan\<close>

record audit_stratum =
  as_stratum :: string
  as_unit :: audit_unit
  as_repository_family :: string
  as_status :: string
  as_failure_category :: string
  as_sample_size :: int

definition valid_stratum :: "audit_stratum \<Rightarrow> bool" where
  "valid_stratum s \<longleftrightarrow> list_all is_identifier [as_stratum s, as_repository_family s, as_status s,
     as_failure_category s] \<and> 1 \<le> as_sample_size s"

record sampling_plan =
  sp_population_frame :: artifact_ref
  sp_seed :: int
  sp_strata :: "audit_stratum list"
  sp_created_at :: utc_datetime

definition unique_strata_checks :: "sampling_plan \<Rightarrow> checks" where
  "unique_strata_checks p = [(\<not> distinct (map as_stratum (sp_strata p)), ''duplicate audit stratum'')]"

definition valid_plan :: "sampling_plan \<Rightarrow> bool" where
  "valid_plan p \<longleftrightarrow> valid_ref (sp_population_frame p) \<and> 0 \<le> sp_seed p \<and> sp_strata p \<noteq> []
     \<and> list_all valid_stratum (sp_strata p) \<and> passes (unique_strata_checks p)"

section \<open>Selections\<close>

record patch_selection = patch_entry +
  ps_stratum :: string
  ps_sampling_probability :: rat

record source_selection = source_entry +
  ss_stratum :: string
  ss_sampling_probability :: rat

datatype audit_selection = Patch_selection patch_selection | Source_selection source_selection

definition is_probability :: "rat \<Rightarrow> bool" where
  "is_probability p \<longleftrightarrow> 0 < p \<and> p \<le> 1"

fun valid_selection :: "audit_selection \<Rightarrow> bool" where
  "valid_selection (Patch_selection s) = (valid_patch_entry s \<and> is_identifier (ps_stratum s)
     \<and> is_probability (ps_sampling_probability s))"
| "valid_selection (Source_selection s) = (valid_source_entry s \<and> is_identifier (ss_stratum s)
     \<and> is_probability (ss_sampling_probability s))"

fun selection_entry :: "audit_selection \<Rightarrow> frame_entry" where
  "selection_entry (Patch_selection s) = Patch_entry (patch_entry.truncate s)"
| "selection_entry (Source_selection s) = Source_entry (source_entry.truncate s)"

fun selection_stratum :: "audit_selection \<Rightarrow> string" where
  "selection_stratum (Patch_selection s) = ps_stratum s"
| "selection_stratum (Source_selection s) = ss_stratum s"

fun selection_probability :: "audit_selection \<Rightarrow> rat" where
  "selection_probability (Patch_selection s) = ps_sampling_probability s"
| "selection_probability (Source_selection s) = ss_sampling_probability s"

text \<open>\<open>entry.model_dump() | {stratum, probability, kind}\<close> into the selection class of the unit.\<close>

fun select_entry :: "string \<Rightarrow> rat \<Rightarrow> frame_entry \<Rightarrow> audit_selection" where
  "select_entry stratum p (Patch_entry e) =
     Patch_selection (patch_entry.extend e (patch_selection.fields stratum p))"
| "select_entry stratum p (Source_entry e) =
     Source_selection (source_entry.extend e (source_selection.fields stratum p))"

record selection_manifest =
  sm_population_frame :: artifact_ref
  sm_sampling_plan :: artifact_ref
  sm_selections :: "audit_selection list"
  sm_created_at :: utc_datetime

fun selected_decision :: "audit_selection \<Rightarrow> verifier_decision option" where
  "selected_decision (Patch_selection s) = Some (pe_verifier_decision s)"
| "selected_decision (Source_selection s) = None"

definition manifest_checks :: "selection_manifest \<Rightarrow> checks" where
  "manifest_checks m =
     [(\<not> distinct (map (entry_subject \<circ> selection_entry) (sm_selections m)), ''duplicate selected audit subject''),
      (\<not> {Some Vd_accepted, Some Vd_rejected} \<subseteq> selected_decision ` set (sm_selections m),
       ''audit selection requires accepted and rejected patch strata''),
      (\<not> list_ex (\<lambda>s. selected_decision s = None) (sm_selections m),
       ''audit selection requires a true rejected-source unit'')]"

definition valid_manifest :: "selection_manifest \<Rightarrow> bool" where
  "valid_manifest m \<longleftrightarrow> valid_ref (sm_population_frame m) \<and> valid_ref (sm_sampling_plan m)
     \<and> sm_selections m \<noteq> [] \<and> list_all valid_selection (sm_selections m) \<and> passes (manifest_checks m)"

section \<open>Deriving the selection\<close>

datatype audit_error = AuditSelectionError string | AuditValidationError string

definition checked :: "('a \<Rightarrow> bool) \<Rightarrow> 'a \<Rightarrow> audit_error + 'a" where
  "checked valid x = raise_if (\<not> valid x) (AuditValidationError ''model validation failed'') (Inr x)"

lemma checked_Inr [result_simps]: "checked p x = Inr y \<longleftrightarrow> p x \<and> y = x"
  by (auto simp: checked_def raise_if_def)

lemma map_checked: "map_result (\<lambda>e. checked p (f e)) xs = Inr ys \<longleftrightarrow> list_all (\<lambda>e. p (f e)) xs \<and> ys = map f xs"
  by (induction xs arbitrary: ys) (auto simp: result_simps)

definition in_stratum :: "audit_stratum \<Rightarrow> frame_entry \<Rightarrow> bool" where
  "in_stratum s e \<longleftrightarrow>
     (as_unit s, as_repository_family s, as_status s, as_failure_category s)
     = (entry_unit e, entry_family e, entry_status e, entry_category e)"

definition group_entry ::
  "audit_stratum list \<Rightarrow> frame_entry list dict \<Rightarrow> frame_entry \<Rightarrow> audit_error + frame_entry list dict" where
  "group_entry strata groups e =
     (case filter (\<lambda>s. in_stratum s e) strata of
        [s] \<Rightarrow> Inr (dict_append (as_stratum s) e groups)
      | _ \<Rightarrow> Inl (AuditSelectionError ''every population unit must match exactly one frozen stratum''))"

definition empty_groups :: "audit_stratum list \<Rightarrow> frame_entry list dict" where
  "empty_groups strata = foldl (\<lambda>d s. dict_put (as_stratum s) [] d) [] strata"

definition group_entries :: "audit_stratum list \<Rightarrow> frame_entry list \<Rightarrow> audit_error + frame_entry list dict" where
  "group_entries strata entries =
     fold_result (group_entry strata) (empty_groups strata) entries"

definition rank_document :: "int \<Rightarrow> string \<Rightarrow> digest \<Rightarrow> json" where
  "rank_document seed stratum subject = JObj
     [(''version'', JStr ''m8-audit-rank-v1''), (''seed'', JInt seed), (''stratum'', JStr stratum),
      (''subject_id'', JStr subject)]"

definition rank :: "runtime \<Rightarrow> int \<Rightarrow> string \<Rightarrow> frame_entry \<Rightarrow> digest" where
  "rank rt seed stratum e = identity rt (rank_document seed stratum (entry_subject e))"

definition sample_stratum ::
  "runtime \<Rightarrow> int \<Rightarrow> frame_entry list dict \<Rightarrow> audit_stratum \<Rightarrow> audit_error + audit_selection list" where
  "sample_stratum rt seed groups s =
     (let members = (case map_of groups (as_stratum s) of None \<Rightarrow> [] | Some es \<Rightarrow> es) in
      raise_if (as_sample_size s > int (length members))
        (AuditSelectionError ''stratum sample size exceeds its frozen population'')
      (let ranked = sort_key (rank rt seed (as_stratum s)) members;
           probability = rat_of_int (as_sample_size s) / rat_of_nat (length members) in
       map_result (\<lambda>e. checked valid_selection (select_entry (as_stratum s) probability e))
         (take (nat (as_sample_size s)) ranked)))"

definition derive_selection_manifest ::
  "runtime \<Rightarrow> artifact_ref \<Rightarrow> population_frame \<Rightarrow> artifact_ref \<Rightarrow> sampling_plan \<Rightarrow> audit_error + selection_manifest" where
  "derive_selection_manifest rt population_ref population plan_ref plan =
     raise_if (sp_population_frame plan \<noteq> population_ref)
       (AuditSelectionError ''sampling plan references a different population frame'')
     (bind_result (group_entries (sp_strata plan) (pf_entries population)) (\<lambda>groups.
      bind_result (map_result (sample_stratum rt (sp_seed plan) groups) (sp_strata plan)) (\<lambda>selected.
      checked valid_manifest
        \<lparr>sm_population_frame = population_ref, sm_sampling_plan = plan_ref, sm_selections = concat selected,
         sm_created_at = sp_created_at plan\<rparr>)))"

definition validate_selection_manifest ::
  "runtime \<Rightarrow> artifact_ref \<Rightarrow> population_frame \<Rightarrow> artifact_ref \<Rightarrow> sampling_plan \<Rightarrow> selection_manifest
     \<Rightarrow> audit_error + selection_manifest" where
  "validate_selection_manifest rt population_ref population plan_ref plan manifest =
     bind_result (derive_selection_manifest rt population_ref population plan_ref plan) (\<lambda>expected.
     raise_if (manifest \<noteq> expected)
       (AuditSelectionError ''materialized audit selection differs from frozen stratified sampling'')
     (Inr manifest))"

section \<open>Adjudications\<close>

record patch_adjudication =
  pa_sample :: patch_selection
  pa_task :: artifact_ref
  pa_verifier :: artifact_ref
  pa_submission :: artifact_ref
  pa_counterexample :: artifact_ref
  pa_patch_validity :: validity
  pa_environment_validity :: validity
  pa_checker_assessment :: assessment
  pa_adjudication :: string
  pa_human_identity :: string
  pa_reviewed_at :: utc_datetime

definition decision_mismatch :: "verifier_decision \<Rightarrow> validity \<Rightarrow> bool" where
  "decision_mismatch d v \<longleftrightarrow> d = Vd_accepted \<and> v = Is_invalid \<or> d = Vd_rejected \<and> v = Is_valid"

definition coherent_defect_checks :: "patch_adjudication \<Rightarrow> checks" where
  "coherent_defect_checks a =
     (let decision = pe_verifier_decision (pa_sample a); defect = (pa_checker_assessment a = As_defect) in
      [(defect \<and> (\<not> decision_mismatch decision (pa_patch_validity a) \<or> pa_environment_validity a \<noteq> Is_valid),
        ''checker defect requires a valid environment and adjudicated decision mismatch''),
       (decision = Vd_invalid_environment \<and> defect, ''infrastructure outcomes cannot establish checker defects'')])"

definition valid_patch_adjudication :: "patch_adjudication \<Rightarrow> bool" where
  "valid_patch_adjudication a \<longleftrightarrow> valid_selection (Patch_selection (pa_sample a))
     \<and> list_all valid_ref [pa_task a, pa_verifier a, pa_submission a, pa_counterexample a]
     \<and> is_text (pa_adjudication a) \<and> is_text (pa_human_identity a) \<and> passes (coherent_defect_checks a)"

record source_adjudication =
  sa_sample :: source_selection
  sa_candidate :: artifact_ref
  sa_source_evidence :: "artifact_ref list"
  sa_counterexample :: artifact_ref
  sa_source_validity :: validity
  sa_source_assessment :: assessment
  sa_adjudication :: string
  sa_human_identity :: string
  sa_reviewed_at :: utc_datetime

definition coherent_subject_checks :: "source_adjudication \<Rightarrow> checks" where
  "coherent_subject_checks a =
     [(sa_candidate a \<noteq> se_candidate (sa_sample a), ''source adjudication candidate differs from selected source''),
      (sa_source_assessment a = As_defect \<and> sa_source_validity a \<noteq> Is_valid,
       ''source rejection defect requires a human-valid source'')]"

definition valid_source_adjudication :: "source_adjudication \<Rightarrow> bool" where
  "valid_source_adjudication a \<longleftrightarrow> valid_selection (Source_selection (sa_sample a)) \<and> valid_ref (sa_candidate a)
     \<and> sa_source_evidence a \<noteq> [] \<and> list_all valid_ref (sa_source_evidence a) \<and> valid_ref (sa_counterexample a)
     \<and> is_text (sa_adjudication a) \<and> is_text (sa_human_identity a) \<and> passes (coherent_subject_checks a)"

record detached_attestation =
  da_payload :: artifact_ref
  da_signature :: artifact_ref
  da_principal :: string

definition valid_attestation :: "detached_attestation \<Rightarrow> bool" where
  "valid_attestation a \<longleftrightarrow> valid_ref (da_payload a) \<and> valid_ref (da_signature a) \<and> is_text (da_principal a)"

record patch_sample =
  aps_selection :: patch_selection
  aps_patch_validity :: validity
  aps_environment_validity :: validity
  aps_checker_assessment :: assessment
  aps_attestation_status :: attestation_status

record source_sample =
  ass_selection :: source_selection
  ass_source_validity :: validity
  ass_source_assessment :: assessment
  ass_attestation_status :: attestation_status

section \<open>The groups and the sample of a stratum\<close>

lemma empty_groups_lookup: "map_of (empty_groups strata) k = (if k \<in> as_stratum ` set strata then Some [] else None)"
  by (induction strata rule: rev_induct) (auto simp: empty_groups_def dict_simps)

lemma group_entry_Inr:
  "group_entry strata groups e = Inr g \<longleftrightarrow>
     (\<exists>s. filter (\<lambda>s. in_stratum s e) strata = [s] \<and> g = dict_append (as_stratum s) e groups)"
  by (auto simp: group_entry_def split: list.splits)

lemma filter_single: "filter P xs = [x] \<Longrightarrow> y \<in> set xs \<and> P y \<longleftrightarrow> y = x"
  by (drule arg_cong [of _ _ set]) auto

lemma group_entries_Inr:
  assumes "group_entries strata entries = Inr groups" "distinct (map as_stratum strata)"
  shows "\<And>e. e \<in> set entries \<Longrightarrow> \<exists>!s. s \<in> set strata \<and> in_stratum s e"
    "\<And>s. s \<in> set strata \<Longrightarrow> map_of groups (as_stratum s) = Some (filter (in_stratum s) entries)"
proof -
  have "(\<forall>e \<in> set entries. \<exists>s. filter (\<lambda>s. in_stratum s e) strata = [s])
      \<and> (\<forall>s \<in> set strata. map_of groups (as_stratum s) = Some (filter (in_stratum s) entries))"
    using assms(1) unfolding group_entries_def
  proof (induction entries arbitrary: groups rule: rev_induct)
    case Nil
    then have "groups = empty_groups strata" by simp
    then show ?case by (simp add: empty_groups_lookup)
  next
    case (snoc e entries)
    then obtain g s where g: "fold_result (group_entry strata) (empty_groups strata) entries = Inr g"
        "filter (\<lambda>s. in_stratum s e) strata = [s]" "groups = dict_append (as_stratum s) e g"
      by (auto simp: fold_result_append bind_result_eq_Inr group_entry_Inr)
    have s: "s \<in> set strata" "in_stratum s e" using g(2) by (auto simp: filter_eq_Cons_iff)
    have only: "t \<in> set strata \<Longrightarrow> in_stratum t e \<Longrightarrow> t = s" for t
      using filter_single [OF g(2)] by blast
    have names: "t \<in> set strata \<Longrightarrow> as_stratum t = as_stratum s \<Longrightarrow> t = s" for t
      using assms(2) s(1) by (auto simp: distinct_map inj_on_def)
    note ih = snoc.IH [OF g(1)]
    have "map_of groups (as_stratum t) = Some (filter (in_stratum t) (entries @ [e]))" if t: "t \<in> set strata" for t
    proof (cases "t = s")
      case True
      then show ?thesis using ih s t by (simp add: g(3) dict_append_def dict_simps)
    next
      case False
      then have "as_stratum t \<noteq> as_stratum s" "\<not> in_stratum t e" using names only t by blast+
      then show ?thesis using ih t by (simp add: g(3) dict_append_def dict_simps)
    qed
    then show ?case using ih g(2) by auto
  qed
  then show "\<And>s. s \<in> set strata \<Longrightarrow> map_of groups (as_stratum s) = Some (filter (in_stratum s) entries)"
    and one: "\<And>e. e \<in> set entries \<Longrightarrow> \<exists>!s. s \<in> set strata \<and> in_stratum s e"
    using filter_single by (blast, metis)
qed

lemma selection_of_select [simp]:
  "selection_entry (select_entry stratum p e) = e" "selection_stratum (select_entry stratum p e) = stratum"
  "selection_probability (select_entry stratum p e) = p"
  by (cases e; simp add: patch_entry.defs patch_selection.defs source_entry.defs source_selection.defs)+

lemma sample_stratum_Inr:
  assumes "map_of groups (as_stratum s) = Some members" "sample_stratum rt seed groups s = Inr chosen" "1 \<le> as_sample_size s"
  shows "int (length chosen) = as_sample_size s" "as_sample_size s \<le> int (length members)"
    "map selection_entry chosen = take (nat (as_sample_size s)) (sort_key (rank rt seed (as_stratum s)) members)"
    "x \<in> set chosen \<Longrightarrow> selection_stratum x = as_stratum s
       \<and> selection_probability x = rat_of_int (as_sample_size s) / rat_of_nat (length members)"
    "chosen = map (select_entry (as_stratum s) (rat_of_int (as_sample_size s) / rat_of_nat (length members)))
       (take (nat (as_sample_size s)) (sort_key (rank rt seed (as_stratum s)) members))"
proof -
  let ?sel = "select_entry (as_stratum s) (rat_of_int (as_sample_size s) / rat_of_nat (length members))"
  let ?top = "take (nat (as_sample_size s)) (sort_key (rank rt seed (as_stratum s)) members)"
  have size: "as_sample_size s \<le> int (length members)"
    and m: "map_result (\<lambda>e. checked valid_selection (?sel e)) ?top = Inr chosen"
    using assms(1,2) by (auto simp: sample_stratum_def Let_def result_simps)
  have chosen: "chosen = map ?sel ?top"
    using m by (simp add: map_checked)
  show "as_sample_size s \<le> int (length members)" by (rule size)
  show "int (length chosen) = as_sample_size s" using size assms(3) by (simp add: chosen)
  show "map selection_entry chosen = ?top" by (simp add: chosen comp_def)
  show "x \<in> set chosen \<Longrightarrow> selection_stratum x = as_stratum s
       \<and> selection_probability x = rat_of_int (as_sample_size s) / rat_of_nat (length members)"
    by (auto simp: chosen)
  show "chosen = map ?sel ?top" by (rule chosen)
qed

definition stratum_sample ::
  "runtime \<Rightarrow> sampling_plan \<Rightarrow> frame_entry list \<Rightarrow> audit_stratum \<Rightarrow> audit_selection list" where
  "stratum_sample rt plan entries s =
     (let members = filter (in_stratum s) entries in
      map (select_entry (as_stratum s) (rat_of_int (as_sample_size s) / rat_of_nat (length members)))
        (take (nat (as_sample_size s)) (sort_key (rank rt (sp_seed plan) (as_stratum s)) members)))"

lemma derive_Inr:
  assumes "valid_plan plan" "derive_selection_manifest rt population_ref population plan_ref plan = Inr m"
  shows "sm_selections m = concat (map (stratum_sample rt plan (pf_entries population)) (sp_strata plan))"
    "valid_manifest m" "\<And>e. e \<in> set (pf_entries population) \<Longrightarrow> \<exists>!s. s \<in> set (sp_strata plan) \<and> in_stratum s e"
    "\<And>s. s \<in> set (sp_strata plan) \<Longrightarrow> 1 \<le> as_sample_size s
       \<and> as_sample_size s \<le> int (length (filter (in_stratum s) (pf_entries population)))"
proof -
  let ?es = "pf_entries population" and ?ss = "sp_strata plan"
  obtain groups selected where g: "group_entries ?ss ?es = Inr groups"
      "map_result (sample_stratum rt (sp_seed plan) groups) ?ss = Inr selected" "sm_selections m = concat selected"
      "valid_manifest m"
    using assms(2) by (auto simp: derive_selection_manifest_def result_simps)
  have names: "distinct (map as_stratum ?ss)" and size: "\<And>s. s \<in> set ?ss \<Longrightarrow> 1 \<le> as_sample_size s"
    using assms(1) by (auto simp: valid_plan_def unique_strata_checks_def valid_stratum_def list_all_iff)
  note groups = group_entries_Inr [OF g(1) names]
  have one: "c = stratum_sample rt plan ?es s \<and> as_sample_size s \<le> int (length (filter (in_stratum s) ?es))"
    if "s \<in> set ?ss" "sample_stratum rt (sp_seed plan) groups s = Inr c" for s c
    using sample_stratum_Inr(2,5) [OF groups(2) [OF that(1)] that(2) size [OF that(1)]]
    by (simp add: stratum_sample_def Let_def)
  have "list_all2 (\<lambda>s c. sample_stratum rt (sp_seed plan) groups s = Inr c) ?ss selected"
    using g(2) by (simp add: map_result_Inr_iff)
  then have each: "\<forall>i < length ?ss. length selected = length ?ss \<and> sample_stratum rt (sp_seed plan) groups (?ss ! i) = Inr (selected ! i)"
    and len: "length selected = length ?ss"
    by (auto simp: list_all2_conv_all_nth)
  then have "selected = map (stratum_sample rt plan ?es) ?ss"
    using one by (intro nth_equalityI) auto
  then show "sm_selections m = concat (map (stratum_sample rt plan ?es) ?ss)" using g(3) by simp
  show "valid_manifest m" by (rule g(4))
  show "\<And>e. e \<in> set ?es \<Longrightarrow> \<exists>!s. s \<in> set ?ss \<and> in_stratum s e" by (rule groups(1))
  show "1 \<le> as_sample_size s \<and> as_sample_size s \<le> int (length (filter (in_stratum s) ?es))" if "s \<in> set ?ss" for s
    using one each size that by (metis in_set_conv_nth)
qed

lemma filter_concat_label:
  assumes "distinct (map g ss)" "\<And>s x. s \<in> set ss \<Longrightarrow> x \<in> set (f s) \<Longrightarrow> h x = g s" "s \<in> set ss"
  shows "filter (\<lambda>x. h x = g s) (concat (map f ss)) = f s"
  using assms
proof (induction ss)
  case (Cons t ss)
  have none: "filter (\<lambda>x. h x = g s) (concat (map f ss)) = []" if "g s \<notin> g ` set ss"
  proof -
    have "h x \<noteq> g s" if "u \<in> set ss" "x \<in> set (f u)" for u x
    proof -
      have "g u \<in> g ` set ss" "h x = g u" using that Cons.prems(2) [of u x] by auto
      with \<open>g s \<notin> g ` set ss\<close> show ?thesis by metis
    qed
    then show ?thesis by (auto simp: filter_empty_conv)
  qed
  show ?case
  proof (cases "s = t")
    case True
    then have "filter (\<lambda>x. h x = g s) (f t) = f t" using Cons.prems(2) by (auto simp: filter_id_conv)
    moreover have "filter (\<lambda>x. h x = g s) (concat (map f ss)) = []" using none True Cons.prems(1) by auto
    ultimately show ?thesis using True by simp
  next
    case False
    then have s: "s \<in> set ss" using Cons.prems(3) by simp
    then have "g s \<in> g ` set ss" by blast
    moreover have "g t \<notin> g ` set ss" using Cons.prems(1) by simp
    ultimately have "g s \<noteq> g t" by metis
    then have "filter (\<lambda>x. h x = g s) (f t) = []"
      using Cons.prems(2) [of t] by (simp add: filter_empty_conv)
    then show ?thesis using Cons.IH Cons.prems s by simp
  qed
qed simp

lemma take_sorted_least:
  assumes "x \<in> set (take n (sort_key f xs))" "y \<in> set xs" "y \<notin> set (take n (sort_key f xs))"
  shows "f x \<le> f y"
proof -
  have "y \<in> set (drop n (sort_key f xs))"
    using assms(2,3) by (metis UnE append_take_drop_id set_append set_sort)
  moreover have "sorted (map f (take n (sort_key f xs)) @ map f (drop n (sort_key f xs)))"
    by (metis append_take_drop_id map_append sorted_sort_key)
  ultimately show ?thesis using assms(1) by (auto simp: sorted_append)
qed

section \<open>Order independence\<close>

lemma group_entries_Inl:
  assumes "group_entries strata entries = Inl x"
  shows "x = AuditSelectionError ''every population unit must match exactly one frozen stratum''"
    "\<exists>e \<in> set entries. \<forall>s. filter (\<lambda>s. in_stratum s e) strata \<noteq> [s]"
proof -
  have "x = AuditSelectionError ''every population unit must match exactly one frozen stratum''
      \<and> (\<exists>e \<in> set entries. \<forall>s. filter (\<lambda>s. in_stratum s e) strata \<noteq> [s])"
    if "fold_result (group_entry strata) g entries = Inl x" for g
    using that
  proof (induction entries arbitrary: g)
    case (Cons e entries)
    then show ?case
      by (cases "group_entry strata g e") (auto simp: group_entry_def split: list.splits)
  qed simp
  with assms show "x = AuditSelectionError ''every population unit must match exactly one frozen stratum''"
    "\<exists>e \<in> set entries. \<forall>s. filter (\<lambda>s. in_stratum s e) strata \<noteq> [s]"
    by (auto simp: group_entries_def)
qed

lemma group_entries_single:
  "group_entries strata entries = Inr g \<Longrightarrow> e \<in> set entries \<Longrightarrow> \<exists>s. filter (\<lambda>s. in_stratum s e) strata = [s]"
  unfolding group_entries_def
proof (induction entries arbitrary: g rule: rev_induct)
  case (snoc x entries)
  then show ?case by (auto simp: fold_result_append bind_result_eq_Inr group_entry_Inr)
qed simp

lemma sample_stratum_cong:
  assumes "map_of groups (as_stratum s) = Some xs" "map_of groups' (as_stratum s) = Some ys"
    and "length xs = length ys" "sort_key (rank rt seed (as_stratum s)) xs = sort_key (rank rt seed (as_stratum s)) ys"
  shows "sample_stratum rt seed groups s = sample_stratum rt seed groups' s"
  using assms by (simp add: sample_stratum_def Let_def)

lemma rank_inject:
  assumes "collision_free rt U" "rank_document seed stratum (entry_subject a) \<in> U"
    "rank_document seed stratum (entry_subject b) \<in> U" "rank rt seed stratum a = rank rt seed stratum b"
  shows "entry_subject a = entry_subject b"
  using assms(4) unfolding rank_def identity_eq_iff [OF assms(1-3)]
  by (simp add: rank_document_def same_json_simps)

lemma map_result_cong: "(\<And>x. x \<in> set xs \<Longrightarrow> f x = g x) \<Longrightarrow> map_result f xs = map_result g xs"
  by (induction xs) simp_all

lemma derive_permuted:
  assumes "valid_plan plan" "distinct (map entry_subject (pf_entries population))"
    and "mset (pf_entries population) = mset (pf_entries population')"
    and cf: "collision_free rt {rank_document (sp_seed plan) (as_stratum s) (entry_subject e) | s e.
        s \<in> set (sp_strata plan) \<and> e \<in> set (pf_entries population)}"
  shows "derive_selection_manifest rt population_ref population plan_ref plan
    = derive_selection_manifest rt population_ref population' plan_ref plan"
proof -
  let ?es = "pf_entries population" and ?es' = "pf_entries population'" and ?ss = "sp_strata plan"
  have sets: "set ?es = set ?es'" using assms(3) by (metis set_mset_mset)
  have names: "distinct (map as_stratum ?ss)" using assms(1) by (simp add: valid_plan_def unique_strata_checks_def)
  show ?thesis
  proof (cases "group_entries ?ss ?es")
    case (Inl x)
    then obtain y where "group_entries ?ss ?es' = Inl y"
      using group_entries_Inl(2) [OF Inl] group_entries_single [of ?ss ?es'] sets
      by (metis sum.exhaust)
    then show ?thesis using Inl group_entries_Inl(1) by (simp add: derive_selection_manifest_def) metis
  next
    case (Inr g)
    then obtain g' where g': "group_entries ?ss ?es' = Inr g'"
      using group_entries_Inl(2) [of ?ss ?es'] group_entries_single [OF Inr] sets
      by (metis sum.exhaust)
    have "sample_stratum rt (sp_seed plan) g s = sample_stratum rt (sp_seed plan) g' s" if s: "s \<in> set ?ss" for s
    proof (rule sample_stratum_cong [OF group_entries_Inr(2) [OF Inr names s] group_entries_Inr(2) [OF g' names s]])
      have m: "mset (filter (in_stratum s) ?es') = mset (filter (in_stratum s) ?es)" using assms(3) by simp
      then show "length (filter (in_stratum s) ?es) = length (filter (in_stratum s) ?es')"
        by (metis size_mset)
      have "inj_on (rank rt (sp_seed plan) (as_stratum s)) (set (filter (in_stratum s) ?es))"
      proof (rule inj_onI)
        fix a b assume "a \<in> set (filter (in_stratum s) ?es)" "b \<in> set (filter (in_stratum s) ?es)"
          and eq: "rank rt (sp_seed plan) (as_stratum s) a = rank rt (sp_seed plan) (as_stratum s) b"
        then have mem: "a \<in> set ?es" "b \<in> set ?es" by simp_all
        then have "entry_subject a = entry_subject b" using s by (intro rank_inject [OF cf _ _ eq]) blast+
        then show "a = b" using assms(2) mem by (auto simp: distinct_map inj_on_def)
      qed
      then show "sort_key (rank rt (sp_seed plan) (as_stratum s)) (filter (in_stratum s) ?es)
          = sort_key (rank rt (sp_seed plan) (as_stratum s)) (filter (in_stratum s) ?es')"
        using m by (intro sort_key_inj_key_eq) simp_all
    qed
    then have "map_result (sample_stratum rt (sp_seed plan) g) ?ss = map_result (sample_stratum rt (sp_seed plan) g') ?ss"
      by (intro map_result_cong) simp_all
    then show ?thesis using Inr g' by (simp add: derive_selection_manifest_def)
  qed
qed

end
