(* ===== verification/AuditEstimates.thy ===== *)
theory AuditEstimates
  imports AuditSampling
begin

text \<open>
  \<^verbatim>\<open>audits/statistics.py\<close> and the report records of \<^verbatim>\<open>audits/models.py\<close>: inverse-probability weighted
  estimates with Wilson intervals over the effective sample size, and the accounting of adjudicated
  samples. Floats are exact rationals; \<^verbatim>\<open>math.sqrt\<close> is the parameter \<open>square_root\<close>.
\<close>

section \<open>Weighted estimates\<close>

definition AUDIT_LIMITATIONS :: "string list" where
  "AUDIT_LIMITATIONS =
     [''H'' @ [CHR 0xC3, CHR 0xA1] @ ''jek inverse-probability ratio assumes the frozen frame and recorded inclusion probabilities'',
      ''Wilson interval uses inverse-probability effective sample size'',
      ''unavailable and unresolved selected samples are accounted separately and excluded from adjudicated denominators'']"

definition wilson_z :: rat where
  "wilson_z = 1959963984540054 / 1000000000000000"

definition weighted_ratio :: "rat list \<Rightarrow> rat list \<Rightarrow> rat" where
  "weighted_ratio ws es = sum_list (map (\<lambda>(w, e). w * e) (zip ws es)) / sum_list ws"

definition effective_size :: "rat list \<Rightarrow> rat" where
  "effective_size ws = (sum_list ws)\<^sup>2 / sum_list (map (\<lambda>w. w * w) ws)"

definition wilson_bounds :: "(rat \<Rightarrow> rat) \<Rightarrow> rat \<Rightarrow> rat \<Rightarrow> rat \<times> rat" where
  "wilson_bounds square_root p n =
     (let z = wilson_z; scale = 1 + z * z / n; center = (p + z * z / (2 * n)) / scale;
          radius = z * square_root (p * (1 - p) / n + z * z / (4 * n * n)) / scale
      in (max 0 (center - radius), min 1 (center + radius)))"

text \<open>\<open>_weighted_metric\<close>: a sample is its inclusion probability, whether it counts, and whether the event holds.\<close>

definition weighted_metric ::
  "(rat \<Rightarrow> rat) \<Rightarrow> string \<Rightarrow> ('s \<Rightarrow> attestation_status) \<Rightarrow> ('s \<Rightarrow> rat) \<Rightarrow> ('s \<Rightarrow> bool) \<Rightarrow> ('s \<Rightarrow> bool) \<Rightarrow> 's list
     \<Rightarrow> audit_error + metric_estimate" where
  "weighted_metric square_root name status probability denominator event samples =
     (let relevant = filter (\<lambda>s. status s = At_authenticated \<and> denominator s) samples in
      if relevant = []
      then checked valid_metric \<lparr>me_name = name, me_estimate = None, me_lower = None, me_upper = None, me_sample_size = 0,
             me_method = ''no authenticated adjudications in denominator'', me_limitations = AUDIT_LIMITATIONS\<rparr>
      else
        (let ws = map (\<lambda>s. 1 / probability s) relevant;
             estimate = weighted_ratio ws (map (\<lambda>s. if event s then 1 else 0) relevant);
             bounds = wilson_bounds square_root estimate (effective_size ws) in
         checked valid_metric \<lparr>me_name = name, me_estimate = Some estimate, me_lower = Some (fst bounds),
           me_upper = Some (snd bounds), me_sample_size = int (length relevant),
           me_method = ''inverse-probability weighted ratio with effective-n Wilson interval'',
           me_limitations = AUDIT_LIMITATIONS\<rparr>))"

section \<open>Accounting and summaries\<close>

record audit_accounting =
  aa_selected :: int
  aa_authenticated :: int
  aa_unavailable :: int
  aa_unresolved_subject :: int
  aa_invalid_environment :: int
  aa_checker_defects :: int

definition count_of :: "('s \<Rightarrow> bool) \<Rightarrow> 's list \<Rightarrow> int" where
  "count_of P xs = int (length (filter P xs))"

definition patch_accounting :: "patch_sample list \<Rightarrow> audit_accounting" where
  "patch_accounting xs =
     \<lparr>aa_selected = int (length xs),
      aa_authenticated = count_of (\<lambda>s. aps_attestation_status s = At_authenticated) xs,
      aa_unavailable = count_of (\<lambda>s. aps_attestation_status s = At_unavailable) xs,
      aa_unresolved_subject = count_of (\<lambda>s. aps_patch_validity s = Is_unresolved) xs,
      aa_invalid_environment = count_of (\<lambda>s. aps_environment_validity s = Is_invalid) xs,
      aa_checker_defects = count_of (\<lambda>s. aps_checker_assessment s = As_defect) xs\<rparr>"

definition source_accounting :: "source_sample list \<Rightarrow> audit_accounting" where
  "source_accounting xs =
     \<lparr>aa_selected = int (length xs),
      aa_authenticated = count_of (\<lambda>s. ass_attestation_status s = At_authenticated) xs,
      aa_unavailable = count_of (\<lambda>s. ass_attestation_status s = At_unavailable) xs,
      aa_unresolved_subject = count_of (\<lambda>s. ass_source_validity s = Is_unresolved) xs,
      aa_invalid_environment = 0,
      aa_checker_defects = count_of (\<lambda>s. ass_source_assessment s = As_defect) xs\<rparr>"

record audit_statistics =
  st_metrics :: "metric_estimate list"
  st_accounting :: audit_accounting
  st_limitations :: "string list"

definition patch_metric ::
  "(rat \<Rightarrow> rat) \<Rightarrow> string \<Rightarrow> (patch_sample \<Rightarrow> bool) \<Rightarrow> (patch_sample \<Rightarrow> bool) \<Rightarrow> patch_sample list
     \<Rightarrow> audit_error + metric_estimate" where
  "patch_metric square_root name =
     weighted_metric square_root name aps_attestation_status (\<lambda>s. ps_sampling_probability (aps_selection s))"

abbreviation decided :: "patch_sample \<Rightarrow> verifier_decision" where
  "decided s \<equiv> pe_verifier_decision (aps_selection s)"

definition summarize_audits :: "(rat \<Rightarrow> rat) \<Rightarrow> patch_sample list \<Rightarrow> audit_error + audit_statistics" where
  "summarize_audits square_root samples =
     raise_if (\<not> distinct (map (\<lambda>s. pe_subject_id (aps_selection s)) samples))
       (AuditSelectionError ''duplicate audited patch'')
     (bind_result (patch_metric square_root ''invalid_among_accepted''
         (\<lambda>s. decided s = Vd_accepted \<and> aps_patch_validity s \<noteq> Is_unresolved)
         (\<lambda>s. aps_patch_validity s = Is_invalid) samples) (\<lambda>m1.
      bind_result (patch_metric square_root ''accepted_among_invalid''
         (\<lambda>s. aps_patch_validity s = Is_invalid) (\<lambda>s. decided s = Vd_accepted) samples) (\<lambda>m2.
      bind_result (patch_metric square_root ''rejected_among_valid''
         (\<lambda>s. aps_patch_validity s = Is_valid) (\<lambda>s. decided s = Vd_rejected) samples) (\<lambda>m3.
      Inr \<lparr>st_metrics = [m1, m2, m3], st_accounting = patch_accounting samples,
           st_limitations =
             [''patch validity, environment validity, and checker defects are separate adjudications'',
              ''mutation rejection and rejected-source audits are outside patch denominators'']\<rparr>))))"

definition summarize_source_audits :: "(rat \<Rightarrow> rat) \<Rightarrow> source_sample list \<Rightarrow> audit_error + audit_statistics" where
  "summarize_source_audits square_root samples =
     raise_if (\<not> distinct (map (\<lambda>s. se_subject_id (ass_selection s)) samples))
       (AuditSelectionError ''duplicate audited source'')
     (bind_result (weighted_metric square_root ''valid_source_among_rejected_sources'' ass_attestation_status
         (\<lambda>s. AuditSampling.ss_sampling_probability (ass_selection s))
         (\<lambda>s. ass_source_validity s \<noteq> Is_unresolved) (\<lambda>s. ass_source_validity s = Is_valid) samples) (\<lambda>m.
      Inr \<lparr>st_metrics = [m], st_accounting = source_accounting samples,
           st_limitations = [''source units and denominators are separate from submitted-patch audits'']\<rparr>))"

section \<open>Reports\<close>

record patch_outcome =
  po_selection :: patch_selection
  po_adjudication :: "patch_adjudication option"
  po_record :: "audit_record option"
  po_issue :: string

record source_outcome =
  so_selection :: source_selection
  so_adjudication :: "source_adjudication option"
  so_evidence :: "evidence_record list"
  so_issue :: string

record quarantine_action =
  qa_root :: artifact_ref
  qa_notice_id :: string
  qa_reason :: string
  qa_evidence :: "artifact_ref list"

definition valid_quarantine_action :: "quarantine_action \<Rightarrow> bool" where
  "valid_quarantine_action a \<longleftrightarrow> valid_ref (qa_root a) \<and> is_identifier (qa_notice_id a) \<and> is_text (qa_reason a)
     \<and> qa_evidence a \<noteq> [] \<and> list_all valid_ref (qa_evidence a)"

record audit_report =
  ar_population_frame :: artifact_ref
  ar_sampling_plan :: artifact_ref
  ar_selection_manifest :: artifact_ref
  ar_patch_outcomes :: "patch_outcome list"
  ar_source_outcomes :: "source_outcome list"
  ar_patch_statistics :: audit_statistics
  ar_source_statistics :: audit_statistics
  ar_quarantined_verifiers :: "artifact_ref list"
  ar_quarantined_sources :: "artifact_ref list"
  ar_affected_runs :: "artifact_ref list"
  ar_affected_checkpoints :: "artifact_ref list"
  ar_quarantine_actions :: "quarantine_action list"
  ar_required_action :: "string list"

section \<open>Ranges\<close>

lemma sum_list_positive: "xs \<noteq> [] \<Longrightarrow> \<forall>x \<in> set xs. (0::rat) < x \<Longrightarrow> 0 < sum_list xs"
  by (induction xs) (auto intro: add_pos_nonneg sum_list_nonneg less_imp_le)

lemma ratio_range:
  assumes "\<forall>w \<in> set ws. 0 < w" "ws \<noteq> []" "length es = length ws" "\<forall>e \<in> set es. 0 \<le> e \<and> e \<le> (1::rat)"
  shows "0 \<le> weighted_ratio ws es" "weighted_ratio ws es \<le> 1"
proof -
  have pos: "0 < sum_list ws" using assms(1,2) by (intro sum_list_positive)
  have "0 \<le> sum_list (map (\<lambda>(w, e). w * e) (zip ws es))
      \<and> sum_list (map (\<lambda>(w, e). w * e) (zip ws es)) \<le> sum_list ws"
    using assms(3,1,4)
  proof (induction es ws rule: list_induct2)
    case (Cons e es w ws)
    then have "0 \<le> w * e" "w * e \<le> w" by (simp_all add: mult_left_le)
    with Cons show ?case by (auto intro: add_mono)
  qed simp
  with pos show "0 \<le> weighted_ratio ws es" "weighted_ratio ws es \<le> 1"
    by (simp_all add: weighted_ratio_def)
qed

lemma effective_positive: "ws \<noteq> [] \<Longrightarrow> \<forall>w \<in> set ws. 0 < w \<Longrightarrow> 0 < effective_size ws"
proof -
  assume ws: "ws \<noteq> []" "\<forall>w \<in> set ws. 0 < w"
  then have "0 < sum_list ws" by (rule sum_list_positive)
  moreover have "0 < sum_list (map (\<lambda>w. w * w) ws)" using ws by (intro sum_list_positive) auto
  ultimately show ?thesis by (simp add: effective_size_def)
qed

lemma wilson_range:
  assumes "0 \<le> p" "p \<le> 1" "0 < n" "\<forall>x. 0 \<le> x \<longrightarrow> 0 \<le> square_root x"
  shows "0 \<le> fst (wilson_bounds square_root p n)" "snd (wilson_bounds square_root p n) \<le> 1"
    "fst (wilson_bounds square_root p n) \<le> snd (wilson_bounds square_root p n)"
proof -
  define t where "t = wilson_z * wilson_z / n"
  define c where "c = (p + wilson_z * wilson_z / (2 * n)) / (1 + t)"
  define r where "r = wilson_z * square_root (p * (1 - p) / n + wilson_z * wilson_z / (4 * n * n)) / (1 + t)"
  have z: "0 < wilson_z" by (simp add: wilson_z_def)
  then have t: "0 < t" using assms(3) by (simp add: t_def)
  have half: "wilson_z * wilson_z / (2 * n) = t / 2" by (simp add: t_def)
  have c: "0 \<le> c" "c \<le> 1" using assms(1,2) t by (simp_all add: c_def half)
  have "0 \<le> p * (1 - p) / n + wilson_z * wilson_z / (4 * n * n)" using assms(1-3) z by simp
  then have r: "0 \<le> r" using assms(4) z t by (simp add: r_def)
  have b: "wilson_bounds square_root p n = (max 0 (c - r), min 1 (c + r))"
    by (simp add: wilson_bounds_def Let_def c_def r_def t_def)
  show "0 \<le> fst (wilson_bounds square_root p n)" "snd (wilson_bounds square_root p n) \<le> 1"
    "fst (wilson_bounds square_root p n) \<le> snd (wilson_bounds square_root p n)"
    using c r by (simp_all add: b)
qed

end
