(* ===== verification/AuditGuarantees.thy ===== *)
theory AuditGuarantees
  imports AuditEstimates RegistrySamples
begin

text \<open>
  What the audit guarantees: the selection is the stratified sample the frozen plan asks for,
  whatever order the population is listed in, and the published estimates are probabilities with
  ordered intervals over exactly the authenticated samples.
\<close>

text \<open>
  C30: a derived selection manifest is the stratified sample of the plan: every stratum contributes
  exactly its sample size, its units are members of the stratum in the population, no unselected
  member of the stratum has a smaller rank than a selected one, the recorded inclusion probability
  is sample size over stratum size, and every selected unit comes from the frozen population once.
\<close>

theorem selection_stratified:
  assumes "valid_plan plan" "derive_selection_manifest rt population_ref population plan_ref plan = Inr m"
    and "s \<in> set (sp_strata plan)"
    and "chosen = filter (\<lambda>x. selection_stratum x = as_stratum s) (sm_selections m)"
    and "members = filter (in_stratum s) (pf_entries population)"
  shows "int (length chosen) = as_sample_size s \<and> distinct (map (entry_subject \<circ> selection_entry) (sm_selections m))
     \<and> (\<forall>x \<in> set chosen. selection_entry x \<in> set members \<and> valid_selection x
          \<and> selection_probability x = rat_of_int (as_sample_size s) / rat_of_nat (length members)
          \<and> (\<forall>e \<in> set members. e \<notin> selection_entry ` set chosen \<longrightarrow>
               rank rt (sp_seed plan) (as_stratum s) (selection_entry x) \<le> rank rt (sp_seed plan) (as_stratum s) e))"
proof -
  note d = derive_Inr [OF assms(1,2)]
  let ?f = "stratum_sample rt plan (pf_entries population)" and ?rank = "rank rt (sp_seed plan) (as_stratum s)"
  have names: "distinct (map as_stratum (sp_strata plan))"
    using assms(1) by (simp add: valid_plan_def unique_strata_checks_def)
  have chosen: "chosen = ?f s"
    unfolding assms(4) d(1) by (rule filter_concat_label [OF names _ assms(3)]) (auto simp: stratum_sample_def Let_def)
  let ?top = "take (nat (as_sample_size s)) (sort_key ?rank members)"
  have entries: "map selection_entry chosen = ?top"
    by (simp add: chosen stratum_sample_def Let_def assms(5) comp_def)
  have size: "1 \<le> as_sample_size s" "as_sample_size s \<le> int (length members)"
    using d(4) [OF assms(3)] by (simp_all add: assms(5))
  have "length chosen = length ?top" using arg_cong [OF entries, of length] by simp
  then have len: "int (length chosen) = as_sample_size s" using size by simp
  have mem: "selection_entry x \<in> set ?top" if "x \<in> set chosen" for x
    using that entries by (metis image_eqI list.set_map)
  have least: "?rank (selection_entry x) \<le> ?rank e"
    if "x \<in> set chosen" "e \<in> set members" "e \<notin> selection_entry ` set chosen" for x e
    by (rule take_sorted_least [OF mem [OF that(1)] that(2)]) (use that(3) entries in \<open>metis list.set_map\<close>)
  have "valid_selection x" if "x \<in> set chosen" for x
    using d(2) that by (auto simp: valid_manifest_def list_all_iff assms(4))
  moreover have "selection_probability x = rat_of_int (as_sample_size s) / rat_of_nat (length members)"
    if "x \<in> set chosen" for x
    using that by (auto simp: chosen stratum_sample_def Let_def assms(5))
  moreover have "selection_entry x \<in> set members" if "x \<in> set chosen" for x
    using in_set_takeD [OF mem [OF that]] by simp
  moreover have "distinct (map (entry_subject \<circ> selection_entry) (sm_selections m))"
    using d(2) by (simp add: valid_manifest_def manifest_checks_def)
  ultimately show ?thesis using len least by (intro conjI ballI impI) simp_all
qed

text \<open>
  C31: the selection depends only on the population, not on the order in which it is listed: two
  populations with the same units give the same manifest or the same error, where the digest
  separates the rank documents of their units.
\<close>

theorem selection_order_independent:
  assumes "valid_plan plan" "distinct (map entry_subject (pf_entries population))"
    and "mset (pf_entries population) = mset (pf_entries population')"
    and "collision_free rt {rank_document (sp_seed plan) (as_stratum s) (entry_subject e) | s e.
        s \<in> set (sp_strata plan) \<and> e \<in> set (pf_entries population)}"
  shows "derive_selection_manifest rt population_ref population plan_ref plan
    = derive_selection_manifest rt population_ref population' plan_ref plan"
  by (rule derive_permuted [OF assms])




section \<open>A small audit\<close>

definition audit_patch :: "char \<Rightarrow> verifier_decision \<Rightarrow> patch_entry" where
  "audit_patch c d = \<lparr>pe_subject_id = replicate 64 c, pe_run_id = replicate 64 c, pe_repository_family = ''r'',
     pe_verifier_decision = d, pe_failure_category = ''none''\<rparr>"

definition audit_source :: source_entry where
  "audit_source = \<lparr>se_subject_id = replicate 64 CHR ''e'', se_construct_job_id = replicate 64 CHR ''e'',
     se_candidate = \<lparr>ref_sha256 = replicate 64 CHR ''1'', ref_kind = ''CandidateRecord'', ref_schema_version = 2,
       ref_visibility = V_PRIVATE, ref_encoding = Enc_json\<rparr>,
     se_source_disposition = \<lparr>ref_sha256 = replicate 64 CHR ''2'', ref_kind = ''m6-source-disposition'',
       ref_schema_version = 1, ref_visibility = V_PRIVATE, ref_encoding = Enc_bytes\<rparr>,
     se_repository_family = ''r'', se_failure_category = ''license''\<rparr>"

definition audit_ref :: "char \<Rightarrow> artifact_ref" where
  "audit_ref c = \<lparr>ref_sha256 = replicate 64 c, ref_kind = ''m8-audit'', ref_schema_version = 1,
     ref_visibility = V_PRIVATE, ref_encoding = Enc_bytes\<rparr>"

definition audit_population :: population_frame where
  "audit_population = \<lparr>pf_entries = [Patch_entry (audit_patch CHR ''b'' Vd_accepted), Patch_entry (audit_patch CHR ''a'' Vd_accepted),
     Patch_entry (audit_patch CHR ''c'' Vd_rejected), Source_entry audit_source], pf_created_at = ''2024-01-01T00:00:00Z''\<rparr>"

definition audit_stratum_of :: "string \<Rightarrow> audit_unit \<Rightarrow> string \<Rightarrow> string \<Rightarrow> audit_stratum" where
  "audit_stratum_of name u status category = \<lparr>as_stratum = name, as_unit = u, as_repository_family = ''r'',
     as_status = status, as_failure_category = category, as_sample_size = 1\<rparr>"

definition audit_plan :: sampling_plan where
  "audit_plan = \<lparr>sp_population_frame = audit_ref CHR ''3'', sp_seed = 7,
     sp_strata = [audit_stratum_of ''accepted'' Unit_patch ''accepted'' ''none'',
       audit_stratum_of ''rejected'' Unit_patch ''rejected'' ''none'',
       audit_stratum_of ''sources'' Unit_source ''rejected_source'' ''license''],
     sp_created_at = ''2024-01-02T00:00:00Z''\<rparr>"

definition audit_manifest :: selection_manifest where
  "audit_manifest = \<lparr>sm_population_frame = audit_ref CHR ''3'', sm_sampling_plan = audit_ref CHR ''4'',
     sm_selections = [select_entry ''accepted'' (1 / 2) (Patch_entry (audit_patch CHR ''a'' Vd_accepted)),
       select_entry ''rejected'' 1 (Patch_entry (audit_patch CHR ''c'' Vd_rejected)),
       select_entry ''sources'' 1 (Source_entry audit_source)],
     sm_created_at = ''2024-01-02T00:00:00Z''\<rparr>"

lemma audit_plan_valid: "valid_plan audit_plan"
  by code_simp

lemma audit_derive:
  "derive_selection_manifest plain_runtime (audit_ref CHR ''3'') audit_population (audit_ref CHR ''4'') audit_plan
     = Inr audit_manifest"
  by code_simp

theorem selection_stratified_witness:
  "selection_probability (select_entry ''accepted'' (1 / 2) (Patch_entry (audit_patch CHR ''a'' Vd_accepted))) = 1 / 2
   \<and> rank plain_runtime 7 ''accepted'' (Patch_entry (audit_patch CHR ''a'' Vd_accepted))
       \<le> rank plain_runtime 7 ''accepted'' (Patch_entry (audit_patch CHR ''b'' Vd_accepted))"
proof -
  have s: "audit_stratum_of ''accepted'' Unit_patch ''accepted'' ''none'' \<in> set (sp_strata audit_plan)"
    by (simp add: audit_plan_def)
  let ?s = "audit_stratum_of ''accepted'' Unit_patch ''accepted'' ''none''"
  let ?a = "Patch_entry (audit_patch CHR ''a'' Vd_accepted)" and ?b = "Patch_entry (audit_patch CHR ''b'' Vd_accepted)"
  have chosen: "[select_entry ''accepted'' (1 / 2) ?a]
      = filter (\<lambda>x. selection_stratum x = as_stratum ?s) (sm_selections audit_manifest)"
    by code_simp
  have members: "[?b, ?a] = filter (in_stratum ?s) (pf_entries audit_population)" by code_simp
  have ne: "?b \<noteq> ?a" by (simp add: audit_patch_def)
  have "sp_seed audit_plan = 7" "as_stratum ?s = ''accepted''" by (simp_all add: audit_plan_def audit_stratum_of_def)
  with selection_stratified [OF audit_plan_valid audit_derive s chosen members] ne show ?thesis
    by (simp del: select_entry.simps)
qed

definition audit_population_sorted :: population_frame where
  "audit_population_sorted = \<lparr>pf_entries = [Patch_entry (audit_patch CHR ''a'' Vd_accepted), Patch_entry (audit_patch CHR ''b'' Vd_accepted),
     Patch_entry (audit_patch CHR ''c'' Vd_rejected), Source_entry audit_source], pf_created_at = ''2024-01-01T00:00:00Z''\<rparr>"

definition fraction_runtime :: runtime where
  "fraction_runtime = \<lparr>sha256 = \<lambda>s. s, float_repr = fraction_repr\<rparr>"

theorem selection_order_independent_witness:
  "derive_selection_manifest fraction_runtime (audit_ref CHR ''3'') audit_population (audit_ref CHR ''4'') audit_plan
   = derive_selection_manifest fraction_runtime (audit_ref CHR ''3'') audit_population_sorted (audit_ref CHR ''4'') audit_plan"
proof (rule selection_order_independent [OF audit_plan_valid])
  show "distinct (map entry_subject (pf_entries audit_population))" by code_simp
  show "mset (pf_entries audit_population) = mset (pf_entries audit_population_sorted)"
    by (simp add: audit_population_def audit_population_sorted_def)
  have "float_text_ok fraction_runtime" by (rule table_float_text) (simp add: fraction_runtime_def)
  then show "collision_free fraction_runtime {rank_document (sp_seed audit_plan) (as_stratum s) (entry_subject e) | s e.
        s \<in> set (sp_strata audit_plan) \<and> e \<in> set (pf_entries audit_population)}"
    by (simp add: collision_free_def fraction_runtime_def)
qed



end
