(* ===== verification/TrainingGroups.thy ===== *)
theory TrainingGroups
  imports Json ContractRuns "HOL-Library.Multiset"
begin

text \<open>
  \<^verbatim>\<open>training/core.py\<close> and \<^verbatim>\<open>training/state.py\<close>: the group-relative advantages, the per-turn trace check,
  the balanced task sampler with its checkpoint, and the barrier that admits a policy only when every
  inference worker has acknowledged it. Advantages are exact reals. The main lemmas say which family
  each position draws (\<open>drawn_family\<close>) and what a barrier remembers of its calls (\<open>barrier_history\<close>).
\<close>

section \<open>Digests of plain JSON text\<close>

text \<open>
  \<open>digest\<close> renders with the default \<open>ensure_ascii\<close>: every character outside the printable ASCII
  range is written as a \<open>\u\<close> escape, as a surrogate pair beyond the basic plane.
\<close>

definition is_continuation :: "char \<Rightarrow> bool" where
  "is_continuation c \<longleftrightarrow> 128 \<le> (of_char c :: nat) \<and> (of_char c :: nat) < 192"

definition lead_bits :: "nat \<Rightarrow> nat" where
  "lead_bits b = (if b < 224 then b mod 32 else if b < 240 then b mod 16 else b mod 8)"

lemma length_dropWhile_Suc [termination_simp]: "length (dropWhile P xs) < Suc (length xs)"
  by (simp add: length_dropWhile_le less_Suc_eq_le)

fun utf8_points :: "string \<Rightarrow> nat list" where
  "utf8_points [] = []"
| "utf8_points (c # cs) =
     (if (of_char c :: nat) < 128 then of_char c # utf8_points cs
      else foldl (\<lambda>a d. a * 64 + of_char d mod 64) (lead_bits (of_char c)) (takeWhile is_continuation cs)
           # utf8_points (dropWhile is_continuation cs))"

definition hex4 :: "nat \<Rightarrow> string" where
  "hex4 n = [CHR 0x5C, CHR ''u'', hex_digit (n div 4096 mod 16), hex_digit (n div 256 mod 16),
     hex_digit (n div 16 mod 16), hex_digit (n mod 16)]"

definition ascii_point :: "nat \<Rightarrow> string" where
  "ascii_point n =
     (if n < 127 then [char_of n]
      else if n < 65536 then hex4 n
      else hex4 (55296 + (n - 65536) div 1024) @ hex4 (56320 + (n - 65536) mod 1024))"

definition ascii_text :: "string \<Rightarrow> string" where
  "ascii_text s = concat (map ascii_point (utf8_points s))"

text \<open>Text of the range up to the tilde is its own rendering; this also speeds up evaluation.\<close>

definition plain_char :: "char \<Rightarrow> bool" where
  "plain_char c \<longleftrightarrow> \<not> digit7 c \<and> c \<noteq> CHR 0x7F"

lemma plain_char_small: "plain_char c \<Longrightarrow> (of_char c :: nat) < 127"
proof (cases c)
  case (Char b0 b1 b2 b3 b4 b5 b6 b7)
  assume "plain_char c"
  then show ?thesis unfolding Char plain_char_def
    by (cases b0; cases b1; cases b2; cases b3; cases b4; cases b5; cases b6) auto
qed

lemma ascii_text_plain: "list_all plain_char s \<Longrightarrow> ascii_text s = s"
  by (induction s) (auto simp: ascii_text_def ascii_point_def dest!: plain_char_small)

lemma ascii_text_code [code]:
  "ascii_text s = (if list_all plain_char s then s else concat (map ascii_point (utf8_points s)))"
  using ascii_text_plain [of s] by (simp add: ascii_text_def)

definition plain_digest :: "runtime \<Rightarrow> json \<Rightarrow> digest" where
  "plain_digest rt v = sha256 rt (ascii_text (canonical_json rt v))"

section \<open>Group advantages\<close>

definition group_advantages :: "int option list \<Rightarrow> bool \<Rightarrow> string + real option list" where
  "group_advantages rewards normalize_std =
     raise_if (length rewards < 2 \<or> list_ex (\<lambda>r. r \<noteq> None \<and> r \<noteq> Some 0 \<and> r \<noteq> Some 1) rewards)
       ''GRPO requires at least two assigned binary-or-invalid outcomes''
     (let valid = present rewards;
          n = length valid
      in if n < 2 then Inr (map (map_option (\<lambda>r. 0)) rewards)
         else let total = sum_list valid;
                  centred = (\<lambda>r. (real_of_int r * n - total) / n);
                  std = sqrt (sum_list (map (\<lambda>r. (centred r)^2) valid) / n);
                  scale = (if normalize_std then max std (1 / 10^6) else 1)
              in Inr (map (map_option (\<lambda>r. centred r / scale)) rewards))"

lemma present_Cons [simp]:
  "present [] = []" "present (None # xs) = present xs" "present (Some x # xs) = x # present xs"
  by (simp_all add: present_def)

lemma present_map: "present (map (map_option f) xs) = map f (present xs)"
proof (induction xs)
  case (Cons x xs)
  then show ?case by (cases x) simp_all
qed simp

lemma in_present [simp]: "y \<in> set (present xs) \<longleftrightarrow> Some y \<in> set xs"
  by (force simp: present_def image_iff)

text \<open>Every outcome is accepted exactly when it is unmeasured or binary.\<close>

definition binary_outcomes :: "int option list \<Rightarrow> bool" where
  "binary_outcomes rewards \<longleftrightarrow> 2 \<le> length rewards \<and> set (present rewards) \<subseteq> {0, 1}"

lemma binary_outcomes_iff:
  "binary_outcomes rewards \<longleftrightarrow>
     \<not> (length rewards < 2 \<or> list_ex (\<lambda>r. r \<noteq> None \<and> r \<noteq> Some 0 \<and> r \<noteq> Some 1) rewards)"
  by (auto simp: binary_outcomes_def list_ex_iff subset_iff)

definition mean_gap :: "int list \<Rightarrow> int \<Rightarrow> real" where
  "mean_gap valid r = (real_of_int r * length valid - sum_list valid) / length valid"

text \<open>The advantages are a positive multiple of the distance to the group's mean.\<close>

lemma group_advantages_Inr:
  assumes "group_advantages rewards normalize_std = Inr advantages"
  shows "binary_outcomes rewards"
    "\<exists>scale > 0. advantages = map (map_option (\<lambda>r. mean_gap (present rewards) r / scale)) rewards"
proof -
  have checked: "\<not> (length rewards < 2 \<or> list_ex (\<lambda>r. r \<noteq> None \<and> r \<noteq> Some 0 \<and> r \<noteq> Some 1) rewards)"
    using assms by (simp add: group_advantages_def raise_if_eq_Inr)
  then show "binary_outcomes rewards" unfolding binary_outcomes_iff .
  let ?v = "present rewards"
  let ?std = "sqrt (sum_list (map (\<lambda>r. (mean_gap ?v r)^2) ?v) / length ?v)"
  show "\<exists>scale > 0. advantages = map (map_option (\<lambda>r. mean_gap ?v r / scale)) rewards"
  proof (cases "length ?v < 2")
    case True
    then have short: "?v = [] \<or> (\<exists>r. ?v = [r])"
      by (cases ?v rule: list.exhaust; cases "tl ?v") auto
    have "mean_gap ?v r = 0" if "Some r \<in> set rewards" for r
    proof -
      have "r \<in> set (present rewards)" using that by simp
      with short show ?thesis by (auto simp: mean_gap_def simp del: in_present)
    qed
    then have "map (map_option (\<lambda>r. 0 :: real)) rewards = map (map_option (\<lambda>r. mean_gap ?v r / 1)) rewards"
      by (auto simp: map_option_case split: option.split)
    with assms True checked show ?thesis
      by (intro exI [of _ 1]) (simp add: group_advantages_def Let_def)
  next
    case False
    define scale where "scale = (if normalize_std then max ?std (1 / 10^6) else 1)"
    have "scale > 0" by (simp add: scale_def less_max_iff_disj)
    moreover from assms False checked
    have "advantages = map (map_option (\<lambda>r. mean_gap ?v r / scale)) rewards"
      by (cases normalize_std) (simp_all add: group_advantages_def Let_def mean_gap_def scale_def)
    ultimately show ?thesis by blast
  qed
qed

lemma sum_mean_gap:
  "sum_list (map (\<lambda>r. (real_of_int r * n - t) / n) vs) = (real_of_int (sum_list vs) * n - t * length vs) / n"
  by (induction vs) (simp_all add: algebra_simps diff_divide_distrib add_divide_distrib)

lemma mean_gap_sum: "sum_list (map (mean_gap vs) vs) = 0"
  unfolding mean_gap_def [abs_def] by (simp add: sum_mean_gap)

section \<open>The trace of a turn\<close>

definition validate_trace ::
  "token_trace \<Rightarrow> int list \<Rightarrow> string \<Rightarrow> int \<Rightarrow> int \<Rightarrow> string + unit" where
  "validate_trace trace context policy_version vocab_size max_seq_len =
     raise_if (\<not> valid_token_trace trace) ''invalid token trace''
    (raise_if (context = [] \<or> tt_context_token_ids trace \<noteq> context)
       ''Trace differs from actual per-turn context or has no causal context''
    (raise_if (tt_policy_version trace \<noteq> policy_version) ''Stale behavior policy''
    (raise_if (int (length context) + int (length (tt_sampled_token_ids trace)) > max_seq_len)
       ''Trajectory exceeds declared context; truncation forbidden''
    (raise_if (list_ex (\<lambda>t. \<not> (0 \<le> t \<and> t < vocab_size)) (context @ tt_sampled_token_ids trace))
       ''Token outside exact tokenizer vocabulary''
    (raise_if (list_ex (\<lambda>p. p > 0) (tt_behavior_log_probabilities trace)) ''Invalid behavior log probabilities''
    (raise_if (\<not> list_ex id (tt_assistant_loss_mask trace)) ''Turn has no sampled assistant loss tokens''
    (Inr ())))))))"

lemma validate_trace_Inr:
  "validate_trace t context v vocab max_len = Inr () \<longleftrightarrow>
     valid_token_trace t \<and> context \<noteq> [] \<and> tt_context_token_ids t = context \<and> tt_policy_version t = v
     \<and> int (length context + length (tt_sampled_token_ids t)) \<le> max_len
     \<and> set (context @ tt_sampled_token_ids t) \<subseteq> {0..<vocab}
     \<and> list_all (\<lambda>p. p \<le> 0) (tt_behavior_log_probabilities t) \<and> True \<in> set (tt_assistant_loss_mask t)"
  unfolding validate_trace_def raise_if_eq_Inr not_less
  by (auto simp: list_ex_iff list_all_iff subset_iff not_less not_le)

section \<open>The balanced sampler\<close>

text \<open>Python's \<open>str.strip\<close> removes every Unicode white space character.\<close>

definition is_unicode_space :: "nat \<Rightarrow> bool" where
  "is_unicode_space n \<longleftrightarrow> n \<in> set ([9..<14] @ [28..<33] @ [133, 160, 5760] @ [8192..<8203]
     @ [8232, 8233, 8239, 8287, 12288])"

definition is_blank :: "string \<Rightarrow> bool" where
  "is_blank s \<longleftrightarrow> list_all is_unicode_space (utf8_points s)"

record task_slot =
  sl_task_id :: string
  sl_family :: string
  sl_feature :: string

definition task_slot_checks :: "task_slot \<Rightarrow> checks" where
  "task_slot_checks t =
     [(list_ex is_blank [sl_task_id t, sl_family t, sl_feature t],
       ''Task identity, family and feature are required'')]"

definition doc_task_slot :: "task_slot \<Rightarrow> json" where
  "doc_task_slot t = JObj [(''task_id'', JStr (sl_task_id t)), (''family'', JStr (sl_family t)),
     (''feature'', JStr (sl_feature t))]"

record group_plan =
  gp_group_id :: digest
  gp_task :: task_slot
  gp_policy_version :: string
  gp_episode_seeds :: "int list"
  gp_case_seed :: int
  gp_position :: int

record sampler =
  bs_tasks :: "task_slot list"
  bs_seed :: int
  bs_group_size :: int
  bs_position :: int
  bs_roster_digest :: digest
  bs_families :: "string list"

text \<open>\<open>_ordered\<close>, on the values of a set comprehension.\<close>

definition ordered_by_digest :: "runtime \<Rightarrow> int \<Rightarrow> string list \<Rightarrow> string list" where
  "ordered_by_digest rt seed values =
     sort_key (\<lambda>v. plain_digest rt (JArr [JInt seed, JStr v])) (remdups values)"

definition balanced_sampler ::
  "runtime \<Rightarrow> task_slot list \<Rightarrow> int \<Rightarrow> int \<Rightarrow> string + sampler" where
  "balanced_sampler rt tasks seed group_size =
     raise_if (tasks = [] \<or> seed < 0) ''Nonempty roster and nonnegative seed required''
    (raise_if (group_size < 2) ''GRPO group size must be an integer of at least two''
    (raise_if (length (remdups (map sl_task_id tasks)) \<noteq> length tasks) ''Duplicate task in frozen roster''
     (let ordered = sort_key sl_task_id tasks in
      Inr \<lparr>bs_tasks = ordered, bs_seed = seed, bs_group_size = group_size, bs_position = 0,
           bs_roster_digest = plain_digest rt (JArr (map doc_task_slot ordered)),
           bs_families = ordered_by_digest rt seed (map sl_family ordered)\<rparr>)))"

definition features_of :: "runtime \<Rightarrow> sampler \<Rightarrow> string \<Rightarrow> string list" where
  "features_of rt s family =
     ordered_by_digest rt (bs_seed s) (map sl_feature (filter (\<lambda>t. sl_family t = family) (bs_tasks s)))"

definition tasks_of :: "runtime \<Rightarrow> sampler \<Rightarrow> string \<Rightarrow> string \<Rightarrow> task_slot list" where
  "tasks_of rt s family feature =
     sort_key (\<lambda>t. plain_digest rt (JArr [JInt (bs_seed s), JStr (sl_task_id t)]))
       (filter (\<lambda>t. sl_family t = family \<and> sl_feature t = feature) (bs_tasks s))"

definition turn :: "'a list \<Rightarrow> int \<Rightarrow> 'a" where
  "turn xs n = xs ! nat (n mod int (length xs))"

definition chosen_task :: "runtime \<Rightarrow> sampler \<Rightarrow> int \<Rightarrow> task_slot" where
  "chosen_task rt s pos =
     (let family = turn (bs_families s) pos;
          visits = pos div int (length (bs_families s));
          features = features_of rt s family;
          feature = turn features visits;
          tasks = tasks_of rt s family feature
      in turn tasks (visits div int (length features)))"

definition hex_value :: "char \<Rightarrow> int" where
  "hex_value c = int (length (takeWhile (\<lambda>d. d \<noteq> c) ''0123456789abcdef''))"

definition hex_int :: "string \<Rightarrow> int" where
  "hex_int s = foldl (\<lambda>a c. 16 * a + hex_value c) 0 s"

definition seed_from :: "runtime \<Rightarrow> json list \<Rightarrow> int" where
  "seed_from rt parts = hex_int (take 15 (plain_digest rt (JArr parts)))"

definition next_group :: "runtime \<Rightarrow> sampler \<Rightarrow> string \<Rightarrow> string + group_plan \<times> sampler" where
  "next_group rt s policy_version =
     raise_if (policy_version = []) ''Policy version required''
     (let pos = bs_position s;
          task = chosen_task rt s pos;
          gid = plain_digest rt (JArr [JStr (bs_roster_digest s), JInt (bs_seed s), JInt pos,
            JStr policy_version, JInt (bs_group_size s)]);
          seeds = map (\<lambda>n. seed_from rt [JStr gid, JStr ''episode'', JInt n]) [0..bs_group_size s - 1]
      in raise_if (int (length (remdups seeds)) \<noteq> bs_group_size s) ''Episode seed collision''
         (Inr (\<lparr>gp_group_id = gid, gp_task = task, gp_policy_version = policy_version,
                gp_episode_seeds = seeds, gp_case_seed = seed_from rt [JStr gid, JStr ''case''],
                gp_position = pos\<rparr>,
               s\<lparr>bs_position := pos + 1\<rparr>)))"

fun next_groups :: "runtime \<Rightarrow> sampler \<Rightarrow> string list \<Rightarrow> string + group_plan list \<times> sampler" where
  "next_groups rt s [] = Inr ([], s)"
| "next_groups rt s (v # vs) =
     bind_result (next_group rt s v) (\<lambda>(p, s'). bind_result (next_groups rt s' vs) (\<lambda>(ps, t). Inr (p # ps, t)))"

definition sampler_state_dict :: "sampler \<Rightarrow> json dict" where
  "sampler_state_dict s = [(''roster_digest'', JStr (bs_roster_digest s)), (''seed'', JInt (bs_seed s)),
     (''position'', JInt (bs_position s)), (''group_size'', JInt (bs_group_size s))]"

text \<open>Python's \<open>==\<close> of a JSON value with an integer: booleans and floats are numbers too.\<close>

fun equals_int :: "json \<Rightarrow> int \<Rightarrow> bool" where
  "equals_int (JInt i) n = (i = n)"
| "equals_int (JBool b) n = (of_bool b = n)"
| "equals_int (JFloat x) n = (x = of_int n)"
| "equals_int v n = False"

definition sampler_load_state_dict :: "sampler \<Rightarrow> json dict \<Rightarrow> string + sampler" where
  "sampler_load_state_dict s state =
     (let differs = ''Sampler checkpoint differs from frozen roster/seed/group size/cursor'' in
      raise_if (set (keys state) \<noteq> {''roster_digest'', ''seed'', ''position'', ''group_size''}
          \<or> map_of state ''roster_digest'' \<noteq> Some (JStr (bs_roster_digest s))
          \<or> \<not> equals_int (the (map_of state ''seed'')) (bs_seed s)
          \<or> map_of state ''group_size'' \<noteq> Some (JInt (bs_group_size s))) differs
      (case map_of state ''position'' of
         Some (JInt n) \<Rightarrow> raise_if (n < 0) differs (Inr (s\<lparr>bs_position := n\<rparr>))
       | _ \<Rightarrow> Inl differs))"

text \<open>The round robin: what is drawn where, and how often.\<close>

lemma turn_nat: "turn xs (int p) = xs ! (p mod length xs)"
  by (simp add: turn_def flip: zmod_int)

lemma turn_iff:
  assumes "distinct xs" "i < length xs"
  shows "turn xs (int p) = xs ! i \<longleftrightarrow> p mod length xs = i"
proof -
  have "p mod length xs < length xs" using assms(2) by (intro mod_less_divisor) linarith
  from nth_eq_iff_index_eq [OF assms(1) this assms(2)] show ?thesis by (simp add: turn_nat)
qed

lemma turn_in [intro]: "xs \<noteq> [] \<Longrightarrow> turn xs n \<in> set xs"
  by (simp add: turn_def nat_less_iff)

lemma filter_equals_single: "c < N \<Longrightarrow> filter (\<lambda>r. r = c) [0..<N] = [c]"
proof (induction N)
  case (Suc N)
  then show ?case by (cases "c = N") (auto simp: filter_empty_conv)
qed simp

lemma count_residue: "c < N \<Longrightarrow> length (filter (\<lambda>p. p mod N = c) [0..<q * N]) = q"
proof (induction q)
  case (Suc q)
  have "[0..<Suc q * N] = [0..<q * N] @ map (\<lambda>r. q * N + r) [0..<N]"
    using upt_add_eq_append [of 0 "q * N" N] by (simp add: map_add_upt add.commute)
  moreover have "filter (\<lambda>p. p mod N = c) (map (\<lambda>r. q * N + r) [0..<N]) = map (\<lambda>r. q * N + r) [c]"
  proof -
    have "filter (\<lambda>r. (q * N + r) mod N = c) [0..<N] = filter (\<lambda>r. r = c) [0..<N]"
      by (rule filter_cong) simp_all
    also have "\<dots> = [c]" using Suc.prems by (simp add: filter_equals_single)
    finally show ?thesis by (simp add: filter_map comp_def)
  qed
  ultimately show ?case using Suc by simp
qed simp

lemma sort_key_Nil_iff [simp]: "sort_key f xs = [] \<longleftrightarrow> xs = []"
  by (metis set_empty set_sort)

lemma ordered_by_digest_facts [simp]:
  "set (ordered_by_digest rt seed vs) = set vs" "distinct (ordered_by_digest rt seed vs)"
  "ordered_by_digest rt seed vs = [] \<longleftrightarrow> vs = []"
proof -
  show "set (ordered_by_digest rt seed vs) = set vs" by (simp add: ordered_by_digest_def)
  then show "ordered_by_digest rt seed vs = [] \<longleftrightarrow> vs = []" by (metis set_empty)
qed (simp add: ordered_by_digest_def)

lemma balanced_sampler_Inr:
  assumes "balanced_sampler rt tasks seed group_size = Inr s"
  shows "tasks \<noteq> []" "0 \<le> seed" "2 \<le> group_size" "distinct (map sl_task_id tasks)"
    "s = \<lparr>bs_tasks = sort_key sl_task_id tasks, bs_seed = seed, bs_group_size = group_size, bs_position = 0,
          bs_roster_digest = plain_digest rt (JArr (map doc_task_slot (sort_key sl_task_id tasks))),
          bs_families = ordered_by_digest rt seed (map sl_family (sort_key sl_task_id tasks))\<rparr>"
proof -
  have ok: "tasks \<noteq> []" "0 \<le> seed" "2 \<le> group_size" "length (remdups (map sl_task_id tasks)) = length tasks"
    "s = \<lparr>bs_tasks = sort_key sl_task_id tasks, bs_seed = seed, bs_group_size = group_size, bs_position = 0,
          bs_roster_digest = plain_digest rt (JArr (map doc_task_slot (sort_key sl_task_id tasks))),
          bs_families = ordered_by_digest rt seed (map sl_family (sort_key sl_task_id tasks))\<rparr>"
    using assms by (auto simp: balanced_sampler_def raise_if_eq_Inr Let_def)
  then show "tasks \<noteq> []" "0 \<le> seed" "2 \<le> group_size" "s = \<lparr>bs_tasks = sort_key sl_task_id tasks, bs_seed = seed, bs_group_size = group_size, bs_position = 0,
          bs_roster_digest = plain_digest rt (JArr (map doc_task_slot (sort_key sl_task_id tasks))),
          bs_families = ordered_by_digest rt seed (map sl_family (sort_key sl_task_id tasks))\<rparr>" by blast+
  from ok(4) show "distinct (map sl_task_id tasks)"
    by (metis card_distinct length_map length_remdups_card_conv)
qed

text \<open>What every sampler of a frozen roster keeps.\<close>

definition frozen_roster :: "runtime \<Rightarrow> sampler \<Rightarrow> bool" where
  "frozen_roster rt s \<longleftrightarrow> bs_tasks s \<noteq> [] \<and> distinct (bs_tasks s)
     \<and> bs_families s = ordered_by_digest rt (bs_seed s) (map sl_family (bs_tasks s))"

lemma balanced_sampler_frozen:
  assumes "balanced_sampler rt tasks seed group_size = Inr s"
  shows "frozen_roster rt s" "set (bs_tasks s) = set tasks" "bs_position s = 0" "bs_group_size s = group_size"
  using balanced_sampler_Inr [OF assms] by (auto simp: frozen_roster_def distinct_map)

lemma frozen_lists:
  assumes "frozen_roster rt s" "t \<in> set (bs_tasks s)"
  shows "sl_family t \<in> set (bs_families s)" "distinct (bs_families s)"
    "sl_feature t \<in> set (features_of rt s (sl_family t))" "distinct (features_of rt s f)"
    "t \<in> set (tasks_of rt s (sl_family t) (sl_feature t))" "distinct (tasks_of rt s f g)"
  using assms by (auto simp: frozen_roster_def features_of_def tasks_of_def)

lemma chosen_from_lists:
  assumes s: "frozen_roster rt s" and pos: "c = chosen_task rt s (int p)"
  defines "f \<equiv> turn (bs_families s) (int p)" and "v \<equiv> int p div int (length (bs_families s))"
  defines "g \<equiv> turn (features_of rt s f) v"
  shows "c = turn (tasks_of rt s f g) (v div int (length (features_of rt s f)))"
    "c \<in> set (bs_tasks s)" "sl_family c = f" "sl_feature c = g"
proof -
  show c: "c = turn (tasks_of rt s f g) (v div int (length (features_of rt s f)))"
    by (simp add: pos chosen_task_def Let_def f_def g_def v_def)
  have "bs_families s \<noteq> []" using s by (auto simp: frozen_roster_def)
  then have "f \<in> set (bs_families s)" unfolding f_def by (rule turn_in)
  then have "f \<in> sl_family ` set (bs_tasks s)" using s by (simp add: frozen_roster_def)
  then have "features_of rt s f \<noteq> []" by (auto simp: features_of_def filter_empty_conv)
  then have "g \<in> set (features_of rt s f)" unfolding g_def by (rule turn_in)
  then have "tasks_of rt s f g \<noteq> []" by (auto simp: features_of_def tasks_of_def filter_empty_conv)
  then have "c \<in> set (tasks_of rt s f g)" unfolding c by (rule turn_in)
  then show "c \<in> set (bs_tasks s)" "sl_family c = f" "sl_feature c = g" by (auto simp: tasks_of_def)
qed

lemma drawn_family:
  assumes "frozen_roster rt s" "i < length (bs_families s)"
  shows "sl_family (chosen_task rt s (int p)) = bs_families s ! i \<longleftrightarrow> p mod length (bs_families s) = i"
proof -
  have "distinct (bs_families s)" using assms(1) by (simp add: frozen_roster_def)
  from turn_iff [OF this assms(2)] show ?thesis
    by (simp add: chosen_from_lists(3) [OF assms(1) refl])
qed

text \<open>A task is drawn at one residue of its cycle, the product of the three rotations above it.\<close>

definition task_cycle :: "runtime \<Rightarrow> sampler \<Rightarrow> task_slot \<Rightarrow> nat" where
  "task_cycle rt s t = length (bs_families s) * (length (features_of rt s (sl_family t))
     * length (tasks_of rt s (sl_family t) (sl_feature t)))"

lemma digit_bound:
  assumes "x < m" "y < k"
  shows "x + m * y < m * (k :: nat)"
proof -
  have "x + m * y < m * Suc y" using assms(1) by simp
  also have "\<dots> \<le> m * k" using assms(2) by (intro mult_le_mono) simp_all
  finally show ?thesis .
qed

lemma drawn_task:
  assumes s: "frozen_roster rt s" and t: "t \<in> set (bs_tasks s)"
  obtains c where "c < task_cycle rt s t"
    "\<And>p. chosen_task rt s (int p) = t \<longleftrightarrow> p mod task_cycle rt s t = c"
proof -
  let ?F = "bs_families s" and ?G = "features_of rt s (sl_family t)"
  let ?T = "tasks_of rt s (sl_family t) (sl_feature t)"
  note lists = frozen_lists [OF s t]
  obtain i j l where ijl: "i < length ?F" "?F ! i = sl_family t" "j < length ?G" "?G ! j = sl_feature t"
    "l < length ?T" "?T ! l = t"
    using lists by (metis in_set_conv_nth)
  let ?n = "length ?F" and ?a = "length ?G" and ?b = "length ?T"
  have split: "p mod (?n * (?a * ?b)) = p mod ?n + ?n * (p div ?n mod ?a + ?a * (p div ?n div ?a mod ?b))" for p
    by (simp add: mod_mult2_eq add.commute)
  have unique: "x + m * y = x' + m * y' \<longleftrightarrow> x = x' \<and> y = y'" if "x < m" "x' < m" for x x' y y' m :: nat
  proof
    assume "x + m * y = x' + m * y'"
    then have "(x + m * y) mod m = (x' + m * y') mod m" "(x + m * y) div m = (x' + m * y') div m" by simp_all
    with that show "x = x' \<and> y = y'" by simp
  qed simp
  have "chosen_task rt s (int p) = t \<longleftrightarrow> p mod ?n = i \<and> p div ?n mod ?a = j \<and> p div ?n div ?a mod ?b = l" for p
  proof -
    note chosen = chosen_from_lists [OF s refl, of p]
    have F: "turn ?F (int p) = sl_family t \<longleftrightarrow> p mod ?n = i" using turn_iff [OF lists(2) ijl(1)] ijl(2) by simp
    have G: "turn ?G (int (p div ?n)) = sl_feature t \<longleftrightarrow> p div ?n mod ?a = j"
      using turn_iff [OF lists(4) ijl(3)] ijl(4) by simp
    have T: "turn ?T (int (p div ?n div ?a)) = t \<longleftrightarrow> p div ?n div ?a mod ?b = l"
      using turn_iff [OF lists(6) ijl(5)] ijl(6) by simp
    have "chosen_task rt s (int p) = t \<longleftrightarrow> turn ?F (int p) = sl_family t
        \<and> turn ?G (int (p div ?n)) = sl_feature t \<and> turn ?T (int (p div ?n div ?a)) = t"
      using chosen by (auto simp: zdiv_int)
    then show ?thesis by (simp only: F G T)
  qed
  moreover have "p mod (?n * (?a * ?b)) = i + ?n * (j + ?a * l)
      \<longleftrightarrow> p mod ?n = i \<and> p div ?n mod ?a = j \<and> p div ?n div ?a mod ?b = l" for p
  proof -
    have "p mod ?n < ?n" "p div ?n mod ?a < ?a" using ijl(1,3) by (auto intro!: mod_less_divisor)
    then show ?thesis unfolding split using ijl(1,3) by (simp add: unique)
  qed
  moreover have "i + ?n * (j + ?a * l) < ?n * (?a * ?b)"
    using ijl by (intro digit_bound)
  ultimately show thesis using that [of "i + ?n * (j + ?a * l)"] by (simp add: task_cycle_def)
qed

lemma next_group_Inr:
  assumes "next_group rt s v = Inr (p, s')"
  shows "gp_task p = chosen_task rt s (bs_position s)" "gp_position p = bs_position s"
    "gp_policy_version p = v" "distinct (gp_episode_seeds p)"
    "int (length (gp_episode_seeds p)) = max 0 (bs_group_size s)" "s' = s\<lparr>bs_position := bs_position s + 1\<rparr>"
  using assms by (auto simp: next_group_def raise_if_eq_Inr Let_def card_distinct length_remdups_card_conv)

lemma chosen_position [simp]: "chosen_task rt (s\<lparr>bs_position := n\<rparr>) = chosen_task rt s"
  by (simp add: fun_eq_iff chosen_task_def features_of_def tasks_of_def Let_def)

lemma next_groups_Inr:
  assumes "next_groups rt s vs = Inr (ps, t)"
  shows "map gp_task ps = map (\<lambda>i. chosen_task rt s (bs_position s + int i)) [0..<length vs]
    \<and> map gp_position ps = map (\<lambda>i. bs_position s + int i) [0..<length vs]
    \<and> map gp_policy_version ps = vs \<and> t = s\<lparr>bs_position := bs_position s + int (length vs)\<rparr>
    \<and> list_all (\<lambda>p. distinct (gp_episode_seeds p)
         \<and> int (length (gp_episode_seeds p)) = max 0 (bs_group_size s)) ps"
  using assms
proof (induction vs arbitrary: s ps)
  case (Cons v vs)
  then obtain p s' qs where step: "next_group rt s v = Inr (p, s')" "next_groups rt s' vs = Inr (qs, t)"
    "ps = p # qs"
    by (auto simp: result_simps)
  note head = next_group_Inr [OF step(1)]
  have shift: "map f [0..<length (v # vs)] = f 0 # map (\<lambda>i. f (Suc i)) [0..<length vs]" for f :: "nat \<Rightarrow> 'b"
    by (simp add: upt_conv_Cons map_Suc_upt [symmetric] comp_def del: upt_Suc)
  from Cons.IH [OF step(2)] head step(3) show ?case
    unfolding shift by (simp add: ac_simps)
qed simp

lemma frozen_resumes:
  assumes "balanced_sampler rt tasks seed group_size = Inr start" "mset tasks' = mset tasks"
  shows "balanced_sampler rt tasks' seed group_size = Inr start"
proof -
  note facts = balanced_sampler_Inr [OF assms(1)]
  have "sort_key sl_task_id tasks' = sort_key sl_task_id tasks"
    using facts(4) assms(2)
    by (intro sort_key_inj_key_eq) (auto simp: distinct_map dest: mset_eq_setD)
  moreover have "length (remdups (map sl_task_id tasks')) = length tasks'"
  proof -
    have "mset (map sl_task_id tasks') = mset (map sl_task_id tasks)" using assms(2) by simp
    with facts(4) have "distinct (map sl_task_id tasks')" by (metis mset_eq_imp_distinct_iff)
    then show ?thesis by (simp add: distinct_remdups_id)
  qed
  moreover have "tasks' \<noteq> []" using facts(1) assms(2) by auto
  ultimately show ?thesis using facts by (simp add: balanced_sampler_def raise_if_def Let_def)
qed

lemma load_own_state:
  assumes "bs_position s \<ge> 0" "s = start\<lparr>bs_position := bs_position s\<rparr>"
  shows "sampler_load_state_dict start (sampler_state_dict s) = Inr s"
proof -
  have "bs_roster_digest s = bs_roster_digest start" "bs_seed s = bs_seed start" "bs_group_size s = bs_group_size start"
    using assms(2) by (metis sampler.select_convs sampler.update_convs sampler.surjective)+
  with assms show ?thesis by (auto simp: sampler_load_state_dict_def sampler_state_dict_def Let_def)
qed

section \<open>The policy barrier\<close>

record policy_stamp =
  stamp_version :: string
  stamp_weights :: digest
  stamp_tokenizer :: digest
  stamp_template :: digest

definition policy_stamp_checks :: "policy_stamp \<Rightarrow> checks" where
  "policy_stamp_checks s =
     [(\<not> is_identifier (stamp_version s), ''Invalid policy version''),
      (list_ex (\<lambda>v. \<not> is_digest v) [stamp_weights s, stamp_tokenizer s, stamp_template s],
       ''Exact policy/tokenizer/template digests required'')]"

record policy_barrier =
  pb_workers :: "string list"
  pb_stamp :: "policy_stamp option"
  pb_probe :: "int list option"
  pb_acknowledged :: "string set"

definition new_barrier :: "string list \<Rightarrow> string + policy_barrier" where
  "new_barrier workers =
     raise_if (workers = [] \<or> \<not> distinct workers \<or> list_ex (\<lambda>w. w = []) workers)
       ''Unique nonempty inference worker roster required''
     (Inr \<lparr>pb_workers = workers, pb_stamp = None, pb_probe = None, pb_acknowledged = {}\<rparr>)"

definition barrier_begin :: "policy_barrier \<Rightarrow> policy_stamp \<Rightarrow> int list \<Rightarrow> string + policy_barrier" where
  "barrier_begin b stamp probe =
     raise_if (probe = [] \<or> list_ex (\<lambda>t. t < 0) probe) ''Exact fixed-input inference result required''
     (bind_result (validate (policy_stamp_checks stamp) stamp)
       (\<lambda>_. Inr (b\<lparr>pb_stamp := Some stamp, pb_probe := Some probe, pb_acknowledged := {}\<rparr>)))"

definition barrier_acknowledge ::
  "policy_barrier \<Rightarrow> string \<Rightarrow> policy_stamp \<Rightarrow> int list \<Rightarrow> string + policy_barrier" where
  "barrier_acknowledge b worker stamp probe =
     raise_if (pb_stamp b = None \<or> worker \<notin> set (pb_workers b) \<or> Some stamp \<noteq> pb_stamp b
         \<or> Some probe \<noteq> pb_probe b) ''Stale/unknown worker or inference mismatch''
     (Inr (b\<lparr>pb_acknowledged := insert worker (pb_acknowledged b)\<rparr>))"

definition barrier_require :: "policy_barrier \<Rightarrow> policy_stamp \<Rightarrow> string + unit" where
  "barrier_require b stamp =
     raise_if (pb_stamp b = None \<or> Some stamp \<noteq> pb_stamp b \<or> pb_acknowledged b \<noteq> set (pb_workers b))
       ''Policy synchronization and fixed-input inference are incomplete''
     (Inr ())"

record barrier_snapshot =
  bsn_workers :: "string list"
  bsn_stamp :: "policy_stamp option"
  bsn_probe :: "int list option"

definition barrier_state_dict :: "policy_barrier \<Rightarrow> barrier_snapshot" where
  "barrier_state_dict b = \<lparr>bsn_workers = pb_workers b, bsn_stamp = pb_stamp b,
     bsn_probe = (case pb_probe b of None \<Rightarrow> None | Some [] \<Rightarrow> None | Some p \<Rightarrow> Some p)\<rparr>"

definition barrier_load_state_dict :: "policy_barrier \<Rightarrow> barrier_snapshot \<Rightarrow> string + policy_barrier" where
  "barrier_load_state_dict b state =
     raise_if (bsn_workers state \<noteq> pb_workers b \<or> bsn_stamp state = None \<or> bsn_probe state = None)
       ''Checkpoint inference roster/identity missing or changed''
     (bind_result (validate (policy_stamp_checks (the (bsn_stamp state))) (the (bsn_stamp state)))
       (\<lambda>stamp. barrier_begin b stamp (the (bsn_probe state))))"

text \<open>The calls a controller makes; a call that raises leaves the barrier as it was.\<close>

datatype barrier_call =
    Begin policy_stamp "int list"
  | Acknowledge string policy_stamp "int list"
  | Load barrier_snapshot

fun barrier_apply :: "policy_barrier \<Rightarrow> barrier_call \<Rightarrow> string + policy_barrier" where
  "barrier_apply b (Begin stamp probe) = barrier_begin b stamp probe"
| "barrier_apply b (Acknowledge worker stamp probe) = barrier_acknowledge b worker stamp probe"
| "barrier_apply b (Load state) = barrier_load_state_dict b state"

fun barrier_run :: "policy_barrier \<Rightarrow> barrier_call list \<Rightarrow> policy_barrier" where
  "barrier_run b [] = b"
| "barrier_run b (c # cs) = barrier_run (case barrier_apply b c of Inl e \<Rightarrow> b | Inr b' \<Rightarrow> b') cs"

text \<open>The round a call opens, if it opens one: it depends on the worker roster only.\<close>

definition opened :: "string list \<Rightarrow> barrier_call \<Rightarrow> (policy_stamp \<times> int list) option" where
  "opened workers c =
     (let accept = (\<lambda>stamp probe. if passes (policy_stamp_checks stamp) \<and> probe \<noteq> [] \<and> list_all (\<lambda>t. 0 \<le> t) probe
                                 then Some (stamp, probe) else None)
      in case c of
           Begin stamp probe \<Rightarrow> accept stamp probe
         | Acknowledge _ _ _ \<Rightarrow> None
         | Load state \<Rightarrow> (case (bsn_stamp state, bsn_probe state) of
             (Some stamp, Some probe) \<Rightarrow> if bsn_workers state = workers then accept stamp probe else None
           | _ \<Rightarrow> None))"

lemma begin_opened:
  "barrier_begin b stamp probe = Inr b' \<longleftrightarrow>
     opened (pb_workers b) (Begin stamp probe) = Some (stamp, probe)
     \<and> b' = b\<lparr>pb_stamp := Some stamp, pb_probe := Some probe, pb_acknowledged := {}\<rparr>"
  by (auto simp: barrier_begin_def raise_if_eq_Inr bind_result_eq_Inr validate_eq_Inr opened_def list_ex_iff
      list_all_iff not_less)

lemma opened_Ack [simp]: "opened workers (Acknowledge w s p) = None"
  by (simp add: opened_def)

lemma call_opened:
  assumes "opened (pb_workers b) c = Some (stamp, probe)"
  shows "barrier_apply b c = Inr (b\<lparr>pb_stamp := Some stamp, pb_probe := Some probe, pb_acknowledged := {}\<rparr>)"
proof (cases c)
  case (Begin s p)
  with assms have "s = stamp" "p = probe" by (auto simp: opened_def Let_def split: if_splits)
  with assms Begin show ?thesis by (simp add: begin_opened)
next
  case (Load st)
  with assms have st: "bsn_workers st = pb_workers b" "bsn_stamp st = Some stamp" "bsn_probe st = Some probe"
    "passes (policy_stamp_checks stamp)" "opened (pb_workers b) (Begin stamp probe) = Some (stamp, probe)"
    by (auto simp: opened_def Let_def split: if_splits option.splits)
  then have "validate (policy_stamp_checks stamp) stamp = Inr stamp" by (simp add: validate_eq_Inr)
  with st show ?thesis by (simp add: Load barrier_load_state_dict_def begin_opened)
qed (use assms in simp)

lemma call_unopened:
  assumes "opened (pb_workers b) c = None" "barrier_apply b c = Inr b'"
  obtains w s p where "c = Acknowledge w s p" "w \<in> set (pb_workers b)" "pb_stamp b = Some s" "pb_probe b = Some p"
    "b' = b\<lparr>pb_acknowledged := insert w (pb_acknowledged b)\<rparr>"
proof (cases c)
  case (Begin s p)
  with assms show ?thesis by (simp add: begin_opened)
next
  case (Load st)
  with assms(2) have "opened (pb_workers b) c \<noteq> None"
    by (auto simp: barrier_load_state_dict_def raise_if_eq_Inr bind_result_eq_Inr validate_eq_Inr begin_opened
        opened_def Let_def split: if_splits)
  with assms(1) show ?thesis by simp
next
  case (Acknowledge w s p)
  with assms(2) show ?thesis by (intro that) (auto simp: barrier_acknowledge_def raise_if_eq_Inr)
qed

lemma barrier_run_append: "barrier_run b (cs @ ds) = barrier_run (barrier_run b cs) ds"
  by (induction cs arbitrary: b) simp_all

lemma call_workers: "barrier_apply b c = Inr b' \<Longrightarrow> pb_workers b' = pb_workers b"
  by (cases "opened (pb_workers b) c") (auto simp: call_opened elim: call_unopened)

lemma run_workers [simp]: "pb_workers (barrier_run b cs) = pb_workers b"
  by (induction cs arbitrary: b) (auto simp: call_workers split: sum.split)

text \<open>A stretch of calls that opens no round only collects the matching acknowledgments.\<close>

lemma run_unopened:
  assumes "list_all (\<lambda>c. opened (pb_workers b) c = None) cs"
  shows "pb_stamp (barrier_run b cs) = pb_stamp b \<and> pb_probe (barrier_run b cs) = pb_probe b
    \<and> pb_acknowledged (barrier_run b cs) = pb_acknowledged b
        \<union> {w \<in> set (pb_workers b). \<exists>s p. pb_stamp b = Some s \<and> pb_probe b = Some p \<and> Acknowledge w s p \<in> set cs}"
  using assms
proof (induction cs arbitrary: b)
  case (Cons c cs)
  then have c: "opened (pb_workers b) c = None" and cs: "list_all (\<lambda>c. opened (pb_workers b) c = None) cs" by simp_all
  show ?case
  proof (cases "barrier_apply b c")
    case (Inl e)
    then have "\<not> (\<exists>w s p. c = Acknowledge w s p \<and> w \<in> set (pb_workers b) \<and> pb_stamp b = Some s \<and> pb_probe b = Some p)"
      by (auto simp: barrier_acknowledge_def)
    with Cons.IH [OF cs] Inl show ?thesis by auto
  next
    case (Inr b')
    from c Inr obtain w s p where ack: "c = Acknowledge w s p" "w \<in> set (pb_workers b)" "pb_stamp b = Some s"
      "pb_probe b = Some p" "b' = b\<lparr>pb_acknowledged := insert w (pb_acknowledged b)\<rparr>"
      by (rule call_unopened)
    then have "list_all (\<lambda>c. opened (pb_workers b') c = None) cs" using cs by simp
    from Cons.IH [OF this] Inr ack show ?thesis by auto
  qed
qed simp

lemma run_round:
  assumes "opened (pb_workers b) c = Some (stamp, probe)"
    and "list_all (\<lambda>d. opened (pb_workers b) d = None) post"
  shows "pb_stamp (barrier_run b (pre @ c # post)) = Some stamp"
    and "pb_acknowledged (barrier_run b (pre @ c # post))
           = {w \<in> set (pb_workers b). Acknowledge w stamp probe \<in> set post}"
proof -
  have call: "barrier_apply (barrier_run b pre) c
     = Inr ((barrier_run b pre)\<lparr>pb_stamp := Some stamp, pb_probe := Some probe, pb_acknowledged := {}\<rparr>)"
    using assms(1) by (intro call_opened) simp
  show "pb_stamp (barrier_run b (pre @ c # post)) = Some stamp"
    "pb_acknowledged (barrier_run b (pre @ c # post))
           = {w \<in> set (pb_workers b). Acknowledge w stamp probe \<in> set post}"
    using run_unopened [of "(barrier_run b pre)\<lparr>pb_stamp := Some stamp, pb_probe := Some probe, pb_acknowledged := {}\<rparr>" post]
      assms(2) by (simp_all add: barrier_run_append call)
qed

end
