(* ===== verification/TrainingGuarantees.thy ===== *)
theory TrainingGuarantees
  imports TrainingGroups
begin

text \<open>
  What training relies on: advantages that compare a measured episode with its own group only, a
  sampler that gives every task its share and resumes exactly, and a barrier that opens only after
  every worker has answered the current round.
\<close>

section \<open>Advantages\<close>





section \<open>Sampling\<close>

text \<open>
  C34: after a whole number of turns of a task's cycle the task has been drawn exactly that often,
  and its repository family exactly in proportion, whatever the seed. Every drawn task is of the
  roster, positions count up from zero, and every group has its full number of different seeds.
\<close>

theorem sampler_balanced:
  assumes "balanced_sampler rt tasks seed group_size = Inr start"
    and "next_groups rt start vs = Inr (plans, s)" and "t \<in> set tasks"
    and "length vs = q * task_cycle rt start t"
  shows "length (filter (\<lambda>p. gp_task p = t) plans) = q
    \<and> length (filter (\<lambda>p. sl_family (gp_task p) = sl_family t) plans) * length (bs_families start) = length vs
    \<and> set (map gp_task plans) \<subseteq> set tasks \<and> map gp_position plans = map int [0..<length vs]
    \<and> list_all (\<lambda>p. distinct (gp_episode_seeds p) \<and> int (length (gp_episode_seeds p)) = group_size) plans"
proof (intro conjI)
  note frozen = balanced_sampler_frozen [OF assms(1)] and drawn = next_groups_Inr [OF assms(2)]
  have t: "t \<in> set (bs_tasks start)" using frozen(2) assms(3) by simp
  let ?draw = "\<lambda>i. chosen_task rt start (int i)"
  have tasks: "map gp_task plans = map ?draw [0..<length vs]" using drawn frozen(3) by simp
  have count: "length (filter (\<lambda>p. P (gp_task p)) plans) = length (filter (\<lambda>i. P (?draw i)) [0..<length vs])" for P
  proof -
    have "length (filter (\<lambda>p. P (gp_task p)) plans) = length (filter P (map gp_task plans))"
      by (simp add: filter_map comp_def)
    then show ?thesis by (simp add: tasks filter_map comp_def)
  qed
  obtain c where "c < task_cycle rt start t" "\<And>p. ?draw p = t \<longleftrightarrow> p mod task_cycle rt start t = c"
    using drawn_task [OF frozen(1) t] by metis
  then show "length (filter (\<lambda>p. gp_task p = t) plans) = q"
    using count [of "\<lambda>u. u = t"] by (simp add: assms(4) count_residue)
  obtain i where i: "i < length (bs_families start)" "bs_families start ! i = sl_family t"
    using frozen_lists(1) [OF frozen(1) t] by (metis in_set_conv_nth)
  define k where "k = q * (length (features_of rt start (sl_family t))
     * length (tasks_of rt start (sl_family t) (sl_feature t)))"
  have len: "length vs = k * length (bs_families start)"
    unfolding k_def assms(4) task_cycle_def by (simp only: mult_ac)
  have "sl_family (?draw p) = sl_family t \<longleftrightarrow> p mod length (bs_families start) = i" for p
    using drawn_family [OF frozen(1) i(1)] i(2) by simp
  then have "length (filter (\<lambda>p. sl_family (gp_task p) = sl_family t) plans) = k"
    using count [of "\<lambda>u. sl_family u = sl_family t"] by (simp add: len count_residue [OF i(1)])
  then show "length (filter (\<lambda>p. sl_family (gp_task p) = sl_family t) plans) * length (bs_families start) = length vs"
    by (simp add: len)
  show "set (map gp_task plans) \<subseteq> set tasks"
    unfolding tasks using chosen_from_lists(2) [OF frozen(1) refl] frozen(2) by auto
  show "map gp_position plans = map int [0..<length vs]" using drawn frozen(3) by simp
  show "list_all (\<lambda>p. distinct (gp_episode_seeds p) \<and> int (length (gp_episode_seeds p)) = group_size) plans"
    using drawn frozen(4) balanced_sampler_Inr(3) [OF assms(1)] by (simp add: list_all_iff)
qed

text \<open>
  C35: a checkpoint taken after any number of groups restores the sampler exactly, also into a
  sampler built from the same roster in another order, so the resumed run draws the same groups.
\<close>

theorem sampler_resumes:
  assumes "balanced_sampler rt tasks seed group_size = Inr start"
    and "next_groups rt start vs = Inr (plans, s)" and "mset tasks' = mset tasks"
  shows "bind_result (balanced_sampler rt tasks' seed group_size)
           (\<lambda>fresh. bind_result (sampler_load_state_dict fresh (sampler_state_dict s))
             (\<lambda>resumed. next_groups rt resumed ws)) = next_groups rt s ws"
proof -
  have s: "s = start\<lparr>bs_position := bs_position start + int (length vs)\<rparr>" using next_groups_Inr [OF assms(2)] by blast
  have "0 \<le> bs_position s" using balanced_sampler_frozen(3) [OF assms(1)] by (simp add: s)
  moreover have "s = start\<lparr>bs_position := bs_position s\<rparr>" by (simp add: s)
  ultimately show ?thesis by (simp add: frozen_resumes [OF assms(1,3)] load_own_state)
qed

section \<open>The barrier\<close>

text \<open>
  C36: after any sequence of calls, refused ones included, a policy is admitted exactly when the
  last accepted round was opened for it (by \<open>begin\<close> or by restoring a checkpoint) and every
  configured worker has since acknowledged that policy with that round's probe result.
\<close>

theorem barrier_admits_synchronized:
  assumes "new_barrier workers = Inr b"
  shows "barrier_require (barrier_run b cs) stamp = Inr () \<longleftrightarrow>
    (\<exists>pre c post probe. cs = pre @ c # post \<and> opened workers c = Some (stamp, probe)
       \<and> list_all (\<lambda>d. opened workers d = None) post
       \<and> set workers \<subseteq> {w. Acknowledge w stamp probe \<in> set post})" (is "?admit \<longleftrightarrow> ?synchronized")
proof
  have b: "pb_workers b = workers" "pb_stamp b = None" using assms by (auto simp: new_barrier_def raise_if_eq_Inr)
  assume admit: ?admit
  then have stamp: "pb_stamp (barrier_run b cs) = Some stamp"
    and acks: "pb_acknowledged (barrier_run b cs) = set workers"
    using b by (auto simp: barrier_require_def raise_if_eq_Inr)
  show ?synchronized
  proof (cases "list_all (\<lambda>d. opened workers d = None) cs")
    case True
    with stamp b run_unopened [of b cs] show ?thesis by simp
  next
    case False
    then have "\<exists>d \<in> set cs. opened workers d \<noteq> None" by (simp add: list_all_iff)
    from split_list_last_prop [OF this] obtain pre c post where cs: "cs = pre @ c # post"
      "opened workers c \<noteq> None" "\<forall>d \<in> set post. \<not> opened workers d \<noteq> None" by blast
    then obtain s p where c: "opened workers c = Some (s, p)" by fastforce
    have post: "list_all (\<lambda>d. opened workers d = None) post" using cs(3) by (simp only: list_all_iff not_not)
    note round = run_round [of b c s p post pre, unfolded b(1), OF c post]
    have "s = stamp" using round(1) stamp cs(1) by simp
    moreover have "set workers \<subseteq> {w. Acknowledge w s p \<in> set post}" using round(2) acks cs(1) by auto
    ultimately show ?thesis using cs(1) c post by blast
  qed
next
  have b: "pb_workers b = workers" using assms by (auto simp: new_barrier_def raise_if_eq_Inr)
  assume ?synchronized
  then obtain pre c post probe where cs: "cs = pre @ c # post" and c: "opened workers c = Some (stamp, probe)"
    and post: "list_all (\<lambda>d. opened workers d = None) post"
    and all: "set workers \<subseteq> {w. Acknowledge w stamp probe \<in> set post}" by blast
  note round = run_round [of b c stamp probe post pre, unfolded b, OF c post]
  have "{w \<in> set workers. Acknowledge w stamp probe \<in> set post} = set workers"
    by (rule equalityI) (use all in blast)+
  with round show ?admit unfolding cs barrier_require_def by (simp add: b)
qed

section \<open>The properties at work\<close>


definition reversing :: runtime where
  "reversing = \<lparr>sha256 = \<lambda>s. take 2 (rev s), float_repr = \<lambda>x. []\<rparr>"

definition sample_roster :: "task_slot list" where
  "sample_roster = [\<lparr>sl_task_id = ''t1'', sl_family = ''a'', sl_feature = ''f''\<rparr>,
     \<lparr>sl_task_id = ''t2'', sl_family = ''b'', sl_feature = ''g''\<rparr>]"

definition sample_stamp :: policy_stamp where
  "sample_stamp = \<lparr>stamp_version = ''v1'', stamp_weights = replicate 64 CHR ''0'',
     stamp_tokenizer = replicate 64 CHR ''1'', stamp_template = replicate 64 CHR ''2''\<rparr>"

definition sample_start :: sampler where
  "sample_start = projr (balanced_sampler reversing sample_roster 1 2)"

definition sample_run :: "group_plan list \<times> sampler" where
  "sample_run = projr (next_groups reversing sample_start [''v'', ''v''])"

lemma not_isl_Inr: "isl m = False \<Longrightarrow> m = Inr (projr m)"
  by (cases m) simp_all

lemma sample_built: "balanced_sampler reversing sample_roster 1 2 = Inr sample_start"
  unfolding sample_start_def by (rule not_isl_Inr) code_simp

lemma sample_drawn: "next_groups reversing sample_start [''v'', ''v''] = Inr (fst sample_run, snd sample_run)"
  unfolding sample_run_def prod.collapse by (rule not_isl_Inr) code_simp

lemma sample_cycle: "task_cycle reversing sample_start (hd sample_roster) = 2"
  by code_simp

theorem sampler_balanced_witness:
  "length (filter (\<lambda>p. gp_task p = hd sample_roster) (fst sample_run)) = 1"
proof -
  have "hd sample_roster \<in> set sample_roster" by (simp add: sample_roster_def)
  from sampler_balanced [OF sample_built sample_drawn this, of 1] show ?thesis by (simp add: sample_cycle)
qed

theorem sampler_resumes_witness:
  "bind_result (balanced_sampler reversing (rev sample_roster) 1 2)
     (\<lambda>fresh. bind_result (sampler_load_state_dict fresh (sampler_state_dict (snd sample_run)))
       (\<lambda>resumed. next_groups reversing resumed [])) = Inr ([], snd sample_run)"
  using sampler_resumes [OF sample_built sample_drawn, of "rev sample_roster" "[]"] by simp

theorem barrier_admits_synchronized_witness:
  "barrier_require (barrier_run \<lparr>pb_workers = [''w''], pb_stamp = None, pb_probe = None, pb_acknowledged = {}\<rparr>
     [Begin sample_stamp [7], Acknowledge ''w'' sample_stamp [7]]) sample_stamp = Inr ()"
proof -
  have new: "new_barrier [''w''] = Inr \<lparr>pb_workers = [''w''], pb_stamp = None, pb_probe = None, pb_acknowledged = {}\<rparr>"
    by (simp add: new_barrier_def)
  have "opened [''w''] (Begin sample_stamp [7]) = Some (sample_stamp, [7])" by code_simp
  then show ?thesis
    by (intro barrier_admits_synchronized [OF new, THEN iffD2]
        exI [of _ "[]"] exI [of _ "Begin sample_stamp [7]"] exI [of _ "[Acknowledge ''w'' sample_stamp [7]]"]
        exI [of _ "[7]"]) auto
qed

end
