(* ===== verification/Sources.thy ===== *)
theory Sources
  imports ArtifactStore
begin

text \<open>
  \<^verbatim>\<open>environments/archive.py\<close> and \<^verbatim>\<open>submission/\<close>: source archives, which the controller reads without
  ever extracting them, and submissions, the delta of a candidate over the baseline. A tar file is
  the list of its members: the reader and the writer of \<^verbatim>\<open>tarfile\<close> are the parameters \<open>tar_read\<close>
  (the members, and whether the stream ends well-formed) and \<open>tar_write\<close>.
\<close>

section \<open>Paths\<close>

fun split_on :: "char \<Rightarrow> string \<Rightarrow> string list" where
  "split_on c [] = [[]]"
| "split_on c (x # xs) =
     (if x = c then [] # split_on c xs
      else (case split_on c xs of [] \<Rightarrow> [[x]] | p # ps \<Rightarrow> (x # p) # ps))"

definition rstrip :: "char \<Rightarrow> string \<Rightarrow> string" where
  "rstrip c s = rev (dropWhile (\<lambda>x. x = c) (rev s))"

definition ends_with :: "string \<Rightarrow> string \<Rightarrow> bool" where
  "ends_with p s \<longleftrightarrow> starts_with (rev p) (rev s)"

datatype source_error =
    SourceRejected string
  | SourceStoreError artifact_error
  | SourceValueError string

abbreviation path_parts :: "string \<Rightarrow> string list" where
  "path_parts name \<equiv> split_on CHR ''/'' (rstrip CHR ''/'' name)"

definition safe_path :: "string \<Rightarrow> source_error + string" where
  "safe_path name =
     raise_if (name = [] \<or> length name > 1024) (SourceRejected ''empty or oversized source path'')
    (raise_if (CHR 0x5C \<in> set name \<or> CHR 0x00 \<in> set name \<or> list_ex (\<lambda>c. (of_char c :: nat) < 32) name)
       (SourceRejected ''invalid source path characters'')
    (raise_if (list_ex (\<lambda>p. p \<in> set [[], ''.'', ''..'', ''.git'', ''__pycache__'']) (path_parts name)
         \<or> starts_with ''/'' name) (SourceRejected ''source traversal/history/cache path'')
    (raise_if (list_ex (\<lambda>p. length p > 255) (path_parts name))
       (SourceRejected ''source component exceeds filesystem limit'')
    (raise_if (ends_with ''.pyc'' name \<or> ends_with ''.pyo'' name)
       (SourceRejected ''compiled Python source artifact'')
    (Inr (join_text ''/'' (path_parts name)))))))"

text \<open>A path that is its own safe form.\<close>

definition canonical_path :: "string \<Rightarrow> bool" where
  "canonical_path name \<longleftrightarrow> safe_path name = Inr name"

text \<open>\<open>path == root or path.startswith(root + '/')\<close>\<close>

definition under :: "string \<Rightarrow> string \<Rightarrow> bool" where
  "under dir path \<longleftrightarrow> path = dir \<or> starts_with (dir @ ''/'') path"

definition in_pytest_cache :: "string \<Rightarrow> bool" where
  "in_pytest_cache name \<longleftrightarrow> ''.pytest_cache'' \<in> set (split_on CHR ''/'' name)"

section \<open>Archives\<close>

record source_file =
  sf_data :: string
  sf_executable :: bool

type_synonym source_archive = "source_file dict"

definition PYTEST_METADATA :: "string list" where
  "PYTEST_METADATA = [''.gitignore'', ''CACHEDIR.TAG'', ''README.md'', ''v/cache/nodeids'',
     ''v/cache/lastfailed'', ''v/cache/stepwise'']"

definition transient :: "source_archive \<Rightarrow> string \<Rightarrow> source_file \<Rightarrow> bool" where
  "transient baseline name entry \<longleftrightarrow>
     (let parts = split_on CHR ''/'' name in
      \<not> (has_key baseline name \<or> sf_executable entry \<or> ''.pytest_cache'' \<notin> set parts)
      \<and> join_text ''/'' (tl (dropWhile (\<lambda>p. p \<noteq> ''.pytest_cache'') parts)) \<in> set PYTEST_METADATA)"

definition without_pytest_cache :: "source_archive \<Rightarrow> source_archive \<Rightarrow> source_archive" where
  "without_pytest_cache files baseline = filter (\<lambda>(name, entry). \<not> transient baseline name entry) files"

datatype member_type = Regular | Directory | Special

record tar_member =
  tm_name :: string
  tm_type :: member_type
  tm_sparse :: bool
  tm_size :: int
  tm_data :: string
  tm_mode :: nat

datatype profile = Python_profile "string list" | Command_profile "string list"

record sandbox_policy =
  sp_profile :: profile
  sp_stdin_bytes :: int
  sp_max_source_bytes :: int
  sp_max_archive_bytes :: int
  sp_max_files :: int

record tar_library =
  tar_read :: "string \<Rightarrow> tar_member list \<times> bool"
  tar_write :: "tar_member list \<Rightarrow> string"

record read_state =
  rs_count :: int
  rs_seen :: "string set"
  rs_total :: int
  rs_files :: source_archive

definition executable_mode :: "nat \<Rightarrow> bool" where
  "executable_mode mode \<longleftrightarrow> odd (mode div 64) \<or> odd (mode div 8) \<or> odd mode"

definition read_member :: "sandbox_policy \<Rightarrow> read_state \<Rightarrow> tar_member \<Rightarrow> source_error + read_state" where
  "read_member policy st item =
     (let count = rs_count st + 1 in
      raise_if (count > sp_max_files policy) (SourceRejected ''archive member count limit'')
      (bind_result (safe_path (tm_name item)) (\<lambda>name.
       raise_if (name \<in> rs_seen st) (SourceRejected ''duplicate archive path'')
       (let seen = insert name (rs_seen st) in
        if tm_type item = Directory then Inr (st\<lparr>rs_count := count, rs_seen := seen\<rparr>)
        else raise_if (tm_type item \<noteq> Regular \<or> tm_sparse item) (SourceRejected ''only regular source files permitted'')
          (let total = rs_total st + tm_size item in
           raise_if (tm_size item < 0 \<or> total > sp_max_source_bytes policy)
             (SourceRejected ''expanded source byte limit'')
           (raise_if (int (length (tm_data item)) \<noteq> tm_size item) (SourceRejected ''truncated member'')
            (Inr \<lparr>rs_count = count, rs_seen = seen, rs_total = total,
                  rs_files = dict_put name \<lparr>sf_data = tm_data item, sf_executable = executable_mode (tm_mode item)\<rparr>
                    (rs_files st)\<rparr>)))))))"

definition proper_ancestors :: "string \<Rightarrow> string list" where
  "proper_ancestors name = (let parts = split_on CHR ''/'' name in
     map (\<lambda>n. join_text ''/'' (take n parts)) [1..<length parts])"

definition read_archive :: "tar_library \<Rightarrow> sandbox_policy \<Rightarrow> string \<Rightarrow> source_error + source_archive" where
  "read_archive tar policy data =
     raise_if (int (length data) > sp_max_archive_bytes policy) (SourceRejected ''archive input byte limit'')
     (bind_result (fold_result (read_member policy)
         \<lparr>rs_count = 0, rs_seen = {}, rs_total = 0, rs_files = []\<rparr> (fst (tar_read tar data))) (\<lambda>st.
      raise_if (\<not> snd (tar_read tar data)) (SourceRejected ''malformed source tar'')
      (raise_if (list_ex (\<lambda>name. list_ex (has_key (rs_files st)) (proper_ancestors name)) (keys (rs_files st)))
        (SourceRejected ''file is ancestor of another file'')
       (Inr (rs_files st)))))"

definition tar_entry :: "string \<times> source_file \<Rightarrow> source_error + tar_member" where
  "tar_entry p = (let (name, entry) = p in
     bind_result (safe_path name) (\<lambda>safe.
     raise_if (safe \<noteq> name) (SourceRejected ''invalid in-memory source entry'')
     (Inr \<lparr>tm_name = name, tm_type = Regular, tm_sparse = False, tm_size = int (length (sf_data entry)),
           tm_data = sf_data entry, tm_mode = (if sf_executable entry then 493 else 420)\<rparr>)))"

definition to_tar :: "tar_library \<Rightarrow> source_archive \<Rightarrow> source_error + string" where
  "to_tar tar files = bind_result (map_result tar_entry (sort_key fst files)) (\<lambda>ms. Inr (tar_write tar ms))"

definition doc_tree :: "runtime \<Rightarrow> source_archive \<Rightarrow> json" where
  "doc_tree rt files = JArr (map (\<lambda>(n, f). JObj [(''path'', JStr n), (''sha256'', JStr (sha256 rt (sf_data f))),
     (''executable'', JBool (sf_executable f))]) (sort_key fst files))"

definition tree_sha256 :: "runtime \<Rightarrow> source_archive \<Rightarrow> digest" where
  "tree_sha256 rt files = sha256 rt (canonical_json rt (doc_tree rt files))"

definition validate_change ::
  "source_archive \<Rightarrow> source_archive \<Rightarrow> string list \<Rightarrow> string list \<Rightarrow> string \<Rightarrow> source_error + unit" where
  "validate_change files baseline roots forbidden name =
     (if map_of files name = map_of baseline name then Inr ()
      else raise_if (in_pytest_cache name) (SourceRejected ''unauthorized pytest cache change'')
          (raise_if (\<not> list_ex (\<lambda>r. under r name) roots) (SourceRejected ''change outside allowed source roots'')
          (raise_if (list_ex (\<lambda>r. under r name) forbidden) (SourceRejected ''forbidden source change'')
          (Inr ()))))"

definition validate_changes ::
  "source_archive \<Rightarrow> source_archive \<Rightarrow> string list \<Rightarrow> string list \<Rightarrow> source_error + unit" where
  "validate_changes files baseline roots forbidden =
     bind_result (map_result safe_path roots) (\<lambda>roots.
     bind_result (map_result safe_path forbidden) (\<lambda>forbidden.
     raise_if (roots = []) (SourceRejected ''source change roots required'')
     (fold_result (\<lambda>_. validate_change files baseline roots forbidden) () (remdups (keys files @ keys baseline)))))"

section \<open>Submissions\<close>

record submission =
  sub_baseline :: artifact_ref
  sub_changes :: artifact_ref
  sub_deletions :: "string list"

definition valid_submission :: "submission \<Rightarrow> bool" where
  "valid_submission s \<longleftrightarrow> valid_ref (sub_baseline s) \<and> valid_ref (sub_changes s)
     \<and> length (sub_deletions s) \<le> 2000"

definition doc_submission :: "submission \<Rightarrow> json" where
  "doc_submission s = JObj [(''version'', JStr ''m4-submission-v1''), (''baseline'', doc_ref (sub_baseline s)),
     (''changes'', doc_ref (sub_changes s)), (''deletions'', JArr (map JStr (sub_deletions s)))]"

definition change_path :: "allowed_changes \<Rightarrow> string \<Rightarrow> source_error + unit" where
  "change_path rules path =
     bind_result (safe_path path) (\<lambda>safe.
     raise_if (safe \<noteq> path) (SourceRejected ''ambiguous source path'')
    (raise_if (in_pytest_cache path) (SourceRejected ''unauthorized pytest cache change'')
    (raise_if (\<not> list_ex (\<lambda>r. under r path) (ac_source_roots rules)) (SourceRejected ''outside source roots'')
    (raise_if (list_ex (\<lambda>r. under r path) (ac_forbidden_paths rules)) (SourceRejected ''forbidden path'')
    (Inr ())))))"

definition require_canonical :: "string \<Rightarrow> string \<Rightarrow> source_error + unit" where
  "require_canonical message path =
     bind_result (safe_path path) (\<lambda>safe. raise_if (safe \<noteq> path) (SourceRejected message) (Inr ()))"

definition validate_rules :: "allowed_changes \<Rightarrow> source_error + allowed_changes" where
  "validate_rules rules =
     raise_if (\<not> valid_allowed_changes rules) (SourceValueError ''invalid allowed changes'')
    (raise_if (ac_additional_artifact_types rules \<noteq> []
         \<or> (ac_dependencies rules = Dep_forbidden \<and> ac_dependency_artifacts rules \<noteq> [])
         \<or> \<not> distinct (ac_dependency_artifacts rules)
         \<or> list_ex (\<lambda>r. ref_kind r \<noteq> ''dependency-wheel'' \<or> ref_encoding r \<noteq> Enc_bytes) (ac_dependency_artifacts rules))
       (SourceRejected ''unsupported dependency/artifact policy'')
    (raise_if (\<not> distinct (ac_source_roots rules)) (SourceRejected ''duplicate roots'')
    (bind_result (fold_result (\<lambda>_. require_canonical ''ambiguous rule path'') ()
        (ac_source_roots rules @ ac_forbidden_paths rules)) (\<lambda>_. Inr rules))))"

definition root_allowed :: "string list \<Rightarrow> string \<Rightarrow> source_error + unit" where
  "root_allowed allowed dir =
     bind_result (safe_path dir) (\<lambda>safe.
     raise_if (safe \<noteq> dir \<or> \<not> list_ex (\<lambda>a. under a dir) allowed)
       (SourceRejected ''source change root is outside the repository profile'') (Inr ()))"

fun validate_allowed_changes :: "profile \<Rightarrow> allowed_changes \<Rightarrow> source_error + unit" where
  "validate_allowed_changes (Python_profile roots) rules =
     raise_if (ac_dependencies rules = Dep_forbidden \<and> ac_dependency_artifacts rules \<noteq> [])
       (SourceRejected ''forbidden dependency policy supplies dependency artifacts'')
    (raise_if (list_ex (\<lambda>r. ref_kind r \<noteq> ''dependency-wheel'') (ac_dependency_artifacts rules))
       (SourceRejected ''dependency changes require frozen wheel artifacts'')
    (bind_result (fold_result (\<lambda>_. root_allowed roots) () (ac_source_roots rules)) (\<lambda>_.
     fold_result (\<lambda>_. require_canonical ''noncanonical forbidden source path'') () (ac_forbidden_paths rules))))"
| "validate_allowed_changes (Command_profile roots) rules =
     raise_if (ac_dependency_artifacts rules \<noteq> [])
       (SourceRejected ''command toolchain dependency changes require a new frozen repository resolution'')
    (bind_result (fold_result (\<lambda>_. root_allowed roots) () (ac_source_roots rules)) (\<lambda>_.
     fold_result (\<lambda>_ path. bind_result (safe_path path) (\<lambda>_. Inr ())) () (ac_forbidden_paths rules)))"

text \<open>\<open>del result[name]\<close>\<close>

abbreviation dict_del :: "'k \<Rightarrow> ('k \<times> 'v) list \<Rightarrow> ('k \<times> 'v) list" where
  "dict_del \<equiv> AList.delete"

definition delete_path ::
  "allowed_changes \<Rightarrow> source_archive \<Rightarrow> source_archive \<Rightarrow> source_archive \<Rightarrow> string \<Rightarrow> source_error + source_archive" where
  "delete_path rules baseline changes files name =
     bind_result (change_path rules name) (\<lambda>_.
     raise_if (\<not> has_key baseline name \<or> has_key changes name)
       (SourceRejected ''missing or contradictory deletion'')
     (Inr (dict_del name files)))"

definition change_file ::
  "allowed_changes \<Rightarrow> source_archive \<Rightarrow> string \<times> source_file \<Rightarrow> source_error + source_archive" where
  "change_file rules files change =
     bind_result (change_path rules (fst change)) (\<lambda>_. Inr (dict_put (fst change) (snd change) files))"

definition strict_member :: "tar_member \<Rightarrow> source_error + unit" where
  "strict_member item =
     raise_if (tm_type item \<noteq> Regular) (SourceRejected ''noncanonical delta member'')
     (require_canonical ''noncanonical delta member'' (tm_name item))"

definition apply_delta ::
  "tar_library \<Rightarrow> sandbox_policy \<Rightarrow> source_archive \<Rightarrow> string \<Rightarrow> string list \<Rightarrow> allowed_changes
     \<Rightarrow> source_error + source_archive" where
  "apply_delta tar policy baseline archive deletions rules =
     bind_result (validate_rules rules) (\<lambda>rules.
     bind_result (validate_allowed_changes (sp_profile policy) rules) (\<lambda>_.
     raise_if (int (length deletions) > sp_max_files policy) (SourceRejected ''deletion count/type'')
    (bind_result (read_archive tar policy archive) (\<lambda>raw.
     let changes = without_pytest_cache raw baseline in
     bind_result (fold_result (\<lambda>_. strict_member) () (fst (tar_read tar archive))) (\<lambda>_.
     raise_if (\<not> distinct deletions) (SourceRejected ''duplicate deletion'')
    (bind_result (fold_result (delete_path rules baseline changes) baseline deletions) (\<lambda>remaining.
     bind_result (fold_result (change_file rules) remaining changes) (\<lambda>result.
     bind_result (to_tar tar result) (\<lambda>text.
     bind_result (read_archive tar policy text) (\<lambda>merged.
     bind_result (validate_changes merged baseline (ac_source_roots rules) (ac_forbidden_paths rules)) (\<lambda>_.
     Inr merged)))))))))))"


section \<open>The submission service\<close>

record submission_client =
  uc_runtime :: runtime
  uc_codec :: codec
  uc_role :: actor_role
  uc_tar :: tar_library
  uc_policy :: sandbox_policy
  uc_parse :: "string \<Rightarrow> submission option"

definition from_artifact_store :: "artifact_error + 'a \<Rightarrow> source_error + 'a" where
  "from_artifact_store m = (case m of Inl e \<Rightarrow> Inl (SourceStoreError e) | Inr x \<Rightarrow> Inr x)"

definition envelope_cap :: "int \<Rightarrow> int" where
  "envelope_cap cap = 4 * ((cap + 2) div 3) + 4096"

definition client_bytes ::
  "submission_client \<Rightarrow> objects \<Rightarrow> artifact_ref \<Rightarrow> int \<Rightarrow> int \<Rightarrow> source_error + string" where
  "client_bytes uc objs ref envelope_limit payload_limit =
     from_artifact_store (get_bytes (uc_runtime uc) (uc_codec uc) (uc_role uc) objs ref
       (Some envelope_limit) (Some payload_limit))"

definition source :: "submission_client \<Rightarrow> objects \<Rightarrow> artifact_ref \<Rightarrow> source_error + source_archive" where
  "source uc objs ref =
     raise_if (\<not> valid_ref ref) (SourceValueError ''invalid artifact reference'')
    (raise_if (ref_kind ref \<noteq> ''source-archive'') (SourceRejected ''source archive required'')
     (let cap = sp_max_archive_bytes (uc_policy uc) in
      bind_result (client_bytes uc objs ref (envelope_cap cap) cap) (read_archive (uc_tar uc) (uc_policy uc))))"

definition publish ::
  "submission_client \<Rightarrow> objects \<Rightarrow> string \<Rightarrow> string \<Rightarrow> source_error + artifact_ref \<times> objects" where
  "publish uc objs data kind =
     from_artifact_store (put_bytes (uc_runtime uc) (uc_role uc) objs data kind V_PRIVATE)"

definition create_submission ::
  "submission_client \<Rightarrow> objects \<Rightarrow> artifact_ref \<Rightarrow> string \<Rightarrow> string list \<Rightarrow> allowed_changes
     \<Rightarrow> source_error + artifact_ref \<times> objects" where
  "create_submission uc objs baseline archive deletions rules =
     bind_result (source uc objs baseline) (\<lambda>base.
     bind_result (apply_delta (uc_tar uc) (uc_policy uc) base archive deletions rules) (\<lambda>_.
     bind_result (publish uc objs archive ''m4-source-delta'') (\<lambda>(changes, objs1).
     let value = \<lparr>sub_baseline = baseline, sub_changes = changes, sub_deletions = deletions\<rparr> in
     raise_if (\<not> valid_submission value) (SourceValueError ''invalid submission'')
     (publish uc objs1 (canonical_json (uc_runtime uc) (doc_submission value)) ''m4-submission''))))"

text \<open>The files of a saved workspace that differ from the baseline, and the baseline files it lacks.\<close>

definition changed_files :: "source_archive \<Rightarrow> source_archive \<Rightarrow> source_archive" where
  "changed_files old new = filter (\<lambda>(name, entry). map_of old name \<noteq> Some entry) new"

definition deleted_files :: "source_archive \<Rightarrow> source_archive \<Rightarrow> string list" where
  "deleted_files old new = sort (filter (\<lambda>name. \<not> has_key new name) (keys old))"

definition submit_saved ::
  "submission_client \<Rightarrow> objects \<Rightarrow> artifact_ref \<Rightarrow> artifact_ref \<Rightarrow> allowed_changes
     \<Rightarrow> source_error + artifact_ref \<times> objects" where
  "submit_saved uc objs baseline saved rules =
     bind_result (source uc objs baseline) (\<lambda>old.
     bind_result (source uc objs saved) (\<lambda>raw.
     let new = without_pytest_cache raw old in
     bind_result (to_tar (uc_tar uc) (changed_files old new)) (\<lambda>archive.
     create_submission uc objs baseline archive (deleted_files old new) rules)))"

definition decode_json :: "codec \<Rightarrow> string \<Rightarrow> int \<Rightarrow> string + json" where
  "decode_json cd data cap =
     raise_if (int (length data) > cap) ''JSON byte cap''
     (case loads cd data of None \<Rightarrow> Inl ''invalid JSON'' | Some v \<Rightarrow> Inr v)"

definition trusted_baseline :: "submission_client \<Rightarrow> objects \<Rightarrow> artifact_ref \<Rightarrow> source_error + source_archive" where
  "trusted_baseline uc objs baseline =
     (case source uc objs baseline of
        Inl (SourceRejected m) \<Rightarrow> Inl (SourceStoreError (ArtifactIntegrityError (''invalid trusted baseline: '' @ m)))
      | Inl (SourceStoreError (ArtifactSizeLimitError m a b)) \<Rightarrow>
          Inl (SourceStoreError (ArtifactIntegrityError (''invalid trusted baseline: '' @ m)))
      | r \<Rightarrow> r)"

definition parse_submission :: "submission_client \<Rightarrow> string \<Rightarrow> source_error + submission" where
  "parse_submission uc data =
     (case decode_json (uc_codec uc) data 65536 of
        Inl e \<Rightarrow> Inl (SourceRejected ''invalid source submission manifest'')
      | Inr v \<Rightarrow>
          (case uc_parse uc (canonical_json (uc_runtime uc) v) of
             None \<Rightarrow> Inl (SourceRejected ''invalid source submission manifest'')
           | Some value \<Rightarrow>
               raise_if (\<not> valid_submission value) (SourceRejected ''invalid source submission manifest'') (Inr value)))"

definition resolve ::
  "submission_client \<Rightarrow> objects \<Rightarrow> artifact_ref \<Rightarrow> artifact_ref \<Rightarrow> allowed_changes \<Rightarrow> source_error + source_archive" where
  "resolve uc objs ref baseline rules =
     bind_result (trusted_baseline uc objs baseline) (\<lambda>base.
     raise_if (\<not> valid_ref ref) (SourceValueError ''invalid artifact reference'')
    (raise_if (ref_kind ref \<noteq> ''m4-submission'' \<or> ref_encoding ref \<noteq> Enc_bytes)
       (SourceRejected ''M4 submission bytes required'')
    (bind_result (client_bytes uc objs ref 131072 65536) (\<lambda>data.
     bind_result (parse_submission uc data) (\<lambda>value.
     raise_if (sub_baseline value \<noteq> baseline) (SourceRejected ''submission baseline mismatch'')
    (raise_if (ref_kind (sub_changes value) \<noteq> ''m4-source-delta'' \<or> ref_encoding (sub_changes value) \<noteq> Enc_bytes)
       (SourceRejected ''source delta bytes required'')
     (let cap = sp_max_archive_bytes (uc_policy uc) in
      bind_result (client_bytes uc objs (sub_changes value) (envelope_cap cap) cap) (\<lambda>archive.
      apply_delta (uc_tar uc) (uc_policy uc) base archive (sub_deletions value) rules))))))))"

section \<open>Reading what was written\<close>

definition plain_member :: "tar_member \<Rightarrow> bool" where
  "plain_member m \<longleftrightarrow> canonical_path (tm_name m) \<and> tm_type m = Regular \<and> \<not> tm_sparse m
     \<and> tm_size m = int (length (tm_data m)) \<and> tm_mode m \<in> {493, 420}"

text \<open>What \<^verbatim>\<open>tarfile\<close> promises: an archive of ordinary files lists its members as they were written.\<close>

definition tar_faithful :: "tar_library \<Rightarrow> bool" where
  "tar_faithful tar \<longleftrightarrow> (\<forall>ms. list_all plain_member ms \<longrightarrow> tar_read tar (tar_write tar ms) = (ms, True))"

definition member_of :: "string \<times> source_file \<Rightarrow> tar_member" where
  "member_of p = \<lparr>tm_name = fst p, tm_type = Regular, tm_sparse = False, tm_size = int (length (sf_data (snd p))),
     tm_data = sf_data (snd p), tm_mode = (if sf_executable (snd p) then 493 else 420)\<rparr>"

lemma tar_entry_Inr: "tar_entry p = Inr m \<longleftrightarrow> canonical_path (fst p) \<and> m = member_of p"
  by (auto simp: tar_entry_def canonical_path_def member_of_def result_simps split_beta Let_def)

lemma to_tar_Inr:
  "to_tar tar files = Inr text \<longleftrightarrow> list_all canonical_path (keys files)
     \<and> text = tar_write tar (map member_of (sort_key fst files))"
proof -
  have "map_result tar_entry fs = Inr ms \<longleftrightarrow> list_all canonical_path (keys fs) \<and> ms = map member_of fs" for fs ms
    unfolding map_result_Inr_iff tar_entry_Inr by (induction fs arbitrary: ms) (auto simp: list_all2_Cons1)
  moreover have "list_all canonical_path (keys (sort_key fst files)) = list_all canonical_path (keys files)"
    by (simp add: list_all_iff)
  ultimately show ?thesis by (auto simp: to_tar_def result_simps)
qed

lemma member_executable [simp]: "executable_mode (tm_mode (member_of p)) = sf_executable (snd p)"
  by (simp add: member_of_def executable_mode_def)

lemma read_members:
  assumes "fold_result (read_member policy) st (map member_of fs) = Inr st'"
    and "list_all canonical_path (keys fs)" "distinct (keys fs)" "set (keys fs) \<inter> set (keys (rs_files st)) = {}"
  shows "rs_files st' = rs_files st @ fs"
  using assms
proof (induction fs arbitrary: st)
  case (Cons p fs)
  from Cons.prems(1) obtain s1 where s1: "read_member policy st (member_of p) = Inr s1"
    "fold_result (read_member policy) s1 (map member_of fs) = Inr st'"
    by (auto simp: result_simps)
  obtain n d x where p: "p = (n, \<lparr>sf_data = d, sf_executable = x\<rparr>)" by (metis prod.collapse source_file.cases)
  have "safe_path n = Inr n" using Cons.prems(2) by (simp add: canonical_path_def p)
  then have "rs_files s1 = dict_put (fst p) (snd p) (rs_files st)"
    using s1(1) by (auto simp: p read_member_def member_of_def Let_def result_simps executable_mode_def)
  moreover have "fst p \<notin> set (keys (rs_files st))" using Cons.prems(4) by auto
  ultimately have "rs_files s1 = rs_files st @ [p]" by (simp add: put_new)
  with Cons.IH [OF s1(2)] Cons.prems show ?case by auto
qed simp

lemma member_plain: "canonical_path (fst p) \<Longrightarrow> plain_member (member_of p)"
  by (simp add: plain_member_def member_of_def)

lemma read_written:
  assumes "tar_faithful tar" "to_tar tar files = Inr text" "distinct (keys files)"
    and "read_archive tar policy text = Inr merged"
  shows "merged = sort_key fst files"
proof -
  let ?fs = "sort_key fst files"
  have canonical: "list_all canonical_path (keys ?fs)" and written: "text = tar_write tar (map member_of ?fs)"
    using assms(2) by (simp_all add: to_tar_Inr list_all_iff)
  then have "list_all plain_member (map member_of ?fs)" by (auto simp: list_all_iff intro: member_plain)
  with assms(1) have read: "tar_read tar text = (map member_of ?fs, True)" by (simp add: tar_faithful_def written)
  have "distinct (keys ?fs)" using assms(3) by (simp add: distinct_map)
  with assms(4) canonical show ?thesis
    by (auto simp: read_archive_def read result_simps dest!: read_members)
qed


section \<open>What a delta does\<close>

definition change_allowed :: "allowed_changes \<Rightarrow> string \<Rightarrow> bool" where
  "change_allowed rules path \<longleftrightarrow> canonical_path path \<and> \<not> in_pytest_cache path
     \<and> list_ex (\<lambda>r. under r path) (ac_source_roots rules)
     \<and> \<not> list_ex (\<lambda>r. under r path) (ac_forbidden_paths rules)"

lemma change_path_Inr: "change_path rules path = Inr () \<longleftrightarrow> change_allowed rules path"
  by (auto simp: change_path_def change_allowed_def canonical_path_def result_simps)

lemma delete_path_Inr: "delete_path rules baseline changes files d = Inr r \<longleftrightarrow>
    change_allowed rules d \<and> has_key baseline d \<and> \<not> has_key changes d \<and> r = dict_del d files"
  by (auto simp: delete_path_def result_simps change_path_Inr)

lemma change_file_Inr: "change_file rules files c = Inr r \<longleftrightarrow>
    change_allowed rules (fst c) \<and> r = dict_put (fst c) (snd c) files"
  by (auto simp: change_file_def result_simps change_path_Inr)

lemma read_archive_distinct:
  assumes "read_archive tar policy data = Inr files"
  shows "distinct (keys files)"
proof -
  from assms obtain st where st: "fold_result (read_member policy)
      \<lparr>rs_count = 0, rs_seen = {}, rs_total = 0, rs_files = []\<rparr> (fst (tar_read tar data)) = Inr st"
    "files = rs_files st"
    by (auto simp: read_archive_def result_simps)
  show ?thesis unfolding st(2)
    by (rule fold_result_invariant [OF st(1), where P = "\<lambda>s. distinct (keys (rs_files s))"])
      (auto simp: read_member_def Let_def result_simps split: if_splits)
qed

lemma read_archive_size: "read_archive tar policy data = Inr files \<Longrightarrow> int (length data) \<le> sp_max_archive_bytes policy"
  by (simp add: read_archive_def raise_if_eq_Inr)

lemma delete_loop:
  assumes "fold_result (delete_path rules baseline changes) files ds = Inr r" "distinct (keys files)"
  shows "map_of r = map_of files |` (- set ds) \<and> distinct (keys r) \<and> set ds \<subseteq> Collect (change_allowed rules)"
  using assms
proof (induction ds arbitrary: files)
  case (Cons d ds)
  from Cons.prems(1) have d: "change_allowed rules d"
    and rest: "fold_result (delete_path rules baseline changes) (dict_del d files) ds = Inr r"
    by (auto simp: result_simps delete_path_Inr)
  have "distinct (keys (dict_del d files))" using Cons.prems(2) by (rule distinct_delete)
  from Cons.IH [OF rest this] d show ?case
    by (auto simp: delete_conv' restrict_map_def fun_eq_iff)
qed (simp add: restrict_map_def)

lemma change_loop:
  assumes "fold_result (change_file rules) files changes = Inr r" "distinct (keys files)" "distinct (keys changes)"
  shows "map_of r = map_of files ++ map_of changes \<and> distinct (keys r)
    \<and> set (keys changes) \<subseteq> Collect (change_allowed rules)"
  using assms
proof (induction changes arbitrary: files)
  case (Cons c cs)
  obtain n e where c: "c = (n, e)" by (cases c)
  from Cons.prems(1) have n: "change_allowed rules n"
    and rest: "fold_result (change_file rules) (dict_put n e files) cs = Inr r"
    by (auto simp: c result_simps change_file_Inr)
  have d: "distinct (keys (dict_put n e files))" using Cons.prems(2) by (rule distinct_keys_put)
  have cs: "distinct (keys cs)" "n \<notin> set (keys cs)" using Cons.prems(3) by (simp_all add: c)
  have "map_of cs n = None" using cs(2) by (simp add: map_of_eq_None_iff)
  with Cons.IH [OF rest d cs(1)] n show ?case
    by (auto simp: c map_add_def fun_eq_iff dict_simps split: option.split)
qed simp

lemma pytest_filter_distinct: "distinct (keys files) \<Longrightarrow> distinct (keys (without_pytest_cache files baseline))"
  by (simp add: without_pytest_cache_def distinct_map_filter)

definition delta_result :: "source_archive \<Rightarrow> source_archive \<Rightarrow> string list \<Rightarrow> string \<rightharpoonup> source_file" where
  "delta_result base changes deletions = (map_of base |` (- set deletions)) ++ map_of changes"

lemma apply_delta_Inr:
  assumes "tar_faithful tar" "distinct (keys base)" "apply_delta tar policy base archive deletions rules = Inr merged"
  obtains raw where "read_archive tar policy archive = Inr raw"
    "map_of merged = delta_result base (without_pytest_cache raw base) deletions"
    "set deletions \<union> set (keys (without_pytest_cache raw base)) \<subseteq> Collect (change_allowed rules)"
    "list_all canonical_path (keys merged)" "distinct (keys merged)"
proof -
  from assms(3) obtain raw remaining result written where raw: "read_archive tar policy archive = Inr raw"
    and del: "fold_result (delete_path rules base (without_pytest_cache raw base)) base deletions = Inr remaining"
    and put: "fold_result (change_file rules) remaining (without_pytest_cache raw base) = Inr result"
    and written: "to_tar tar result = Inr written" "read_archive tar policy written = Inr merged"
    by (auto simp: apply_delta_def Let_def result_simps validate_rules_def)
  note del = delete_loop [OF del assms(2)]
  have changes: "distinct (keys (without_pytest_cache raw base))"
    by (intro pytest_filter_distinct read_archive_distinct [OF raw])
  note put = change_loop [OF put _ changes]
  have result: "distinct (keys result)" using put del by blast
  have merged: "merged = sort_key fst result" by (rule read_written [OF assms(1) written(1) result written(2)])
  have "map_of merged = map_of result" unfolding merged by (rule map_of_sort_key) (use result in simp)
  moreover have "list_all canonical_path (keys merged)" using written(1) by (simp add: merged to_tar_Inr list_all_iff)
  ultimately show thesis
    using that [OF raw] put del result by (auto simp: merged delta_result_def distinct_map)
qed

lemma delta_untouched:
  assumes "delta_result base changes deletions k \<noteq> map_of base k"
  shows "k \<in> set deletions \<union> set (keys changes)"
  using assms by (auto simp: delta_result_def map_add_def restrict_map_def split: option.splits dest: map_of_in_keys)

end
