(* ===== verification/Verifiers.thy ===== *)
theory Verifiers
  imports Sources
begin

text \<open>
  \<^verbatim>\<open>verifiers/models.py\<close>, \<^verbatim>\<open>verifiers/loader.py\<close> and \<^verbatim>\<open>verifiers/inputs.py\<close>: frozen commands with their
  expected observations, loading and cross-checking a task's verifier from the store, the evidence
  that the reference passes and the baseline fails, and the comparison of an observed run. The
  validation of JSON texts into the local records is pydantic's and a parameter.
\<close>

section \<open>Records\<close>

definition name_ok :: "string \<Rightarrow> bool" where
  "name_ok s \<longleftrightarrow> is_identifier s \<and> length s \<le> 128"

definition names_ok :: "string list \<Rightarrow> bool" where
  "names_ok xs \<longleftrightarrow> xs \<noteq> [] \<and> length xs \<le> 128 \<and> list_all name_ok xs"

definition MAX_OUTPUT_BYTES :: int where
  "MAX_OUTPUT_BYTES = 262144"

datatype input_mode = Mode_tests | Mode_output

record behavioral_input =
  bi_mode :: input_mode
  bi_command :: command_spec
  bi_stdin :: artifact_ref
  bi_origin :: artifact_ref

definition test_command_checks :: "behavioral_input \<Rightarrow> checks" where
  "test_command_checks i =
     [(bi_mode i = Mode_tests
         \<and> (take 4 (cmd_argv (bi_command i)) \<noteq> [''/usr/local/bin/python'', ''-m'', ''pytest'', ''-q'']
            \<or> cmd_working_directory (bi_command i) \<noteq> ''/workspace/checks''
            \<or> ref_kind (bi_stdin i) \<noteq> ''repository-tests''),
       ''direct tests require the frozen pytest command and repository files'')]"

definition valid_input :: "behavioral_input \<Rightarrow> bool" where
  "valid_input i \<longleftrightarrow> valid_command (bi_command i) \<and> valid_ref (bi_stdin i) \<and> valid_ref (bi_origin i)
     \<and> passes (test_command_checks i)"

record process_observation =
  po_exit_code :: int
  po_stdout_hex :: string
  po_stderr_hex :: string

record realized_case =
  rz_case_id :: string
  rz_requirement_ids :: "string list"
  rz_input_plan :: artifact_ref
  rz_expected :: artifact_ref
  rz_mandatory :: bool

definition valid_realized :: "realized_case \<Rightarrow> bool" where
  "valid_realized c \<longleftrightarrow> name_ok (rz_case_id c) \<and> names_ok (rz_requirement_ids c)
     \<and> valid_ref (rz_input_plan c) \<and> valid_ref (rz_expected c)"

record case_manifest =
  cm_task :: artifact_ref
  cm_verifier :: artifact_ref
  cm_case_seed :: int
  cm_cases :: "realized_case list"

definition valid_case_manifest :: "case_manifest \<Rightarrow> bool" where
  "valid_case_manifest m \<longleftrightarrow> valid_ref (cm_task m) \<and> valid_ref (cm_verifier m)
     \<and> 0 \<le> cm_case_seed m \<and> cm_case_seed m < 2^63 \<and> list_all valid_realized (cm_cases m)"

record captured_run =
  cap_source :: artifact_ref
  cap_build :: artifact_ref
  cap_executions :: "artifact_ref list"
  cap_outputs :: "artifact_ref list"
  cap_cleanup_verified :: bool

record reference_validation =
  rv_source_pair :: artifact_ref
  rv_environment :: artifact_ref
  rv_inputs :: "artifact_ref list"
  rv_expected :: "artifact_ref list"
  rv_baseline :: captured_run
  rv_reference :: captured_run
  rv_repeated_reference :: captured_run
  rv_baseline_matches :: "bool list"
  rv_costs :: "cost_record list"

definition valid_captured :: "captured_run \<Rightarrow> bool" where
  "valid_captured r \<longleftrightarrow> list_all valid_ref ([cap_source r, cap_build r] @ cap_executions r @ cap_outputs r)
     \<and> cap_cleanup_verified r"

definition valid_reference_validation :: "reference_validation \<Rightarrow> bool" where
  "valid_reference_validation v \<longleftrightarrow> list_all valid_ref ([rv_source_pair v, rv_environment v] @ rv_inputs v @ rv_expected v)
     \<and> list_all valid_captured [rv_baseline v, rv_reference v, rv_repeated_reference v] \<and> valid_costs (rv_costs v)"

section \<open>Reading local records\<close>

text \<open>
  The exceptions the grading service tells apart, by the handler that takes them: a dependency that
  cannot be resolved, a rejected source, an evidence publication with the result of retrying it, an
  artifact, operating system or environment failure with its type name, and a value error.
\<close>

datatype grade_exception =
    DependencyUnavailable string
  | SourceRejection string
  | EvidencePublicationFailed string "artifact_ref option"
  | EnvironmentFailure string string
  | GradeValueError string

record verifier_client =
  vc_submissions :: submission_client
  vc_input :: "string \<Rightarrow> behavioral_input option"
  vc_observation :: "string \<Rightarrow> process_observation option"
  vc_validation :: "string \<Rightarrow> reference_validation option"

fun role_value :: "actor_role \<Rightarrow> string" where
  "role_value R_SOLVER = ''solver''"
| "role_value R_AUTHOR = ''author''"
| "role_value R_CONTROLLER = ''controller''"
| "role_value R_TRAINER = ''trainer''"
| "role_value R_EVALUATOR = ''evaluator''"
| "role_value R_REVIEWER = ''reviewer''"

fun artifact_exception :: "artifact_error \<Rightarrow> grade_exception" where
  "artifact_exception (LimitValueError m) = GradeValueError m"
| "artifact_exception (AccessDenied role vis write) = EnvironmentFailure ''AccessDenied''
     (role_value role @ (if write then '' cannot write '' else '' cannot read '') @ visibility_value vis)"
| "artifact_exception (ArtifactIntegrityError m) = EnvironmentFailure ''ArtifactIntegrityError'' m"
| "artifact_exception (ArtifactNotFound m) = EnvironmentFailure ''ArtifactNotFound'' m"
| "artifact_exception (ArtifactSizeLimitError m a b) = EnvironmentFailure ''ArtifactSizeLimitError'' m"

definition from_objects :: "artifact_error + 'a \<Rightarrow> grade_exception + 'a" where
  "from_objects m = (case m of Inl e \<Rightarrow> Inl (artifact_exception e) | Inr x \<Rightarrow> Inr x)"

definition private_visibility :: "artifact_ref \<Rightarrow> bool" where
  "private_visibility r \<longleftrightarrow> ref_visibility r \<in> {V_PRIVATE, V_EVALUATION}"

definition read_capped ::
  "verifier_client \<Rightarrow> objects \<Rightarrow> artifact_ref \<Rightarrow> int \<Rightarrow> string option \<Rightarrow> bool \<Rightarrow> grade_exception + string" where
  "read_capped vc objs ref cap kind private =
     (let uc = vc_submissions vc in
      raise_if (\<not> valid_ref ref) (GradeValueError ''invalid artifact reference'')
     (raise_if (\<not> option_all (\<lambda>k. ref_kind ref = k) kind) (GradeValueError ''unexpected byte artifact kind'')
     (raise_if (private \<and> \<not> private_visibility ref) (GradeValueError ''private artifact required'')
     (from_objects (get_bytes (uc_runtime uc) (uc_codec uc) (uc_role uc) objs ref (Some (envelope_cap cap)) (Some cap))))))"

definition read_local ::
  "verifier_client \<Rightarrow> objects \<Rightarrow> artifact_ref \<Rightarrow> (string \<Rightarrow> 'a option) \<Rightarrow> ('a \<Rightarrow> bool) \<Rightarrow> string \<Rightarrow> int
     \<Rightarrow> grade_exception + 'a" where
  "read_local vc objs ref parse valid kind cap =
     (let uc = vc_submissions vc in
      bind_result (read_capped vc objs ref cap (Some kind) True) (\<lambda>data.
      case decode_json (uc_codec uc) data cap of
        Inl e \<Rightarrow> Inl (GradeValueError e)
      | Inr v \<Rightarrow>
          (case parse (canonical_json (uc_runtime uc) v) of
             None \<Rightarrow> Inl (GradeValueError ''validation failed'')
           | Some x \<Rightarrow> raise_if (\<not> valid x) (GradeValueError ''validation failed'') (Inr x))))"

definition OUTPUT_RECORD_CAP :: int where
  "OUTPUT_RECORD_CAP = MAX_OUTPUT_BYTES * 2 + 4096"

definition read_observation :: "verifier_client \<Rightarrow> objects \<Rightarrow> artifact_ref \<Rightarrow> grade_exception + process_observation" where
  "read_observation vc objs ref =
     read_local vc objs ref (vc_observation vc) (\<lambda>_. True) ''reference-output'' OUTPUT_RECORD_CAP"

definition read_input :: "verifier_client \<Rightarrow> objects \<Rightarrow> artifact_ref \<Rightarrow> grade_exception + behavioral_input" where
  "read_input vc objs ref = read_local vc objs ref (vc_input vc) valid_input ''behavioral-input'' 262144"

definition typed_artifact ::
  "verifier_client \<Rightarrow> objects \<Rightarrow> artifact_ref \<Rightarrow> (artifact \<Rightarrow> 'a option) \<Rightarrow> grade_exception + 'a" where
  "typed_artifact vc objs ref cast =
     (let uc = vc_submissions vc in
      bind_result (from_objects (get_artifact (uc_runtime uc) (uc_codec uc) (uc_role uc) objs ref (Some 1048576)))
        (\<lambda>a. case cast a of None \<Rightarrow> Inl (GradeValueError ''wrong artifact type'') | Some x \<Rightarrow> Inr x))"

definition as_task :: "artifact \<Rightarrow> task_bundle option" where
  "as_task a = (case a of Task x \<Rightarrow> Some x | _ \<Rightarrow> None)"

definition as_verifier :: "artifact \<Rightarrow> verifier_bundle option" where
  "as_verifier a = (case a of Verifier x \<Rightarrow> Some x | _ \<Rightarrow> None)"

definition as_contract :: "artifact \<Rightarrow> requirement_contract option" where
  "as_contract a = (case a of Contract x \<Rightarrow> Some x | _ \<Rightarrow> None)"

definition as_environment :: "artifact \<Rightarrow> environment_recipe option" where
  "as_environment a = (case a of Environment x \<Rightarrow> Some x | _ \<Rightarrow> None)"

section \<open>Loading a verifier\<close>

record loaded_verifier =
  lv_task_ref :: artifact_ref
  lv_task :: task_bundle
  lv_contract :: requirement_contract
  lv_verifier :: verifier_bundle
  lv_recipe :: environment_recipe
  lv_inputs :: "behavioral_input list"
  lv_expected :: "process_observation list"

text \<open>The limits of the recipe that exceed the contract's, by name.\<close>

definition exceeds :: "resource_limits \<Rightarrow> resource_limits \<Rightarrow> bool" where
  "exceeds recipe contract \<longleftrightarrow> rl_wall_seconds recipe > rl_wall_seconds contract
     \<or> rl_cpu_seconds recipe > rl_cpu_seconds contract \<or> rl_memory_bytes recipe > rl_memory_bytes contract
     \<or> rl_pids recipe > rl_pids contract \<or> rl_disk_bytes recipe > rl_disk_bytes contract
     \<or> rl_output_bytes recipe > rl_output_bytes contract"

definition load_case ::
  "verifier_client \<Rightarrow> objects \<Rightarrow> requirement_contract \<Rightarrow> environment_recipe \<Rightarrow> case_definition
     \<Rightarrow> grade_exception + behavioral_input \<times> process_observation" where
  "load_case vc objs contract recipe c =
     raise_if (\<not> cd_mandatory c \<or> \<not> set (cd_requirement_ids c) \<subseteq> set (contract_ids contract))
       (GradeValueError ''unknown or optional behavioral case'')
    (bind_result (read_input vc objs (cd_inputs c)) (\<lambda>inp.
     raise_if (cmd_timeout_seconds (bi_command inp)
         > min (rl_wall_seconds (env_limits recipe)) (rl_wall_seconds (rc_episode_limits contract)))
       (GradeValueError ''command timeout exceeds runtime/episode limit'')
    (bind_result (read_observation vc objs (cd_expected c)) (\<lambda>expected.
     raise_if (bi_mode inp = Mode_tests \<and> po_exit_code expected \<noteq> 0) (GradeValueError ''H must pass repository tests'')
     (Inr (inp, expected))))))"

definition rules_exception :: "source_error \<Rightarrow> grade_exception" where
  "rules_exception e = (case e of
      SourceRejected m \<Rightarrow> GradeValueError m
    | SourceStoreError a \<Rightarrow> artifact_exception a
    | SourceValueError m \<Rightarrow> GradeValueError m)"

definition validate_verifier_bundle ::
  "verifier_client \<Rightarrow> objects \<Rightarrow> verifier_bundle \<Rightarrow> artifact_ref \<Rightarrow> artifact_ref \<Rightarrow> artifact_ref
     \<Rightarrow> grade_exception + requirement_contract \<times> environment_recipe \<times> behavioral_input list \<times> process_observation list" where
  "validate_verifier_bundle vc objs verifier contract_ref environment baseline =
     raise_if (\<not> valid_verifier_bundle verifier) (GradeValueError ''invalid verifier bundle'')
    (bind_result (typed_artifact vc objs contract_ref as_contract) (\<lambda>contract.
     bind_result (typed_artifact vc objs environment as_environment) (\<lambda>recipe.
     raise_if (vb_contract verifier \<noteq> contract_ref \<or> env_baseline recipe \<noteq> baseline)
       (GradeValueError ''contract/baseline/recipe mismatch'')
    (bind_result (case validate_rules (rc_allowed_changes contract) of
        Inl e \<Rightarrow> Inl (rules_exception e) | Inr r \<Rightarrow> Inr ()) (\<lambda>_.
     raise_if (exceeds (env_limits recipe) (rc_episode_limits contract))
       (GradeValueError ''runtime recipe exceeds contract'')
    (let permissions = vb_permissions verifier in
     raise_if (vp_controller_role permissions \<noteq> R_CONTROLLER
         \<or> vp_submission_policy permissions \<noteq> rc_allowed_changes contract)
       (GradeValueError ''verifier permission mismatch'')
    (raise_if (\<not> (1 \<le> length (vb_cases verifier) \<and> length (vb_cases verifier) \<le> 64)) (GradeValueError ''case count limit'')
    (raise_if (vp_output_limit_bytes permissions > min (min (rl_output_bytes (env_limits recipe))
         (rl_output_bytes (rc_episode_limits contract))) MAX_OUTPUT_BYTES) (GradeValueError ''output budget mismatch'')
    (bind_result (map_result (load_case vc objs contract recipe) (vb_cases verifier)) (\<lambda>rows.
     Inr (contract, recipe, map fst rows, map snd rows)))))))))))"

definition load_verifier :: "verifier_client \<Rightarrow> objects \<Rightarrow> artifact_ref \<Rightarrow> grade_exception + loaded_verifier" where
  "load_verifier vc objs task_ref =
     bind_result (typed_artifact vc objs task_ref as_task) (\<lambda>task.
     bind_result (typed_artifact vc objs (tb_private_oracle task) as_verifier) (\<lambda>verifier.
     raise_if (tb_adapter_version task \<noteq> ''behavioral-command-v1'' \<or> tb_source_pair task \<noteq> vb_source_pair verifier)
       (GradeValueError ''task/verifier binding mismatch'')
    (bind_result (validate_verifier_bundle vc objs verifier (tb_contract task) (tb_environment task) (tb_baseline task))
       (\<lambda>(contract, recipe, inputs, expected).
        Inr \<lparr>lv_task_ref = task_ref, lv_task = task, lv_contract = contract, lv_verifier = verifier,
             lv_recipe = recipe, lv_inputs = inputs, lv_expected = expected\<rparr>))))"

definition materialize_manifest :: "loaded_verifier \<Rightarrow> int \<Rightarrow> grade_exception + case_manifest" where
  "materialize_manifest lv seed =
     (let m = \<lparr>cm_task = lv_task_ref lv, cm_verifier = tb_private_oracle (lv_task lv), cm_case_seed = seed,
              cm_cases = map (\<lambda>c. \<lparr>rz_case_id = cd_case_id c, rz_requirement_ids = cd_requirement_ids c,
                rz_input_plan = cd_inputs c, rz_expected = cd_expected c, rz_mandatory = True\<rparr>)
                (vb_cases (lv_verifier lv))\<rparr>
      in raise_if (\<not> valid_case_manifest m) (GradeValueError ''invalid case manifest'') (Inr m))"

section \<open>Running and comparing\<close>

definition shell_safe :: "char \<Rightarrow> bool" where
  "shell_safe c \<longleftrightarrow> is_alnum c \<or> c \<in> set ''_@%+=:,./-''"

text \<open>\<open>shlex.quote\<close> and \<open>shlex.join\<close>\<close>

definition shell_quote :: "string \<Rightarrow> string" where
  "shell_quote s =
     (if s = [] then [CHR 0x27, CHR 0x27]
      else if list_all shell_safe s then s
      else CHR 0x27 # concat (map (\<lambda>c. if c = CHR 0x27 then [CHR 0x27, CHR 0x22, CHR 0x27, CHR 0x22, CHR 0x27] else [c]) s)
           @ [CHR 0x27])"

definition shell_join :: "string list \<Rightarrow> string" where
  "shell_join args = join_text '' '' (map shell_quote args)"

record execution_request =
  xq_command :: command_spec
  xq_stdin :: string
  xq_save_source :: bool

definition staged_command :: "behavioral_input \<Rightarrow> command_spec" where
  "staged_command inp =
     \<lparr>cmd_argv = [''/bin/sh'', ''-c'',
        ''mkdir /workspace/checks && tar -xf - -C /workspace/checks && cd /workspace/checks && ''
        @ shell_join [''/usr/local/bin/python'', ''-c'', ''import pytest''] @ '' || exit 125; exec ''
        @ shell_join (cmd_argv (bi_command inp))],
      cmd_working_directory = ''/workspace'', cmd_timeout_seconds = cmd_timeout_seconds (bi_command inp)\<rparr>"

definition source_exception :: "source_error \<Rightarrow> grade_exception" where
  "source_exception e = (case e of
      SourceRejected m \<Rightarrow> SourceRejection m
    | SourceStoreError a \<Rightarrow> artifact_exception a
    | SourceValueError m \<Rightarrow> GradeValueError m)"

definition execution_request ::
  "verifier_client \<Rightarrow> objects \<Rightarrow> sandbox_policy \<Rightarrow> behavioral_input \<Rightarrow> grade_exception + execution_request" where
  "execution_request vc objs policy inp =
     bind_result (read_capped vc objs (bi_stdin inp) (sp_stdin_bytes policy) None True) (\<lambda>data.
     case bi_mode inp of
       Mode_output \<Rightarrow> Inr \<lparr>xq_command = bi_command inp, xq_stdin = data, xq_save_source = False\<rparr>
     | Mode_tests \<Rightarrow>
         (case read_archive (uc_tar (vc_submissions vc)) policy data of
            Inl e \<Rightarrow> Inl (source_exception e)
          | Inr _ \<Rightarrow> Inr \<lparr>xq_command = staged_command inp, xq_stdin = data, xq_save_source = False\<rparr>))"

datatype execution_reason = Completed | Command_failed | Timed_out | Output_limit | Cpu_limit | Memory_limit
  | Source_rejected_run | Source_unavailable | Setup_failed | Infrastructure_failed

fun execution_reason_value :: "execution_reason \<Rightarrow> string" where
  "execution_reason_value Completed = ''completed''"
| "execution_reason_value Command_failed = ''command_failed''"
| "execution_reason_value Timed_out = ''timeout''"
| "execution_reason_value Output_limit = ''output_limit''"
| "execution_reason_value Cpu_limit = ''cpu_limit''"
| "execution_reason_value Memory_limit = ''memory_limit''"
| "execution_reason_value Source_rejected_run = ''source_rejected''"
| "execution_reason_value Source_unavailable = ''source_unavailable''"
| "execution_reason_value Setup_failed = ''setup_failed''"
| "execution_reason_value Infrastructure_failed = ''infrastructure_failure''"

datatype failure_category = No_failure | Candidate_failure | Infrastructure_failure | Unresolved_failure

record execution_result =
  xr_reason :: execution_reason
  xr_failure_category :: failure_category
  xr_exit_code :: "int option"
  xr_stdout :: string
  xr_stderr :: string
  xr_cleanup_verified :: bool
  xr_evidence :: artifact_ref
  xr_cost :: cost_record

definition hex_bytes :: "string \<Rightarrow> string" where
  "hex_bytes s = concat (map (\<lambda>c. [hex_digit (of_char c div 16), hex_digit (of_char c mod 16)]) s)"

definition observe :: "execution_result \<Rightarrow> int \<Rightarrow> string + process_observation" where
  "observe output cap =
     raise_if (\<not> xr_cleanup_verified output
         \<or> xr_failure_category output \<in> {Infrastructure_failure, Unresolved_failure}
         \<or> xr_reason output \<notin> {Completed, Command_failed} \<or> xr_exit_code output = None)
       (''command did not complete cleanly: '' @ execution_reason_value (xr_reason output))
    (raise_if (int (length (xr_stdout output)) + int (length (xr_stderr output)) > cap)
       ''command output exceeds bound''
    (Inr \<lparr>po_exit_code = the (xr_exit_code output), po_stdout_hex = hex_bytes (xr_stdout output),
          po_stderr_hex = hex_bytes (xr_stderr output)\<rparr>))"

definition matches :: "behavioral_input \<Rightarrow> process_observation \<Rightarrow> process_observation \<Rightarrow> bool" where
  "matches inp actual expected =
     (if bi_mode inp = Mode_tests then po_exit_code actual = po_exit_code expected \<and> po_exit_code expected = 0
      else actual = expected)"

section \<open>The construction evidence\<close>

definition compare_case ::
  "verifier_client \<Rightarrow> objects \<Rightarrow> case_definition \<times> artifact_ref \<times> artifact_ref \<Rightarrow> grade_exception + bool" where
  "compare_case vc objs row = (let (c, actual, repeated) = row in
     bind_result (read_input vc objs (cd_inputs c)) (\<lambda>inp.
     bind_result (read_observation vc objs (cd_expected c)) (\<lambda>expected.
     bind_result (read_observation vc objs repeated) (\<lambda>again.
     raise_if (\<not> matches inp again expected) (GradeValueError ''H result changed on repeat'')
    (bind_result (read_observation vc objs actual) (\<lambda>seen. Inr (matches inp seen expected)))))))"

definition validate_reference ::
  "verifier_client \<Rightarrow> objects \<Rightarrow> verifier_bundle \<Rightarrow> artifact_ref \<Rightarrow> artifact_ref \<Rightarrow> artifact_ref
     \<Rightarrow> grade_exception + reference_validation" where
  "validate_reference vc objs verifier environment baseline reference =
     bind_result (read_local vc objs (vb_validation verifier) (vc_validation vc) valid_reference_validation
       ''reference-validation'' 1048576) (\<lambda>evid.
     raise_if (rv_source_pair evid \<noteq> vb_source_pair verifier \<or> rv_environment evid \<noteq> environment
         \<or> rv_inputs evid \<noteq> map cd_inputs (vb_cases verifier) \<or> rv_expected evid \<noteq> map cd_expected (vb_cases verifier)
         \<or> cap_source (rv_baseline evid) \<noteq> baseline \<or> cap_source (rv_reference evid) \<noteq> reference
         \<or> cap_source (rv_repeated_reference evid) \<noteq> reference)
       (GradeValueError ''construction evidence binding mismatch'')
    (raise_if (list_ex (\<lambda>run. length (cap_outputs run) \<noteq> length (vb_cases verifier)
           \<or> length (cap_executions run) \<noteq> length (vb_cases verifier))
         [rv_baseline evid, rv_reference evid, rv_repeated_reference evid])
       (GradeValueError ''incomplete construction run'')
    (raise_if (cap_outputs (rv_reference evid) \<noteq> rv_expected evid)
       (GradeValueError ''expected outputs differ from captured H'')
    (bind_result (map_result (compare_case vc objs)
        (zip (vb_cases verifier) (zip (cap_outputs (rv_baseline evid)) (cap_outputs (rv_repeated_reference evid)))))
       (\<lambda>baseline_matches.
        raise_if (baseline_matches \<noteq> rv_baseline_matches evid \<or> list_all id baseline_matches)
          (GradeValueError ''baseline must fail at least one feature input'') (Inr evid))))))"

end
