(* ===== verification/Grading.thy ===== *)
theory Grading
  imports Verifiers
begin

text \<open>
  \<^verbatim>\<open>grading/models.py\<close> and \<^verbatim>\<open>grading/service.py\<close>: grade receipts with their validators, and the grading of
  one submission: load the frozen verifier, resolve the source delta, build, run every case, compare,
  close the workspace and publish the receipt. The worker runtime is outside: what it answers to the
  build, to the execution of the i-th case and to closing, and the elapsed time read before each case,
  are the fields of \<open>grade_world\<close>. An exception is a value that keeps the state reached so far, since
  the handlers of the source read it.
\<close>

section \<open>Receipts\<close>

record assertion_result =
  asr_assertion_id :: string
  asr_requirement_ids :: "string list"
  asr_passed :: bool

datatype case_status = Case_completed | Case_protocol_failure | Case_candidate_failure | Case_not_run
  | Case_infrastructure_failure

record case_result =
  cr_case_id :: string
  cr_mandatory :: bool
  cr_status :: case_status
  cr_passed :: "bool option"
  cr_assertions :: "assertion_result list"
  cr_evidence :: "artifact_ref option"
  cr_reason :: string

definition short_reason :: "string \<Rightarrow> bool" where
  "short_reason s \<longleftrightarrow> 1 \<le> code_points s \<and> code_points s \<le> 1024"

definition valid_assertion :: "assertion_result \<Rightarrow> bool" where
  "valid_assertion a \<longleftrightarrow> name_ok (asr_assertion_id a) \<and> names_ok (asr_requirement_ids a)"

definition case_coherent_checks :: "case_result \<Rightarrow> checks" where
  "case_coherent_checks c =
     unique_checks (map asr_assertion_id (cr_assertions c)) ''assertion receipts''
   @ (if cr_status c = Case_completed
      then [(cr_assertions c = [] \<or> cr_evidence c = None
               \<or> cr_passed c \<noteq> Some (list_all asr_passed (cr_assertions c)), ''incomplete comparison receipt'')]
      else [(cr_assertions c \<noteq> [] \<or> cr_passed c \<noteq> None, ''uncompared case cannot claim assertions/pass'')])"

definition valid_case_result :: "case_result \<Rightarrow> bool" where
  "valid_case_result c \<longleftrightarrow> name_ok (cr_case_id c) \<and> list_all valid_assertion (cr_assertions c)
     \<and> option_all valid_ref (cr_evidence c) \<and> short_reason (cr_reason c) \<and> passes (case_coherent_checks c)"

record grade_receipt =
  gr_task :: artifact_ref
  gr_submission :: artifact_ref
  gr_verifier :: "artifact_ref option"
  gr_case_seed :: int
  gr_manifest :: "artifact_ref option"
  gr_source :: "artifact_ref option"
  gr_disposition :: disposition
  gr_reward :: "int option"
  gr_reason :: string
  gr_expected_case_ids :: "string list"
  gr_cases :: "case_result list"
  gr_build_evidence :: "artifact_ref option"
  gr_runtime_evidence :: "artifact_ref list"
  gr_cleanup_verified :: bool
  gr_implementation_revision :: string
  gr_recorded_at :: utc_datetime

definition receipt_coherent_checks :: "grade_receipt \<Rightarrow> checks" where
  "receipt_coherent_checks r =
     unique_checks (gr_expected_case_ids r) ''expected cases''
   @ [(map cr_case_id (gr_cases r) \<noteq> gr_expected_case_ids r, ''incomplete case ledger''),
      ((gr_disposition r \<in> {D_SUCCESS, D_REJECTED}) \<noteq> (gr_reward r \<noteq> None), ''unmeasured outcome requires null reward''),
      (gr_reward r \<noteq> None \<and> \<not> gr_cleanup_verified r, ''unverified cleanup cannot yield measured reward'')]
   @ (if gr_reward r \<noteq> Some 1 then []
      else [(gr_disposition r \<noteq> D_SUCCESS \<or> gr_cases r = [] \<or> gr_manifest r = None \<or> gr_source r = None
               \<or> gr_build_evidence r = None, ''passing grade requires complete execution identity''),
            (\<not> list_ex cr_mandatory (gr_cases r), ''no required cases''),
            (list_ex (\<lambda>c. cr_status c \<noteq> Case_completed \<or> (cr_mandatory c \<and> cr_passed c \<noteq> Some True)) (gr_cases r),
             ''incomplete or failing required cases'')])
   @ [(gr_disposition r = D_SUCCESS \<and> gr_reward r \<noteq> Some 1, ''successful grade must have reward one''),
      (gr_disposition r = D_REJECTED \<and> gr_reward r \<noteq> Some 0, ''rejected candidate must have reward zero'')]"

definition valid_grade_receipt :: "grade_receipt \<Rightarrow> bool" where
  "valid_grade_receipt r \<longleftrightarrow> valid_ref (gr_task r) \<and> valid_ref (gr_submission r) \<and> option_all valid_ref (gr_verifier r)
     \<and> 0 \<le> gr_case_seed r \<and> gr_case_seed r \<le> 2^63 - 1 \<and> option_all valid_ref (gr_manifest r)
     \<and> option_all valid_ref (gr_source r) \<and> option_all (\<lambda>n. 0 \<le> n \<and> n \<le> 1) (gr_reward r)
     \<and> short_reason (gr_reason r) \<and> list_all name_ok (gr_expected_case_ids r) \<and> list_all valid_case_result (gr_cases r)
     \<and> option_all valid_ref (gr_build_evidence r) \<and> list_all valid_ref (gr_runtime_evidence r)
     \<and> is_revision (gr_implementation_revision r) \<and> passes (receipt_coherent_checks r)"

section \<open>The world of one grading\<close>

datatype build_outcome =
    Build_succeeded artifact_ref cost_record
  | Build_failed artifact_ref failure_category bool string
  | Build_raised grade_exception

record grade_world =
  gw_client :: verifier_client
  gw_revision :: string
  gw_max_wall_seconds :: rat
  gw_select_task :: "loaded_verifier \<Rightarrow> grade_exception + sandbox_policy"
  gw_runtime_policy :: sandbox_policy
  gw_recipe :: "grade_exception + unit"
  gw_open_workspace :: "grade_exception + unit"
  gw_build :: build_outcome
  gw_execute :: "nat \<Rightarrow> execution_request \<Rightarrow> grade_exception + execution_result"
  gw_elapsed :: "nat \<Rightarrow> rat"
  gw_close :: "(string \<times> string) option"
  gw_failed_wall :: rat
  gw_failed_cpu :: "rat option"
  gw_controller_wall :: rat
  gw_controller_cpu :: rat
  gw_now :: utc_datetime
  gw_doc_manifest :: "case_manifest \<Rightarrow> json"
  gw_doc_receipt :: "grade_receipt \<Rightarrow> json"

record grade_state =
  gs_objects :: objects
  gs_verifier :: "artifact_ref option"
  gs_manifest :: "artifact_ref option"
  gs_source :: "artifact_ref option"
  gs_build_evidence :: "artifact_ref option"
  gs_runtime_evidence :: "artifact_ref list"
  gs_costs :: "cost_record list"
  gs_open :: bool
  gs_results :: "case_result list"
  gs_cleanup :: bool
  gs_disposition :: disposition
  gs_reward :: "int option"
  gs_reason :: string
  gs_failed :: "cost_category option"
  gs_pending :: bool

definition start_state :: "objects \<Rightarrow> grade_state" where
  "start_state objs = \<lparr>gs_objects = objs, gs_verifier = None, gs_manifest = None, gs_source = None,
     gs_build_evidence = None, gs_runtime_evidence = [], gs_costs = [], gs_open = False, gs_results = [],
     gs_cleanup = True, gs_disposition = D_INVALID, gs_reward = None, gs_reason = ''grading did not complete'',
     gs_failed = None, gs_pending = False\<rparr>"

text \<open>\<open>disposition, reward, reason = ...\<close>\<close>

definition verdict :: "disposition \<Rightarrow> int option \<Rightarrow> string \<Rightarrow> grade_state \<Rightarrow> grade_state" where
  "verdict d r m s = s\<lparr>gs_disposition := d, gs_reward := r, gs_reason := m\<rparr>"

text \<open>\<open>str(exc)[:n]\<close> keeps n code points.\<close>

fun clip :: "nat \<Rightarrow> string \<Rightarrow> string" where
  "clip n [] = []"
| "clip n (c # cs) =
     (if (of_char c :: int) < 128 \<or> 192 \<le> (of_char c :: int)
      then (case n of 0 \<Rightarrow> [] | Suc m \<Rightarrow> c # clip m cs)
      else c # clip n cs)"

definition store_bytes ::
  "verifier_client \<Rightarrow> objects \<Rightarrow> string \<Rightarrow> string \<Rightarrow> grade_exception + artifact_ref \<times> objects" where
  "store_bytes vc objs data kind =
     (let uc = vc_submissions vc in from_objects (put_bytes (uc_runtime uc) (uc_role uc) objs data kind V_PRIVATE))"

section \<open>Running the cases\<close>

definition case_record ::
  "realized_case \<Rightarrow> case_status \<Rightarrow> bool option \<Rightarrow> assertion_result list \<Rightarrow> artifact_ref option \<Rightarrow> string \<Rightarrow> case_result" where
  "case_record c status passed assertions evidence reason =
     \<lparr>cr_case_id = rz_case_id c, cr_mandatory = rz_mandatory c, cr_status = status, cr_passed = passed,
      cr_assertions = assertions, cr_evidence = evidence, cr_reason = reason\<rparr>"

text \<open>What one executed case does to the state, and whether the loop goes on.\<close>

definition settle_case ::
  "int \<Rightarrow> nat \<Rightarrow> realized_case \<Rightarrow> behavioral_input \<Rightarrow> process_observation \<Rightarrow> execution_result \<Rightarrow> grade_state
     \<Rightarrow> grade_state \<times> bool" where
  "settle_case cap i c inp expected output s0 =
     (let ev = xr_evidence output;
          put = (\<lambda>status passed assertions reason s.
            s\<lparr>gs_results := (gs_results s)[i := case_record c status passed assertions (Some ev) reason]\<rparr>);
          s = s0\<lparr>gs_runtime_evidence := gs_runtime_evidence s0 @ [ev], gs_costs := gs_costs s0 @ [xr_cost output],
                gs_cleanup := xr_cleanup_verified output\<rparr>
      in if \<not> xr_cleanup_verified output \<or> xr_failure_category output \<in> {Infrastructure_failure, Unresolved_failure}
         then let reason = ''worker '' @ execution_reason_value (xr_reason output) in
              (put Case_infrastructure_failure None [] reason
                (verdict (if xr_cleanup_verified output \<and> xr_failure_category output = Unresolved_failure
                          then D_INVALID else D_INFRASTRUCTURE) None reason s), False)
         else if xr_reason output \<notin> {Completed, Command_failed}
         then let reason = ''candidate '' @ execution_reason_value (xr_reason output) in
              (put Case_candidate_failure None [] reason (verdict D_REJECTED (Some 0) reason s), True)
         else case observe output cap of
                Inl m \<Rightarrow>
                  let reason = ''observation protocol violation: '' @ clip 800 m in
                  (put Case_protocol_failure None [] reason (verdict D_REJECTED (Some 0) reason s), True)
              | Inr observed \<Rightarrow>
                  let passed = matches inp observed expected;
                      assertion = \<lparr>asr_assertion_id = ''reference-match'', asr_requirement_ids = rz_requirement_ids c,
                        asr_passed = passed\<rparr>;
                      s1 = put Case_completed (Some passed) [assertion] ''compared externally'' s
                  in (if rz_mandatory c \<and> \<not> passed
                      then verdict D_REJECTED (Some 0) ''required comparison failed'' s1 else s1, True))"

fun run_cases ::
  "grade_world \<Rightarrow> int \<Rightarrow> (nat \<times> realized_case \<times> behavioral_input \<times> process_observation) list \<Rightarrow> grade_state
     \<Rightarrow> grade_state \<times> grade_exception option" where
  "run_cases w cap [] s = (s, None)"
| "run_cases w cap ((i, c, inp, expected) # rows) s =
     (if gw_elapsed w i \<ge> gw_max_wall_seconds w
      then (verdict D_REJECTED (Some 0) ''declared total grading wall budget exceeded'' s, None)
      else case bind_result (execution_request (gw_client w) (gs_objects s) (gw_runtime_policy w) inp) (gw_execute w i) of
             Inl e \<Rightarrow> (s\<lparr>gs_failed := Some C_execution\<rparr>, Some e)
           | Inr output \<Rightarrow>
               (case settle_case cap i c inp expected output s of
                  (s', goes_on) \<Rightarrow> if goes_on then run_cases w cap rows s' else (s', None)))"

section \<open>Grading\<close>

definition grade_build ::
  "grade_world \<Rightarrow> loaded_verifier \<Rightarrow> realized_case list \<Rightarrow> grade_state \<Rightarrow> grade_state \<times> grade_exception option" where
  "grade_build w checked cases s =
     (case gw_build w of
        Build_raised e \<Rightarrow> (s\<lparr>gs_failed := Some C_construction\<rparr>, Some e)
      | Build_failed ev category cleanup reason \<Rightarrow>
          let d = (if category = Unresolved_failure \<and> cleanup then D_INVALID
                   else if category = Candidate_failure \<and> cleanup then D_REJECTED else D_INFRASTRUCTURE)
          in (verdict d (if d = D_REJECTED then Some 0 else None) (''build '' @ reason)
                (s\<lparr>gs_failed := Some C_construction, gs_build_evidence := Some ev,
                   gs_runtime_evidence := gs_runtime_evidence s @ [ev], gs_cleanup := cleanup\<rparr>), None)
      | Build_succeeded ev cost \<Rightarrow>
          run_cases w (vp_output_limit_bytes (vb_permissions (lv_verifier checked)))
            (zip [0..<length cases] (zip cases (zip (lv_inputs checked) (lv_expected checked))))
            (verdict D_SUCCESS (Some 1) ''all repository observations match frozen H outputs''
              (s\<lparr>gs_build_evidence := Some ev, gs_runtime_evidence := gs_runtime_evidence s @ [ev],
                 gs_costs := gs_costs s @ [cost]\<rparr>)))"

definition grade_source ::
  "grade_world \<Rightarrow> loaded_verifier \<Rightarrow> realized_case list \<Rightarrow> source_archive \<Rightarrow> grade_state
     \<Rightarrow> grade_state \<times> grade_exception option" where
  "grade_source w checked cases files s =
     (case bind_result (case to_tar (uc_tar (vc_submissions (gw_client w))) files of
              Inl e \<Rightarrow> Inl (source_exception e) | Inr text \<Rightarrow> Inr text)
            (\<lambda>text. store_bytes (gw_client w) (gs_objects s) text ''source-archive'') of
        Inl e \<Rightarrow> (s, Some e)
      | Inr (ref, objs) \<Rightarrow>
          let s1 = s\<lparr>gs_source := Some ref, gs_objects := objs\<rparr> in
          (case bind_result (gw_recipe w) (\<lambda>_. gw_open_workspace w) of
             Inl e \<Rightarrow> (s1, Some e)
           | Inr _ \<Rightarrow> grade_build w checked cases (s1\<lparr>gs_open := True\<rparr>)))"

definition rejects_submission :: "source_error \<Rightarrow> string option" where
  "rejects_submission e = (case e of
      SourceRejected m \<Rightarrow> Some m
    | SourceStoreError (ArtifactSizeLimitError m a b) \<Rightarrow> Some m
    | _ \<Rightarrow> None)"

definition grade_loaded ::
  "grade_world \<Rightarrow> artifact_ref \<Rightarrow> loaded_verifier \<Rightarrow> sandbox_policy \<Rightarrow> case_manifest \<Rightarrow> grade_state
     \<Rightarrow> grade_state \<times> grade_exception option" where
  "grade_loaded w submission checked policy manifest s0 =
     (let vc = gw_client w; uc = vc_submissions vc;
          s = s0\<lparr>gs_results := map (\<lambda>c. case_record c Case_not_run None [] None ''not executed'') (cm_cases manifest)\<rparr>
      in case store_bytes vc (gs_objects s) (canonical_json (uc_runtime uc) (gw_doc_manifest w manifest)) ''m4-case-manifest'' of
           Inl e \<Rightarrow> (s, Some e)
         | Inr (ref, objs) \<Rightarrow>
             let s1 = s\<lparr>gs_manifest := Some ref, gs_objects := objs\<rparr> in
             (case resolve (uc\<lparr>uc_policy := policy\<rparr>) objs submission (tb_baseline (lv_task checked))
                  (rc_allowed_changes (lv_contract checked)) of
                Inr files \<Rightarrow> grade_source w checked (cm_cases manifest) files s1
              | Inl e \<Rightarrow>
                  (case rejects_submission e of
                     Some m \<Rightarrow> (verdict D_REJECTED (Some 0) (''source submission rejected: '' @ clip 800 m) s1, None)
                   | None \<Rightarrow> (s1, Some (source_exception e)))))"

definition grade_body ::
  "grade_world \<Rightarrow> artifact_ref \<Rightarrow> artifact_ref \<Rightarrow> int \<Rightarrow> grade_state \<Rightarrow> grade_state \<times> grade_exception option" where
  "grade_body w task submission seed s =
     (case load_verifier (gw_client w) (gs_objects s) task of
        Inl e \<Rightarrow> (s, Some e)
      | Inr checked \<Rightarrow>
          (case gw_select_task w checked of
             Inl e \<Rightarrow> (s, Some e)
           | Inr policy \<Rightarrow>
               let s1 = s\<lparr>gs_verifier := Some (tb_private_oracle (lv_task checked))\<rparr> in
               (case materialize_manifest checked seed of
                  Inl e \<Rightarrow> (s1, Some e)
                | Inr manifest \<Rightarrow> grade_loaded w submission checked policy manifest s1)))"

fun handle_exception :: "grade_exception \<Rightarrow> grade_state \<Rightarrow> grade_state" where
  "handle_exception (DependencyUnavailable m) s =
     verdict D_INVALID None (''offline dependency resolution unavailable: '' @ clip 800 m) s"
| "handle_exception (SourceRejection m) s =
     verdict D_REJECTED (Some 0) (''candidate declarations rejected: '' @ clip 800 m) s"
| "handle_exception (EvidencePublicationFailed m retried) s =
     verdict D_INFRASTRUCTURE None (clip 900 m)
       (case retried of
          Some ref \<Rightarrow> s\<lparr>gs_runtime_evidence := gs_runtime_evidence s @ [ref]\<rparr>
        | None \<Rightarrow> s\<lparr>gs_pending := True\<rparr>)"
| "handle_exception (EnvironmentFailure t m) s = verdict D_INFRASTRUCTURE None (t @ '': '' @ clip 800 m) s"
| "handle_exception (GradeValueError m) s =
     verdict D_UNSUPPORTED None (''invalid or unsupported verifier: '' @ clip 800 m) s"

definition close_workspace :: "grade_world \<Rightarrow> grade_state \<Rightarrow> grade_state" where
  "close_workspace w s =
     (if \<not> gs_open s then s
      else case gw_close w of
             None \<Rightarrow> s
           | Some (t, m) \<Rightarrow> verdict D_INFRASTRUCTURE None (''workspace cleanup unverified: '' @ t @ '': '' @ clip 700 m)
               (s\<lparr>gs_cleanup := False\<rparr>))"

definition grade_run :: "grade_world \<Rightarrow> artifact_ref \<Rightarrow> artifact_ref \<Rightarrow> int \<Rightarrow> objects \<Rightarrow> grade_state" where
  "grade_run w task submission seed objs =
     (case grade_body w task submission seed (start_state objs) of
        (s, None) \<Rightarrow> close_workspace w s
      | (s, Some e) \<Rightarrow> close_workspace w (handle_exception e s))"

definition partial_cost :: "cost_category \<Rightarrow> rat option \<Rightarrow> rat option \<Rightarrow> string \<Rightarrow> cost_record" where
  "partial_cost category wall cpu note = \<lparr>cost_category = category, cost_wall_seconds = wall, cost_cpu_seconds = cpu,
     cost_gpu_seconds = None, cost_input_tokens = None, cost_output_tokens = None, cost_human_minutes = None,
     cost_usd = None, cost_measurement = M_partial, cost_note = note\<rparr>"

definition grade_costs :: "grade_world \<Rightarrow> grade_state \<Rightarrow> cost_record list" where
  "grade_costs w s = gs_costs s
     @ (case gs_failed s of
          None \<Rightarrow> []
        | Some category \<Rightarrow> [partial_cost category (Some (gw_failed_wall w))
            (if category = C_construction \<and> gs_build_evidence s \<noteq> None then gw_failed_cpu w else None)
            ''Failed runtime call: measured external wall interval; cgroup CPU retained when a build receipt exists''])
     @ [partial_cost C_verifier (Some (max 0 (gw_controller_wall w))) (Some (max 0 (gw_controller_cpu w)))
          ''Controller wall excludes measured runtime call intervals; controller CPU only; worker costs separate'']"

definition receipt_of :: "grade_world \<Rightarrow> artifact_ref \<Rightarrow> artifact_ref \<Rightarrow> int \<Rightarrow> grade_state \<Rightarrow> grade_receipt" where
  "receipt_of w task submission seed s =
     \<lparr>gr_task = task, gr_submission = submission, gr_verifier = gs_verifier s, gr_case_seed = seed,
      gr_manifest = gs_manifest s, gr_source = gs_source s, gr_disposition = gs_disposition s, gr_reward = gs_reward s,
      gr_reason = gs_reason s, gr_expected_case_ids = map cr_case_id (gs_results s), gr_cases = gs_results s,
      gr_build_evidence = gs_build_evidence s, gr_runtime_evidence = gs_runtime_evidence s,
      gr_cleanup_verified = gs_cleanup s, gr_implementation_revision = gw_revision w, gr_recorded_at = gw_now w\<rparr>"

definition grade_scope :: "grade_receipt \<Rightarrow> evidence_scope" where
  "grade_scope r = (if gr_runtime_evidence r \<noteq> [] then Scope_real_integration else Scope_source_inspection)"

definition grade_evidence :: "artifact_ref \<Rightarrow> grade_receipt \<Rightarrow> evidence_record" where
  "grade_evidence ref r =
     \<lparr>ev_producer = ''feature_rl.grading'',
      ev_command = [''GradingService.grade'', ref_sha256 (gr_task r), ref_sha256 (gr_submission r), int_repr (gr_case_seed r)],
      ev_recorded_at = gr_recorded_at r, ev_exit_status = 0, ev_artifacts = ref # gr_runtime_evidence r,
      ev_revision = gr_implementation_revision r, ev_scope = grade_scope r\<rparr>"

datatype grade_outcome =
    Refused string
  | Invalid_receipt grade_receipt
  | Publication_failed grade_receipt
  | Published grade_receipt operation_result objects

definition publish_grade :: "grade_world \<Rightarrow> grade_receipt \<Rightarrow> cost_record list \<Rightarrow> objects \<Rightarrow> grade_outcome" where
  "publish_grade w r costs objs =
     (let vc = gw_client w in
      case store_bytes vc objs (canonical_json (uc_runtime (vc_submissions vc)) (gw_doc_receipt w r)) ''m4-grade-receipt'' of
        Inl e \<Rightarrow> Publication_failed r
      | Inr (ref, objs') \<Rightarrow>
          Published r \<lparr>or_operation = Op_grade, or_disposition = gr_disposition r, or_artifacts = [ref],
            or_evidence = [grade_evidence ref r], or_costs = costs, or_reason = gr_reason r\<rparr> objs')"

definition grade :: "grade_world \<Rightarrow> artifact_ref \<Rightarrow> artifact_ref \<Rightarrow> int \<Rightarrow> objects \<Rightarrow> grade_outcome" where
  "grade w task submission seed objs =
     (if \<not> valid_request (GradeRequest task submission seed) then Refused ''invalid grade request''
      else if seed \<ge> 2^63 then Refused ''case seed exceeds supported 63-bit domain''
      else let s = grade_run w task submission seed objs;
               r = receipt_of w task submission seed s
           in if \<not> valid_grade_receipt r then Invalid_receipt r
              else if gs_pending s then Publication_failed r
              else publish_grade w r (grade_costs w s) (gs_objects s))"

end
