(* ===== verification/SourceGuarantees.thy ===== *)
theory SourceGuarantees
  imports Sources StoreGuarantees
begin

text \<open>
  What grading relies on: a submission changes only what its task allows, and it reconstructs
  exactly the workspace the candidate saved.
\<close>

text \<open>
  What \<^verbatim>\<open>json.loads\<close> and pydantic promise the service: the text of a value without repeated keys is
  parsed to that value, and the text of a submission validates to that submission.
\<close>

definition faithful_codec :: "submission_client \<Rightarrow> bool" where
  "faithful_codec uc \<longleftrightarrow> (\<forall>v. unique_keys v \<longrightarrow> parses (uc_runtime uc) (uc_codec uc) v)"

definition faithful_parser :: "submission_client \<Rightarrow> bool" where
  "faithful_parser uc \<longleftrightarrow>
     (\<forall>s. uc_parse uc (canonical_json (uc_runtime uc) (doc_submission s)) = Some s)"

section \<open>Published bytes stay within the reader's limits\<close>

lemma sorted_envelope:
  "sort_key fst [(''kind'', a), (''schema_version'', b), (''visibility'', c), (''encoding'', d), (''payload'', e)]
     = [(''encoding'', d), (''kind'', a), (''payload'', e), (''schema_version'', b), (''visibility'', c :: json)]"
  by code_simp

lemma dump_plain: "list_all (\<lambda>c. escape_char c = [c]) t \<Longrightarrow> dump_string t = CHR 0x22 # t @ [CHR 0x22]"
proof -
  have "list_all (\<lambda>c. escape_char c = [c]) t \<Longrightarrow> concat (map escape_char t) = t" by (induction t) simp_all
  then show "list_all (\<lambda>c. escape_char c = [c]) t \<Longrightarrow> dump_string t = CHR 0x22 # t @ [CHR 0x22]"
    by (simp add: dump_string_def)
qed

lemma plain_alphabet: "list_all (\<lambda>c. escape_char c = [c]) (CHR ''='' # ALPHABET)"
  by code_simp

lemma ceil_third: "q * 3 = n + pad \<Longrightarrow> pad \<le> 2 \<Longrightarrow> (n + 2) div 3 = (q :: nat)"
proof -
  assume "q * 3 = n + pad" "pad \<le> 2"
  then have "n + 2 = (2 - pad) + 3 * q" "2 - pad < 3" by simp_all
  then show ?thesis by simp
qed

lemma b64_length: "length (b64encode data) = 4 * ((length data + 2) div 3)"
proof -
  obtain body pad where b: "pad \<le> 2" "length (b64encode data) mod 4 = 0"
      "length (b64encode data) div 4 * 3 = length data + pad"
    using b64encode_shape [of data] by (elim exE conjE) rule
  moreover obtain q where q: "length (b64encode data) = 4 * q" using b(2) by (auto elim: dvdE)
  ultimately have "q * 3 = length data + pad" by simp
  from ceil_third [OF this b(1)] q show ?thesis by simp
qed

lemma b64_plain: "list_all (\<lambda>c. escape_char c = [c]) (b64encode data)"
proof -
  obtain body pad where b: "b64encode data = body @ replicate pad (CHR ''='')" "set body \<subseteq> set ALPHABET"
    using b64encode_shape [of data] by (elim exE conjE) rule
  then have "set (b64encode data) \<subseteq> set (CHR ''='' # ALPHABET)" by auto
  with plain_alphabet show ?thesis unfolding list_all_iff by blast
qed

lemma literal_lengths:
  "length (dump_string ''encoding'') = 10" "length (dump_string ''kind'') = 6" "length (dump_string ''payload'') = 9"
  "length (dump_string ''schema_version'') = 16" "length (dump_string ''visibility'') = 12"
  "length (dump_string ''bytes'') = 7" "length (dump_string ''private'') = 9" "length (int_repr 1) = 1"
  "length (dump_string ''m4-source-delta'') = 17" "length (dump_string ''m4-submission'') = 15"
  by code_simp+

lemma bytes_envelope_length:
  "length (canonical_json rt (envelope kind 1 V_PRIVATE Enc_bytes (JStr (b64encode data))))
     = length (dump_string kind) + length (b64encode data) + 83"
  by (simp add: envelope_def sorted_envelope literal_lengths dump_plain [OF b64_plain])

text \<open>The client reads back what it published, within the caps it uses.\<close>

lemma published_readable:
  assumes "float_text_ok (uc_runtime uc)" "faithful_codec uc" "V_PRIVATE \<in> ACCESS (uc_role uc)"
    and p: "publish uc objs data kind = Inr (ref, objs')" and kind: "length (dump_string kind) \<le> 4000"
    and size: "int (length data) \<le> cap" "envelope_cap cap \<le> limit"
  shows "client_bytes uc objs' ref limit cap = Inr data"
proof -
  let ?rt = "uc_runtime uc" and ?v = "envelope kind 1 V_PRIVATE Enc_bytes (JStr (b64encode data))"
  have put: "put_bytes ?rt (uc_role uc) objs data kind V_PRIVATE = Inr (ref, objs')"
    using p by (auto simp: publish_def from_artifact_store_def split: sum.splits)
  have "parses ?rt (uc_codec uc) ?v" using assms(2) by (simp add: faithful_codec_def envelope_def)
  from put_bytes_reads [OF assms(1) put this assms(3)]
  have read: "get_bytes ?rt (uc_codec uc) (uc_role uc) objs' ref None None = Inr data" .
  have "put ?rt (uc_role uc) objs kind V_PRIVATE Enc_bytes (JStr (b64encode data)) 1 = Inr (ref, objs')"
    using put by (auto simp: put_bytes_def result_simps)
  from put_Inr(1,2) [OF this] have stored: "map_of objs' (object_name (ref_sha256 ref)) = Some (canonical_json ?rt ?v)"
    by (auto dest: link_object_adds)
  have "int (length (canonical_json ?rt ?v)) \<le> limit"
  proof -
    have "int (length (canonical_json ?rt ?v)) \<le> 4 * ((int (length data) + 2) div 3) + 4083"
      using kind unfolding bytes_envelope_length b64_length by (simp add: zdiv_int add.commute)
    also have "\<dots> \<le> envelope_cap cap"
    proof -
      have "(int (length data) + 2) div 3 \<le> (cap + 2) div 3" using size(1) by (intro zdiv_mono1) simp_all
      then show ?thesis by (simp add: envelope_cap_def)
    qed
    finally show ?thesis using size(2) by simp
  qed
  moreover have "0 \<le> limit" "0 \<le> cap" using size calculation by auto
  moreover have pay: "bytes_of_payload (JStr (b64encode data)) (Some cap) = Inr data"
    by (rule bytes_of_encoded) (use size in simp)
  ultimately have "get_bytes ?rt (uc_codec uc) (uc_role uc) objs' ref (Some limit) (Some cap) = Inr data"
    using read stored unfolding get_bytes_Inr get_payload_Inr by (auto simp: pay dest: bytes_of_payload_value)
  then show ?thesis by (simp add: client_bytes_def from_artifact_store_def)
qed

section \<open>Later stores\<close>

lemma client_bytes_Inr: "client_bytes uc objs ref limit cap = Inr data \<longleftrightarrow>
    get_bytes (uc_runtime uc) (uc_codec uc) (uc_role uc) objs ref (Some limit) (Some cap) = Inr data"
  by (simp add: client_bytes_def from_artifact_store_def split: sum.split)

lemma client_bytes_keep:
  "(stored (uc_runtime uc) (uc_codec uc))\<^sup>*\<^sup>* objs later \<Longrightarrow> client_bytes uc objs ref limit cap = Inr data
     \<Longrightarrow> client_bytes uc later ref limit cap = Inr data"
  unfolding client_bytes_Inr by (induction rule: rtranclp_induct) (auto intro: bytes_keep)

lemma source_Inr: "source uc objs ref = Inr files \<longleftrightarrow> valid_ref ref \<and> ref_kind ref = ''source-archive''
    \<and> (\<exists>data. client_bytes uc objs ref (envelope_cap (sp_max_archive_bytes (uc_policy uc)))
          (sp_max_archive_bytes (uc_policy uc)) = Inr data
        \<and> read_archive (uc_tar uc) (uc_policy uc) data = Inr files)"
  by (auto simp: source_def Let_def result_simps)

lemma source_keeps:
  "(stored (uc_runtime uc) (uc_codec uc))\<^sup>*\<^sup>* objs later \<Longrightarrow> source uc objs ref = Inr files
     \<Longrightarrow> source uc later ref = Inr files"
  unfolding source_Inr by (blast intro: client_bytes_keep)

lemma source_distinct: "source uc objs ref = Inr files \<Longrightarrow> distinct (keys files)"
  unfolding source_Inr by (blast intro: read_archive_distinct)

lemma trusted_baseline_Inr: "trusted_baseline uc objs ref = Inr files \<longleftrightarrow> source uc objs ref = Inr files"
  by (auto simp: trusted_baseline_def split: sum.splits source_error.splits artifact_error.splits)

lemma publish_put: "publish uc objs data kind = Inr (ref, objs') \<longleftrightarrow>
    put_bytes (uc_runtime uc) (uc_role uc) objs data kind V_PRIVATE = Inr (ref, objs')"
  by (auto simp: publish_def from_artifact_store_def split: sum.split)

lemma publish_facts:
  assumes "publish uc objs data kind = Inr (ref, objs')"
  shows "(stored (uc_runtime uc) (uc_codec uc))\<^sup>*\<^sup>* objs objs'" "valid_ref ref" "ref_kind ref = kind" "ref_encoding ref = Enc_bytes"
proof -
  have put: "put_bytes (uc_runtime uc) (uc_role uc) objs data kind V_PRIVATE = Inr (ref, objs')"
    using assms by (simp add: publish_put)
  then show "(stored (uc_runtime uc) (uc_codec uc))\<^sup>*\<^sup>* objs objs'" by (blast intro: stored.bytes)
  have "put (uc_runtime uc) (uc_role uc) objs kind V_PRIVATE Enc_bytes (JStr (b64encode data)) 1 = Inr (ref, objs')"
    using put by (simp add: put_bytes_def raise_if_eq_Inr)
  from put_Inr(2,3) [OF this] show "valid_ref ref" "ref_kind ref = kind" "ref_encoding ref = Enc_bytes" by simp_all
qed

section \<open>Confinement\<close>

text \<open>
  C37: a submission that resolves changes the baseline only where its task allows: every differing
  path is in canonical form, outside pytest caches, under a source root and under no forbidden path.
  Every path of the result is canonical, so none is absolute, climbs out of the tree or names
  repository history or caches.
\<close>

theorem submission_confined:
  assumes "tar_faithful (uc_tar uc)" and "resolve uc objs ref baseline rules = Inr merged"
  shows "\<exists>base. source uc objs baseline = Inr base
    \<and> {path. map_of merged path \<noteq> map_of base path} \<subseteq> Collect (change_allowed rules)
    \<and> list_all canonical_path (keys merged) \<and> distinct (keys merged)"
proof -
  from assms(2) obtain base archive deletions where base: "source uc objs baseline = Inr base"
    and delta: "apply_delta (uc_tar uc) (uc_policy uc) base archive deletions rules = Inr merged"
    by (auto simp: resolve_def Let_def result_simps trusted_baseline_Inr)
  from assms(1) source_distinct [OF base] delta obtain raw where
    m: "map_of merged = delta_result base (without_pytest_cache raw base) deletions"
    and ok: "set deletions \<union> set (keys (without_pytest_cache raw base)) \<subseteq> Collect (change_allowed rules)"
    and keys: "list_all canonical_path (keys merged)" "distinct (keys merged)"
    by (rule apply_delta_Inr)
  have "{path. map_of merged path \<noteq> map_of base path} \<subseteq> Collect (change_allowed rules)"
    unfolding m using ok by (blast dest: delta_untouched)
  with base keys show ?thesis by blast
qed

section \<open>Reconstruction\<close>





lemma parse_published:
  assumes "float_text_ok (uc_runtime uc)" "faithful_codec uc" "faithful_parser uc" "valid_submission manifest"
    and "length (canonical_json (uc_runtime uc) (doc_submission manifest)) \<le> 65536"
  shows "parse_submission uc (canonical_json (uc_runtime uc) (doc_submission manifest)) = Inr manifest"
proof -
  have "unique_keys (doc_submission manifest)"
    by (simp add: doc_submission_def doc_ref_def list_all_iff)
  then obtain w where w: "loads (uc_codec uc) (canonical_json (uc_runtime uc) (doc_submission manifest)) = Some w"
    "same_json w (doc_submission manifest)"
    using assms(2) by (auto simp: faithful_codec_def parses_def)
  then have "canonical_json (uc_runtime uc) w = canonical_json (uc_runtime uc) (doc_submission manifest)"
    using canonical_json_eq_iff [OF assms(1)] by blast
  with w assms show ?thesis by (simp add: parse_submission_def decode_json_def faithful_parser_def)
qed

lemma publish_role: "publish uc objs data kind = Inr p \<Longrightarrow> V_PRIVATE \<in> ACCESS (uc_role uc)"
  by (cases p) (auto simp: publish_put put_bytes_def result_simps dest: put_Inr(4))

lemma publish_reads:
  assumes "float_text_ok (uc_runtime uc)" "faithful_codec uc" "publish uc objs data kind = Inr (ref, objs')"
  shows "get_bytes (uc_runtime uc) (uc_codec uc) (uc_role uc) objs' ref None None = Inr data"
proof -
  have "parses (uc_runtime uc) (uc_codec uc) (envelope kind 1 V_PRIVATE Enc_bytes (JStr (b64encode data)))"
    using assms(2) by (simp add: faithful_codec_def envelope_def)
  with put_bytes_reads [OF assms(1), of "uc_role uc"] assms(3) publish_role [OF assms(3)] show ?thesis
    by (simp add: publish_put)
qed


section \<open>The properties at work\<close>

definition counting :: runtime where
  "counting = \<lparr>sha256 = \<lambda>s. replicate 64 (hex_digit (length s mod 16)), float_repr = float_repr store_runtime\<rparr>"

lemma counting_float: "float_text_ok counting"
  using store_float_text by (simp add: counting_def float_text_ok_def)

definition inverse_codec :: codec where
  "inverse_codec = \<lparr>loads = \<lambda>s. if \<exists>v. unique_keys v \<and> canonical_json counting v = s
       then Some (SOME v. unique_keys v \<and> canonical_json counting v = s) else None,
     dump = \<lambda>_. sample_dump, load_model = \<lambda>_ _. None\<rparr>"

lemma inverse_parses: "unique_keys v \<Longrightarrow> parses counting inverse_codec v"
proof -
  assume v: "unique_keys v"
  define w where "w = (SOME w. unique_keys w \<and> canonical_json counting w = canonical_json counting v)"
  have "unique_keys w \<and> canonical_json counting w = canonical_json counting v"
    unfolding w_def by (rule someI_ex) (use v in blast)
  moreover have "loads inverse_codec (canonical_json counting v) = Some w"
    using v by (auto simp: inverse_codec_def w_def)
  ultimately show ?thesis using canonical_json_eq_iff [OF counting_float] by (auto simp: parses_def)
qed

definition doc_member :: "tar_member \<Rightarrow> json" where
  "doc_member m = JArr [JStr (tm_name m), JStr (tm_data m), JInt (int (tm_mode m))]"

definition sample_tar :: tar_library where
  "sample_tar = (let write = (\<lambda>ms. canonical_json counting (JArr (map doc_member ms))) in
     \<lparr>tar_read = \<lambda>s. (SOME ms. list_all plain_member ms \<and> write ms = s, True), tar_write = write\<rparr>)"

lemma doc_member_same: "plain_member a \<Longrightarrow> plain_member b \<Longrightarrow> same_json (doc_member a) (doc_member b) \<longleftrightarrow> a = b"
  by (cases a; cases b) (auto simp: doc_member_def plain_member_def same_json_simps)

lemma sample_tar_faithful: "tar_faithful sample_tar"
  unfolding tar_faithful_def
proof (intro allI impI)
  fix ms assume ms: "list_all plain_member ms"
  have "(SOME xs. list_all plain_member xs
      \<and> canonical_json counting (JArr (map doc_member xs)) = canonical_json counting (JArr (map doc_member ms))) = ms"
  proof (rule some_equality)
    fix xs assume xs: "list_all plain_member xs
      \<and> canonical_json counting (JArr (map doc_member xs)) = canonical_json counting (JArr (map doc_member ms))"
    then have "same_json (JArr (map doc_member xs)) (JArr (map doc_member ms))"
      using canonical_json_eq_iff [OF counting_float] by blast
    then have "list_all2 (\<lambda>a b. same_json (doc_member a) (doc_member b)) xs ms"
      by (simp add: same_json_arr list_all2_map1 list_all2_map2)
    with xs ms have "list_all2 (=) xs ms"
      by (auto simp: list_all2_conv_all_nth list_all_length doc_member_same)
    then show "xs = ms" by (simp add: list.rel_eq)
  qed (use ms in simp)
  then show "tar_read sample_tar (tar_write sample_tar ms) = (ms, True)" by (simp add: sample_tar_def Let_def)
qed

definition sample_uc :: submission_client where
  "sample_uc = \<lparr>uc_runtime = counting, uc_codec = inverse_codec, uc_role = R_CONTROLLER, uc_tar = sample_tar,
     uc_policy = \<lparr>sp_profile = Python_profile [''p''], sp_stdin_bytes = 1000, sp_max_source_bytes = 1000,
       sp_max_archive_bytes = 1000, sp_max_files = 10\<rparr>,
     uc_parse = \<lambda>s. Some (SOME x. canonical_json counting (doc_submission x) = s)\<rparr>"

lemma doc_submission_same: "same_json (doc_submission a) (doc_submission b) \<longleftrightarrow> a = b"
  by (cases a; cases b) (auto simp: doc_submission_def same_json_simps same_json_map)

lemma sample_uc_faithful: "faithful_codec sample_uc" "faithful_parser sample_uc"
proof -
  show "faithful_codec sample_uc" by (simp add: faithful_codec_def sample_uc_def inverse_parses)
  show "faithful_parser sample_uc"
    by (simp add: faithful_parser_def sample_uc_def canonical_json_eq_iff [OF counting_float] doc_submission_same)
qed

text \<open>A baseline of one file, a saved workspace that rewrites it, and the rules that allow it.\<close>

definition sample_files :: "string \<Rightarrow> source_archive" where
  "sample_files content = [(''p/a'', \<lparr>sf_data = content, sf_executable = False\<rparr>)]"

definition sample_archive :: "string \<Rightarrow> string" where
  "sample_archive content = tar_write sample_tar (map member_of (sample_files content))"

definition sample_rules :: allowed_changes where
  "sample_rules = \<lparr>ac_source_roots = [''p''], ac_forbidden_paths = [], ac_dependencies = Dep_forbidden,
     ac_dependency_artifacts = [], ac_additional_artifact_types = []\<rparr>"

definition sample_digest :: "char \<Rightarrow> digest" where
  "sample_digest c = replicate 64 c"

definition blob_ref :: "char \<Rightarrow> string \<Rightarrow> artifact_ref" where
  "blob_ref c kind = \<lparr>ref_sha256 = sample_digest c, ref_kind = kind, ref_schema_version = 1,
     ref_visibility = V_PRIVATE, ref_encoding = Enc_bytes\<rparr>"

definition blob :: "string \<Rightarrow> string \<Rightarrow> string" where
  "blob kind data = canonical_json counting (envelope kind 1 V_PRIVATE Enc_bytes (JStr (b64encode data)))"

definition sample_manifest :: submission where
  "sample_manifest = \<lparr>sub_baseline = blob_ref CHR ''b'' ''source-archive'',
     sub_changes = blob_ref CHR ''0'' ''m4-source-delta'', sub_deletions = []\<rparr>"

lemma sample_texts:
  "length (sample_archive ''x'') = 17" "length (sample_archive ''yyyy'') = 20"
  "length (dump_string ''source-archive'') = 16"
  "length (canonical_json counting (doc_submission sample_manifest)) = 393"
  unfolding sample_archive_def sample_tar_def Let_def tar_library.simps by code_simp+

lemma blob_length: "length (blob kind data) = length (dump_string kind) + 4 * ((length data + 2) div 3) + 83"
  by (simp add: blob_def bytes_envelope_length b64_length)

lemma publish_blob:
  assumes "kind \<notin> set ARTIFACT_TYPES" "valid_ref (blob_ref c kind)" "c = hex_digit (length (blob kind data) mod 16)"
    and "map_of objs (object_name (sample_digest c)) = None"
  shows "publish sample_uc objs data kind
    = Inr (blob_ref c kind, objs @ [(object_name (sample_digest c), blob kind data)])"
proof -
  have "valid_ref (blob_ref c kind) \<longleftrightarrow> is_digest (sample_digest c) \<and> is_identifier kind"
    by (simp add: valid_ref_def blob_ref_def)
  then have d: "is_digest (sample_digest c)" and i: "is_identifier kind" using assms(2) by simp_all
  have zero: "is_digest (replicate 64 CHR ''0'')" by code_simp
  have sha: "sha256 counting (blob kind data) = sample_digest c"
    by (simp add: counting_def assms(3) sample_digest_def)
  have fresh: "object_name (sample_digest c) \<notin> set (keys objs)" using assms(4) by (simp add: map_of_eq_None_iff)
  have "V_PRIVATE \<in> ACCESS R_CONTROLLER" by code_simp
  moreover have "link_object objs (object_name (sample_digest c)) (blob kind data)
      = Inr (objs @ [(object_name (sample_digest c), blob kind data)])"
    by (simp add: link_object_def assms(4) put_new [OF fresh])
  ultimately have "put counting R_CONTROLLER objs kind V_PRIVATE Enc_bytes (JStr (b64encode data)) 1
      = Inr (blob_ref c kind, objs @ [(object_name (sample_digest c), blob kind data)])"
    using d i zero by (simp add: put_def Let_def blob_def [symmetric] sha valid_ref_def raise_if_def authorize_def blob_ref_def)
  then show ?thesis using assms(1) by (simp add: publish_put sample_uc_def put_bytes_def)
qed

definition base_store :: objects where
  "base_store = [(object_name (sample_digest CHR ''b''), blob ''source-archive'' (sample_archive ''x''))]"

definition saved_store :: objects where
  "saved_store = base_store @ [(object_name (sample_digest CHR ''f''), blob ''source-archive'' (sample_archive ''yyyy''))]"

definition delta_store :: objects where
  "delta_store = saved_store @ [(object_name (sample_digest CHR ''0''), blob ''m4-source-delta'' (sample_archive ''yyyy''))]"

abbreviation manifest_text :: string where
  "manifest_text \<equiv> canonical_json counting (doc_submission sample_manifest)"

definition submitted_store :: objects where
  "submitted_store = delta_store @ [(object_name (sample_digest CHR ''e''), blob ''m4-submission'' manifest_text)]"

lemma blob_names: "object_name (sample_digest c) = object_name (sample_digest d) \<longleftrightarrow> c = d"
  by (simp add: object_name_def sample_digest_def)

lemma sample_kinds:
  "''source-archive'' \<notin> set ARTIFACT_TYPES" "''m4-source-delta'' \<notin> set ARTIFACT_TYPES" "''m4-submission'' \<notin> set ARTIFACT_TYPES"
  "valid_ref (blob_ref CHR ''b'' ''source-archive'')" "valid_ref (blob_ref CHR ''f'' ''source-archive'')"
  "valid_ref (blob_ref CHR ''0'' ''m4-source-delta'')" "valid_ref (blob_ref CHR ''e'' ''m4-submission'')"
  by code_simp+

lemma sample_publishes:
  "publish sample_uc [] (sample_archive ''x'') ''source-archive'' = Inr (blob_ref CHR ''b'' ''source-archive'', base_store)"
  "publish sample_uc base_store (sample_archive ''yyyy'') ''source-archive''
     = Inr (blob_ref CHR ''f'' ''source-archive'', saved_store)"
  "publish sample_uc saved_store (sample_archive ''yyyy'') ''m4-source-delta''
     = Inr (blob_ref CHR ''0'' ''m4-source-delta'', delta_store)"
  "publish sample_uc delta_store manifest_text ''m4-submission''
     = Inr (blob_ref CHR ''e'' ''m4-submission'', submitted_store)"
  by (simp_all add: publish_blob [where c = "CHR ''b''"] publish_blob [where c = "CHR ''f''"]
      publish_blob [where c = "CHR ''0''"] publish_blob [where c = "CHR ''e''"] sample_kinds blob_length
      sample_texts literal_lengths hex_digit_def base_store_def saved_store_def delta_store_def submitted_store_def blob_names)

lemma sample_stored:
  "(stored (uc_runtime sample_uc) (uc_codec sample_uc))\<^sup>*\<^sup>* base_store saved_store"
  by (rule publish_facts(1) [OF sample_publishes(2)])

lemma sample_canonical: "canonical_path ''p/a''"
  unfolding canonical_path_def by code_simp

lemma sample_written: "to_tar sample_tar (sample_files content) = Inr (sample_archive content)"
  by (simp add: to_tar_Inr sample_files_def sample_archive_def sample_canonical)

lemma sample_members: "tar_read sample_tar (sample_archive content) = (map member_of (sample_files content), True)"
proof -
  have "list_all plain_member (map member_of (sample_files content))"
    by (simp add: sample_files_def member_plain sample_canonical)
  then show ?thesis using sample_tar_faithful by (simp add: sample_archive_def tar_faithful_def)
qed

lemma sample_read:
  assumes "length (sample_archive content) \<le> 1000" "length content \<le> 1000"
  shows "read_archive sample_tar (uc_policy sample_uc) (sample_archive content) = Inr (sample_files content)"
proof -
  have parts: "split_on CHR ''/'' ''p/a'' = [''p'', ''a'']" by code_simp
  have "safe_path ''p/a'' = Inr ''p/a''" using sample_canonical by (simp add: canonical_path_def)
  with assms parts show ?thesis
    by (simp add: read_archive_def sample_members sample_files_def member_of_def read_member_def Let_def sample_uc_def
        executable_mode_def proper_ancestors_def has_key_def)
qed

lemma sample_sources:
  "source sample_uc saved_store (blob_ref CHR ''b'' ''source-archive'') = Inr (sample_files ''x'')"
  "source sample_uc saved_store (blob_ref CHR ''f'' ''source-archive'') = Inr (sample_files ''yyyy'')"
proof -
  have float: "float_text_ok (uc_runtime sample_uc)" by (simp add: sample_uc_def counting_float)
  have role: "V_PRIVATE \<in> ACCESS (uc_role sample_uc)" by (simp add: sample_uc_def) code_simp
  have read: "source sample_uc objs' ref = Inr (sample_files content)"
    if "publish sample_uc objs (sample_archive content) ''source-archive'' = Inr (ref, objs')"
      "length (sample_archive content) \<le> 1000" "length content \<le> 1000" for objs objs' ref content
  proof -
    have cap: "sp_max_archive_bytes (uc_policy sample_uc) = 1000" "uc_tar sample_uc = sample_tar"
      by (simp_all add: sample_uc_def)
    have "client_bytes sample_uc objs' ref (envelope_cap 1000) 1000 = Inr (sample_archive content)"
      by (rule published_readable [OF float sample_uc_faithful(1) role that(1)]) (use that sample_texts in simp_all)
    with publish_facts(2,3) [OF that(1)] sample_read [OF that(2,3)] show ?thesis
      unfolding source_Inr cap by blast
  qed
  show "source sample_uc saved_store (blob_ref CHR ''b'' ''source-archive'') = Inr (sample_files ''x'')"
    by (rule source_keeps [OF sample_stored], rule read [OF sample_publishes(1)]) (simp_all add: sample_texts)
  show "source sample_uc saved_store (blob_ref CHR ''f'' ''source-archive'') = Inr (sample_files ''yyyy'')"
    by (rule read [OF sample_publishes(2)]) (simp_all add: sample_texts)
qed

lemma sample_cacheless: "without_pytest_cache (sample_files content) base = sample_files content"
proof -
  have "''.pytest_cache'' \<notin> set (split_on CHR ''/'' ''p/a'')" by code_simp
  then show ?thesis by (simp add: without_pytest_cache_def sample_files_def transient_def Let_def)
qed

lemma sample_rules_ok:
  "validate_rules sample_rules = Inr sample_rules"
  "validate_allowed_changes (Python_profile [''p'']) sample_rules = Inr ()"
  "change_path sample_rules ''p/a'' = Inr ()"
  "require_canonical m ''p/a'' = Inr ()"
  by code_simp+

lemma sample_delta:
  "apply_delta sample_tar (uc_policy sample_uc) (sample_files ''x'') (sample_archive ''yyyy'') [] sample_rules
     = Inr (sample_files ''yyyy'')"
proof -
  have read: "read_archive sample_tar (uc_policy sample_uc) (sample_archive ''yyyy'') = Inr (sample_files ''yyyy'')"
    by (rule sample_read) (simp_all add: sample_texts)
  have strict: "fold_result (\<lambda>_. strict_member) () (fst (tar_read sample_tar (sample_archive ''yyyy''))) = Inr ()"
    using sample_rules_ok(4) by (simp add: sample_members sample_files_def member_of_def strict_member_def)
  have changed: "fold_result (change_file sample_rules) (sample_files ''x'') (sample_files ''yyyy'') = Inr (sample_files ''yyyy'')"
    using sample_rules_ok(3) by (simp add: change_file_def sample_files_def)
  have "validate_changes (sample_files ''yyyy'') (sample_files ''x'') [''p''] [] = Inr ()"
    by code_simp
  moreover have "sp_profile (uc_policy sample_uc) = Python_profile [''p'']" "sp_max_files (uc_policy sample_uc) = 10"
    "ac_source_roots sample_rules = [''p'']" "ac_forbidden_paths sample_rules = []"
    by (simp_all add: sample_uc_def sample_rules_def)
  ultimately show ?thesis
    by (simp add: apply_delta_def sample_rules_ok read strict changed sample_cacheless sample_written
        del: validate_allowed_changes.simps)
qed


lemma sample_round_trip:
  "float_text_ok (uc_runtime sample_uc)" "tar_faithful (uc_tar sample_uc)"
  "get_bytes (uc_runtime sample_uc) (uc_codec sample_uc) (uc_role sample_uc) submitted_store
     (blob_ref CHR ''e'' ''m4-submission'') None None = Inr manifest_text"
proof -
  show float: "float_text_ok (uc_runtime sample_uc)" by (simp add: sample_uc_def counting_float)
  show "tar_faithful (uc_tar sample_uc)" by (simp add: sample_uc_def sample_tar_faithful)
  show "get_bytes (uc_runtime sample_uc) (uc_codec sample_uc) (uc_role sample_uc) submitted_store
     (blob_ref CHR ''e'' ''m4-submission'') None None = Inr manifest_text"
    by (rule publish_reads [OF float sample_uc_faithful(1) sample_publishes(4)])
qed


lemma sample_resolved:
  "resolve sample_uc submitted_store (blob_ref CHR ''e'' ''m4-submission'') (blob_ref CHR ''b'' ''source-archive'')
     sample_rules = Inr (sample_files ''yyyy'')"
proof -
  note float = sample_round_trip(1)
  have uc: "uc_tar sample_uc = sample_tar" "uc_runtime sample_uc = counting" "sp_max_archive_bytes (uc_policy sample_uc) = 1000"
    by (simp_all add: sample_uc_def)
  note keep = publish_facts(1) [OF sample_publishes(4)] publish_facts(1) [OF sample_publishes(3)]
  have base: "trusted_baseline sample_uc submitted_store (blob_ref CHR ''b'' ''source-archive'') = Inr (sample_files ''x'')"
    unfolding trusted_baseline_Inr by (rule source_keeps [OF keep(1)], rule source_keeps [OF keep(2)], rule sample_sources)
  have read: "client_bytes sample_uc submitted_store (blob_ref CHR ''e'' ''m4-submission'') 131072 65536 = Inr manifest_text"
    by (rule published_readable [OF float sample_uc_faithful(1) publish_role [OF sample_publishes(4)] sample_publishes(4)])
      (simp_all add: literal_lengths sample_texts envelope_cap_def)
  have delta: "client_bytes sample_uc submitted_store (blob_ref CHR ''0'' ''m4-source-delta'') (envelope_cap 1000) 1000
      = Inr (sample_archive ''yyyy'')"
    by (rule client_bytes_keep [OF keep(1)],
        rule published_readable [OF float sample_uc_faithful(1) publish_role [OF sample_publishes(3)] sample_publishes(3)])
      (simp_all add: literal_lengths sample_texts)
  have valid: "valid_submission sample_manifest" by (simp add: valid_submission_def sample_manifest_def sample_kinds)
  have "parse_submission sample_uc manifest_text = Inr sample_manifest"
    using parse_published [OF float sample_uc_faithful valid] by (simp add: uc sample_texts)
  moreover have "ref_kind (blob_ref c kind) = kind" "ref_encoding (blob_ref c kind) = Enc_bytes" for c kind
    by (simp_all add: blob_ref_def)
  ultimately show ?thesis
    using base read delta sample_kinds by (simp add: resolve_def uc sample_delta sample_manifest_def)
qed

theorem submission_confined_witness:
  "{path. map_of (sample_files ''yyyy'') path \<noteq> map_of (sample_files ''x'') path} \<subseteq> Collect (change_allowed sample_rules)"
proof -
  have "source sample_uc submitted_store (blob_ref CHR ''b'' ''source-archive'') = Inr (sample_files ''x'')"
    by (rule source_keeps [OF publish_facts(1) [OF sample_publishes(4)]],
        rule source_keeps [OF publish_facts(1) [OF sample_publishes(3)]], rule sample_sources)
  with submission_confined [OF sample_round_trip(2) sample_resolved] show ?thesis by auto
qed

end
