(* ===== verification/GradingGuarantees.thy ===== *)
theory GradingGuarantees
  imports Grading SourceGuarantees
begin

text \<open>
  What a grade means: the receipt of every grading passes its own validators, whatever the worker
  does, and the reward is one exactly for a run in which every stage succeeded and every case matched.
\<close>

section \<open>Texts of bounded length\<close>

lemma code_points_append [simp]: "code_points (a @ b) = code_points a + code_points b"
  by (simp add: code_points_def)

lemma code_points_nonneg [simp]: "0 \<le> code_points s"
  by (simp add: code_points_def)

lemma code_points_le: "code_points s \<le> int (length s)"
  by (simp add: code_points_def)

lemma clip_bound: "code_points (clip n s) \<le> int n"
proof (induction n s rule: clip.induct)
  case (2 n c cs)
  then show ?case by (cases n) (auto simp: code_points_def)
qed (simp add: code_points_def)

lemma code_points_Cons:
  "code_points (c # cs) = (if (of_char c :: int) < 128 \<or> 192 \<le> (of_char c :: int) then 1 else 0) + code_points cs"
  by (simp add: code_points_def)

lemma clip_nonempty: "1 \<le> code_points s \<Longrightarrow> 1 \<le> n \<Longrightarrow> 1 \<le> code_points (clip n s)"
proof (induction n s rule: clip.induct)
  case (2 n c cs)
  show ?case
  proof (cases "(of_char c :: int) < 128 \<or> 192 \<le> (of_char c :: int)")
    case True
    with 2(4) show ?thesis by (cases n) (simp_all add: code_points_Cons)
  next
    case False
    with 2(2) [OF False] 2(3,4) show ?thesis by (simp add: code_points_Cons)
  qed
qed simp

lemma short_prefixed:
  "1 \<le> code_points p \<Longrightarrow> code_points m \<le> n \<Longrightarrow> code_points p + n \<le> 1024 \<Longrightarrow> short_reason (p @ m)"
  using code_points_nonneg [of m] by (simp add: short_reason_def del: code_points_nonneg)

lemma reason_lengths:
  "code_points ''grading did not complete'' = 24" "code_points ''not executed'' = 12"
  "code_points ''worker '' = 7" "code_points ''candidate '' = 10" "code_points ''observation protocol violation: '' = 32"
  "code_points ''compared externally'' = 19" "code_points ''required comparison failed'' = 26"
  "code_points ''declared total grading wall budget exceeded'' = 43" "code_points ''build '' = 6"
  "code_points ''all repository observations match frozen H outputs'' = 50" "code_points ''source submission rejected: '' = 28"
  "code_points ''offline dependency resolution unavailable: '' = 43" "code_points ''candidate declarations rejected: '' = 33"
  "code_points '': '' = 2" "code_points ''invalid or unsupported verifier: '' = 33"
  "code_points ''workspace cleanup unverified: '' = 30"
  by code_simp+

lemma execution_reason_length: "code_points (execution_reason_value r) \<le> 30"
  by (cases r) (auto intro: order_trans [OF code_points_le])

section \<open>The worlds considered\<close>

text \<open>
  What the runtime owes the controller: evidence references and costs that validate, and short type
  names and reasons. Exception messages are arbitrary, except that a failed publication has one.
\<close>

fun short_exception :: "grade_exception \<Rightarrow> bool" where
  "short_exception (EvidencePublicationFailed m retried) = (1 \<le> code_points m \<and> option_all valid_ref retried)"
| "short_exception (EnvironmentFailure t m) = (code_points t \<le> 200)"
| "short_exception e = True"

fun build_ok :: "build_outcome \<Rightarrow> bool" where
  "build_ok (Build_succeeded ev cost) = (valid_ref ev \<and> valid_cost cost)"
| "build_ok (Build_failed ev category cleanup reason) = (valid_ref ev \<and> code_points reason \<le> 1000)"
| "build_ok (Build_raised e) = short_exception e"

definition fails_short :: "grade_exception + 'a \<Rightarrow> bool" where
  "fails_short m \<longleftrightarrow> (case m of Inl e \<Rightarrow> short_exception e | Inr x \<Rightarrow> True)"

definition execution_ok :: "grade_exception + execution_result \<Rightarrow> bool" where
  "execution_ok m \<longleftrightarrow> (case m of Inl e \<Rightarrow> short_exception e | Inr out \<Rightarrow> valid_ref (xr_evidence out) \<and> valid_cost (xr_cost out))"

definition world_ok :: "grade_world \<Rightarrow> bool" where
  "world_ok w \<longleftrightarrow> is_revision (gw_revision w) \<and> (\<forall>lv. fails_short (gw_select_task w lv)) \<and> fails_short (gw_recipe w)
     \<and> fails_short (gw_open_workspace w) \<and> build_ok (gw_build w) \<and> (\<forall>i req. execution_ok (gw_execute w i req))
     \<and> option_all (\<lambda>(t, m). code_points t \<le> 200) (gw_close w) \<and> 0 \<le> gw_failed_wall w
     \<and> option_all (\<lambda>x. 0 \<le> x) (gw_failed_cpu w)"

section \<open>The state of a grading\<close>

definition settled :: "case_result \<Rightarrow> bool" where
  "settled c \<longleftrightarrow> cr_mandatory c \<and> cr_status c = Case_completed \<and> cr_passed c = Some True"

text \<open>What every step keeps; a reward of one still lacks the results of the cases to come.\<close>

definition sound_verdict :: "disposition \<Rightarrow> int option \<Rightarrow> bool" where
  "sound_verdict d r \<longleftrightarrow> (d, r) \<in> {(D_SUCCESS, Some 1), (D_REJECTED, Some 0), (D_INVALID, None),
     (D_INFRASTRUCTURE, None), (D_UNSUPPORTED, None)}"

lemma sound_verdicts [simp]:
  "sound_verdict D_SUCCESS (Some 1)" "sound_verdict D_REJECTED (Some 0)" "sound_verdict D_INVALID None"
  "sound_verdict D_INFRASTRUCTURE None" "sound_verdict D_UNSUPPORTED None"
  by (simp_all add: sound_verdict_def)

definition sound_state :: "grade_state \<Rightarrow> bool" where
  "sound_state s \<longleftrightarrow> option_all valid_ref (gs_verifier s) \<and> option_all valid_ref (gs_manifest s)
     \<and> option_all valid_ref (gs_source s) \<and> option_all valid_ref (gs_build_evidence s)
     \<and> list_all valid_ref (gs_runtime_evidence s) \<and> list_all valid_cost (gs_costs s)
     \<and> list_all valid_case_result (gs_results s) \<and> distinct (map cr_case_id (gs_results s))
     \<and> short_reason (gs_reason s)
     \<and> sound_verdict (gs_disposition s) (gs_reward s)
     \<and> (gs_reward s = Some 1 \<longrightarrow> gs_manifest s \<noteq> None \<and> gs_source s \<noteq> None \<and> gs_build_evidence s \<noteq> None
          \<and> gs_results s \<noteq> [])"

definition measured_clean :: "grade_state \<Rightarrow> bool" where
  "measured_clean s \<longleftrightarrow> gs_cleanup s \<or> gs_reward s = None"

lemma verdict_fields [simp]:
  "gs_objects (verdict d r m s) = gs_objects s" "gs_verifier (verdict d r m s) = gs_verifier s"
  "gs_manifest (verdict d r m s) = gs_manifest s" "gs_source (verdict d r m s) = gs_source s"
  "gs_build_evidence (verdict d r m s) = gs_build_evidence s" "gs_runtime_evidence (verdict d r m s) = gs_runtime_evidence s"
  "gs_costs (verdict d r m s) = gs_costs s" "gs_open (verdict d r m s) = gs_open s"
  "gs_results (verdict d r m s) = gs_results s" "gs_cleanup (verdict d r m s) = gs_cleanup s"
  "gs_disposition (verdict d r m s) = d" "gs_reward (verdict d r m s) = r" "gs_reason (verdict d r m s) = m"
  "gs_failed (verdict d r m s) = gs_failed s" "gs_pending (verdict d r m s) = gs_pending s"
  by (simp_all add: verdict_def)

text \<open>Replacing the verdict by one without a success keeps a state sound.\<close>

lemma verdict_sound:
  assumes "sound_state s" "short_reason m"
    and "sound_verdict d r" "r \<noteq> Some 1"
  shows "sound_state (verdict d r m s)"
  using assms by (simp add: sound_state_def)

lemma short_bound: "short_reason s \<longleftrightarrow> 1 \<le> code_points s \<and> code_points s \<le> 1024"
  by (simp add: short_reason_def)

lemma exception_short: "short_exception (artifact_exception e)"
  by (cases e) (auto intro: order_trans [OF code_points_le])

lemma source_exception_short: "short_exception (source_exception e)"
  by (cases e) (simp_all add: source_exception_def exception_short)

lemma from_objects_short: "fails_short (from_objects m)"
  by (cases m) (simp_all add: fails_short_def from_objects_def exception_short)

lemma bind_short: "fails_short m \<Longrightarrow> (\<And>x. fails_short (f x)) \<Longrightarrow> fails_short (bind_result m f)"
  by (cases m) (simp_all add: fails_short_def)

lemma raise_short: "short_exception e \<Longrightarrow> fails_short m \<Longrightarrow> fails_short (raise_if p e m)"
  by (simp add: raise_if_def fails_short_def)

lemma fails_short_simps [simp]: "fails_short (Inr x)" "fails_short (Inl e) = short_exception e"
  by (simp_all add: fails_short_def)

lemmas short_intros = bind_short raise_short from_objects_short

lemma read_capped_short: "fails_short (read_capped vc objs ref cap kind private)"
  unfolding read_capped_def Let_def by (intro short_intros) simp_all

lemma read_local_short: "fails_short (read_local vc objs ref parse valid kind cap)"
  unfolding read_local_def Let_def
  by (intro bind_short read_capped_short) (auto intro!: raise_short split: sum.split option.split)

lemma typed_artifact_short: "fails_short (typed_artifact vc objs ref cast)"
  unfolding typed_artifact_def Let_def by (intro short_intros) (auto split: option.split)

lemma map_result_short: "(\<And>x. fails_short (f x)) \<Longrightarrow> fails_short (map_result f xs)"
  by (induction xs) (auto intro!: bind_short)

lemma load_case_short: "fails_short (load_case vc objs contract recipe c)"
  unfolding load_case_def read_input_def read_observation_def
  by (intro bind_short raise_short read_local_short) simp_all

lemma rules_short: "fails_short (case validate_rules r of Inl e \<Rightarrow> Inl (rules_exception e) | Inr x \<Rightarrow> Inr ())"
  by (auto simp: rules_exception_def exception_short split: sum.split source_error.split)

lemma load_verifier_short: "fails_short (load_verifier vc objs task)"
  unfolding load_verifier_def validate_verifier_bundle_def Let_def
  by (auto intro!: bind_short raise_short typed_artifact_short map_result_short load_case_short rules_short)

lemma execution_request_short: "fails_short (execution_request vc objs policy inp)"
  unfolding execution_request_def
  by (intro bind_short read_capped_short) (auto simp: source_exception_short split: input_mode.split sum.split)

lemma materialize_short: "fails_short (materialize_manifest lv seed)"
  by (auto simp: materialize_manifest_def Let_def intro!: raise_short)

section \<open>One case\<close>

lemma valid_case_record:
  assumes "valid_realized c" "valid_ref ev" "short_reason reason"
  shows "status \<noteq> Case_completed \<Longrightarrow> valid_case_result (case_record c status None [] (Some ev) reason)"
    and "valid_case_result (case_record c Case_not_run None [] None reason)"
    and "valid_case_result (case_record c Case_completed (Some passed)
      [\<lparr>asr_assertion_id = ''reference-match'', asr_requirement_ids = rz_requirement_ids c, asr_passed = passed\<rparr>] (Some ev) reason)"
proof -
  have "name_ok ''reference-match''" by code_simp
  then show "valid_case_result (case_record c Case_completed (Some passed)
      [\<lparr>asr_assertion_id = ''reference-match'', asr_requirement_ids = rz_requirement_ids c, asr_passed = passed\<rparr>] (Some ev) reason)"
    using assms by (simp add: valid_case_result_def case_record_def valid_assertion_def valid_realized_def case_coherent_checks_def)
qed (use assms in \<open>simp_all add: valid_case_result_def case_record_def valid_realized_def case_coherent_checks_def\<close>)

lemma settle_case_frame:
  assumes "settle_case cap i c inp expected output s = (s', goes_on)"
  shows "gs_cleanup s' = xr_cleanup_verified output" "gs_runtime_evidence s' = gs_runtime_evidence s @ [xr_evidence output]"
    "gs_costs s' = gs_costs s @ [xr_cost output]" "gs_verifier s' = gs_verifier s" "gs_manifest s' = gs_manifest s"
    "gs_source s' = gs_source s" "gs_build_evidence s' = gs_build_evidence s" "gs_objects s' = gs_objects s"
    "gs_open s' = gs_open s"
  using assms by (auto simp: settle_case_def Let_def split: if_splits sum.splits)

lemma observe_clean:
  "observe output cap = Inr observed \<Longrightarrow> xr_cleanup_verified output
     \<and> xr_failure_category output \<notin> {Infrastructure_failure, Unresolved_failure}
     \<and> xr_reason output \<in> {Completed, Command_failed}"
  by (auto simp: observe_def raise_if_eq_Inr)

definition case_effect ::
  "int \<Rightarrow> nat \<Rightarrow> realized_case \<Rightarrow> behavioral_input \<Rightarrow> process_observation \<Rightarrow> execution_result \<Rightarrow> grade_state
     \<Rightarrow> grade_state \<Rightarrow> bool \<Rightarrow> bool" where
  "case_effect cap i c inp expected output s s' goes_on \<longleftrightarrow>
     (\<exists>record. gs_results s' = (gs_results s)[i := record] \<and> cr_case_id record = rz_case_id c \<and> valid_case_result record
        \<and> (gs_reward s' = Some 1 \<longrightarrow> settled record))
     \<and> short_reason (gs_reason s')
     \<and> (sound_verdict (gs_disposition s) (gs_reward s) \<longrightarrow> sound_verdict (gs_disposition s') (gs_reward s'))
     \<and> (if goes_on then xr_cleanup_verified output else gs_reward s' = None)
     \<and> (gs_reward s' = Some 1 \<longleftrightarrow> gs_reward s = Some 1
          \<and> (\<exists>observed. observe output cap = Inr observed \<and> matches inp observed expected))"

lemma settle_case_effect:
  assumes "settle_case cap i c inp expected output s = (s', goes_on)" "rz_mandatory c" "valid_realized c"
    and "valid_ref (xr_evidence output)" "short_reason (gs_reason s)"
  shows "case_effect cap i c inp expected output s s' goes_on"
proof -
  have "short_reason (''worker '' @ execution_reason_value r)" "short_reason (''candidate '' @ execution_reason_value r)"
    "short_reason (''observation protocol violation: '' @ clip 800 m)" for r m
    by (rule short_prefixed [OF _ execution_reason_length] short_prefixed [OF _ clip_bound]; simp add: reason_lengths)+
  moreover have "short_reason ''required comparison failed''" "short_reason ''compared externally''"
    by (simp_all add: short_bound reason_lengths)
  ultimately have short: "short_reason (''worker '' @ execution_reason_value r)" "short_reason (''candidate '' @ execution_reason_value r)"
    "short_reason (''observation protocol violation: '' @ clip 800 m)" "short_reason ''required comparison failed''"
    "short_reason ''compared externally''" for r m by blast+
  note valid = valid_case_record [OF assms(3,4)]
  have id: "cr_case_id (case_record c st p as ev m) = rz_case_id c" for st p as ev m by (simp add: case_record_def)
  show ?thesis
  proof (cases "\<not> xr_cleanup_verified output \<or> xr_failure_category output \<in> {Infrastructure_failure, Unresolved_failure}")
    case True
    then have "observe output cap \<noteq> Inr observed" for observed by (auto dest: observe_clean)
    with True assms(1) short valid show ?thesis
      by (cases "xr_cleanup_verified output") (auto simp: case_effect_def settle_case_def Let_def id)
  next
    case clean: False
    show ?thesis
    proof (cases "xr_reason output \<notin> {Completed, Command_failed}")
      case True
      then have "observe output cap \<noteq> Inr observed" for observed by (auto dest: observe_clean)
      with True clean assms(1) short valid show ?thesis
        by (auto simp: case_effect_def settle_case_def Let_def id)
    next
      case ran: False
      show ?thesis
      proof (cases "observe output cap")
        case (Inl m)
        with ran clean assms(1) short valid show ?thesis
          by (auto simp: case_effect_def settle_case_def Let_def id)
      next
        case (Inr observed)
        have "settled (case_record c Case_completed (Some True) as ev m)" for as ev m
          using assms(2) by (simp add: settled_def case_record_def)
        with Inr ran clean assms(1,2,5) short valid show ?thesis
          by (auto simp: case_effect_def settle_case_def Let_def id split: if_splits)
      qed
    qed
  qed
qed

text \<open>The case keeps the state sound, and a reward of one means that this case is settled too.\<close>

lemma settle_case_sound:
  assumes "settle_case cap i c inp expected output s = (s', goes_on)" "rz_mandatory c" "valid_realized c"
    and "valid_ref (xr_evidence output)" "valid_cost (xr_cost output)" "sound_state s"
    and "i < length (gs_results s)" "cr_case_id (gs_results s ! i) = rz_case_id c"
  shows "sound_state s'" "map cr_case_id (gs_results s') = map cr_case_id (gs_results s)"
    "goes_on \<Longrightarrow> gs_cleanup s'" "\<not> goes_on \<Longrightarrow> gs_reward s' = None"
    "gs_reward s' = Some 1 \<Longrightarrow> gs_reward s = Some 1 \<and> settled (gs_results s' ! i)"
    "\<And>j. j \<noteq> i \<Longrightarrow> gs_results s' ! j = gs_results s ! j"
    "gs_objects s' = gs_objects s" "gs_open s' = gs_open s"
proof -
  note fields = settle_case_frame [OF assms(1)]
  have "short_reason (gs_reason s)" using assms(6) by (simp add: sound_state_def)
  then have effect: "case_effect cap i c inp expected output s s' goes_on" by (rule settle_case_effect [OF assms(1-4)])
  then obtain entry where entry: "gs_results s' = (gs_results s)[i := entry]" "cr_case_id entry = rz_case_id c"
    "valid_case_result entry" "gs_reward s' = Some 1 \<longrightarrow> settled entry" by (auto simp: case_effect_def)
  show ids: "map cr_case_id (gs_results s') = map cr_case_id (gs_results s)"
    using assms(7,8) entry(2) by (simp add: entry(1) map_update list_update_same_conv)
  have base: "option_all valid_ref (gs_verifier s)" "option_all valid_ref (gs_manifest s)" "option_all valid_ref (gs_source s)"
    "option_all valid_ref (gs_build_evidence s)" "list_all valid_ref (gs_runtime_evidence s)" "list_all valid_cost (gs_costs s)"
    "list_all valid_case_result (gs_results s)" "distinct (map cr_case_id (gs_results s))"
    "sound_verdict (gs_disposition s) (gs_reward s)"
    "gs_reward s = Some 1 \<longrightarrow> gs_manifest s \<noteq> None \<and> gs_source s \<noteq> None \<and> gs_build_evidence s \<noteq> None"
    using assms(6) unfolding sound_state_def by blast+
  have change: "short_reason (gs_reason s')" "gs_reward s' = Some 1 \<longrightarrow> gs_reward s = Some 1"
    "sound_verdict (gs_disposition s) (gs_reward s) \<longrightarrow> sound_verdict (gs_disposition s') (gs_reward s')"
    "if goes_on then xr_cleanup_verified output else gs_reward s' = None"
    using effect unfolding case_effect_def by blast+
  have "option_all valid_ref (gs_verifier s')" "option_all valid_ref (gs_manifest s')" "option_all valid_ref (gs_source s')"
    "option_all valid_ref (gs_build_evidence s')" "list_all valid_ref (gs_runtime_evidence s')" "list_all valid_cost (gs_costs s')"
    using base(1-6) assms(4,5) by (simp_all add: fields)
  moreover have "list_all valid_case_result (gs_results s')"
    using base(7) entry(3) by (auto simp: entry(1) list_all_iff dest: set_update_subset_insert [THEN subsetD])
  moreover have "distinct (map cr_case_id (gs_results s'))" unfolding ids by (fact base(8))
  moreover have "sound_verdict (gs_disposition s') (gs_reward s')" using base(9) change(3) by blast
  moreover have "gs_reward s' = Some 1 \<longrightarrow> gs_manifest s' \<noteq> None \<and> gs_source s' \<noteq> None \<and> gs_build_evidence s' \<noteq> None
      \<and> gs_results s' \<noteq> []"
    using base(10) change(2) assms(7) by (auto simp: fields entry(1))
  ultimately show "sound_state s'" using change(1) unfolding sound_state_def by (intro conjI)
  show "goes_on \<Longrightarrow> gs_cleanup s'" "\<not> goes_on \<Longrightarrow> gs_reward s' = None"
    "gs_reward s' = Some 1 \<Longrightarrow> gs_reward s = Some 1 \<and> settled (gs_results s' ! i)"
    using change(2,4) entry(1,4) assms(7) by (auto simp: fields)
  show "gs_results s' ! j = gs_results s ! j" if "j \<noteq> i" for j using that by (simp add: entry(1))
  show "gs_objects s' = gs_objects s" "gs_open s' = gs_open s" by (fact fields)+
qed

section \<open>All cases\<close>

definition rows_from :: "nat \<Rightarrow> (nat \<times> realized_case \<times> behavioral_input \<times> process_observation) list \<Rightarrow> case_result list \<Rightarrow> bool" where
  "rows_from k rows results \<longleftrightarrow> map fst rows = [k..<length results]
     \<and> (\<forall>(i, c, inp, expected) \<in> set rows. rz_mandatory c \<and> valid_realized c \<and> cr_case_id (results ! i) = rz_case_id c)"

lemma rows_from_ids:
  "map cr_case_id results' = map cr_case_id results \<Longrightarrow> rows_from k rows results \<Longrightarrow> rows_from k rows results'"
proof -
  assume ids: "map cr_case_id results' = map cr_case_id results" and rows: "rows_from k rows results"
  have len: "length results' = length results" using ids by (metis length_map)
  have "cr_case_id (results' ! i) = cr_case_id (results ! i)" if "i < length results" for i
    using ids that len by (metis nth_map)
  moreover have "fst row < length results" if "row \<in> set rows" for row
  proof -
    have "fst row \<in> set (map fst rows)" using that by simp
    also have "map fst rows = [k..<length results]" using rows unfolding rows_from_def by blast
    finally show ?thesis by simp
  qed
  ultimately show ?thesis using rows len by (fastforce simp: rows_from_def)
qed

lemma run_cases_sound:
  assumes "world_ok w" "sound_state s" "gs_cleanup s" "rows_from k rows (gs_results s)"
    and "gs_reward s = Some 1 \<Longrightarrow> \<forall>j < k. settled (gs_results s ! j)"
    and "run_cases w cap rows s = (s', failure)"
  shows "sound_state s' \<and> gs_open s' = gs_open s \<and> option_all short_exception failure
    \<and> (case failure of None \<Rightarrow> measured_clean s' \<and> (gs_reward s' = Some 1 \<longrightarrow> list_all settled (gs_results s'))
       | Some e \<Rightarrow> gs_cleanup s')"
  using assms(2-)
proof (induction rows arbitrary: k s)
  case Nil
  then have "[k..<length (gs_results s)] = []" unfolding rows_from_def by simp
  then have "length (gs_results s) \<le> k" unfolding upt_eq_Nil_conv by auto
  with Nil show ?case by (auto simp: measured_clean_def list_all_length)
next
  case (Cons row rows)
  obtain i c inp expected where row: "row = (i, c, inp, expected)" by (cases row)
  have "[k..<length (gs_results s)] = i # map fst rows"
    using Cons.prems(3) unfolding rows_from_def row by simp
  then have "k < length (gs_results s) \<and> k = i \<and> [k + 1..<length (gs_results s)] = map fst rows"
    unfolding upt_eq_Cons_conv .
  then have upt: "k < length (gs_results s)" "i = k" "map fst rows = [Suc k..<length (gs_results s)]"
    by (metis Suc_eq_plus1)+
  have c: "rz_mandatory c" "valid_realized c" "cr_case_id (gs_results s ! i) = rz_case_id c"
    using Cons.prems(3) by (auto simp: rows_from_def row)
  show ?case
  proof (cases "gw_elapsed w i \<ge> gw_max_wall_seconds w")
    case True
    then have "s' = verdict D_REJECTED (Some 0) ''declared total grading wall budget exceeded'' s" "failure = None"
      using Cons.prems(5) by (simp_all add: row)
    with Cons.prems(1,2) show ?thesis
      by (simp add: verdict_sound short_bound reason_lengths measured_clean_def)
  next
    case budget: False
    show ?thesis
    proof (cases "bind_result (execution_request (gw_client w) (gs_objects s) (gw_runtime_policy w) inp) (gw_execute w i)")
      case (Inl e)
      have "short_exception e"
        using Inl assms(1) execution_request_short [of "gw_client w" "gs_objects s" "gw_runtime_policy w" inp]
        by (cases "execution_request (gw_client w) (gs_objects s) (gw_runtime_policy w) inp")
          (auto simp: world_ok_def execution_ok_def split: sum.splits)
      moreover have "s' = s\<lparr>gs_failed := Some C_execution\<rparr>" "failure = Some e"
        using Inl budget Cons.prems(5) by (simp_all add: row)
      moreover have "sound_state (s\<lparr>gs_failed := Some C_execution\<rparr>)"
        using Cons.prems(1) by (simp add: sound_state_def)
      ultimately show ?thesis using Cons.prems(2) by simp
    next
      case (Inr res)
      then have out: "valid_ref (xr_evidence res)" "valid_cost (xr_cost res)"
        using assms(1) by (auto simp: world_ok_def execution_ok_def result_simps split: sum.splits)
      obtain s1 goes_on where s1: "settle_case cap i c inp expected res s = (s1, goes_on)" by fastforce
      have i: "i < length (gs_results s)" using upt by simp
      note step = settle_case_sound [OF s1 c(1,2) out Cons.prems(1) i c(3)]
      show ?thesis
      proof (cases goes_on)
        case True
        have "length (gs_results s1) = length (gs_results s)" using step(2) by (metis length_map)
        then have rows: "rows_from (Suc k) rows (gs_results s1)"
          using rows_from_ids [OF step(2) Cons.prems(3)] upt by (auto simp: rows_from_def row)
        have "\<forall>j < Suc k. settled (gs_results s1 ! j)" if "gs_reward s1 = Some 1"
          using step(5,6) that Cons.prems(4) upt(2) by (metis less_Suc_eq)
        from Cons.IH [OF step(1) _ rows this] step(3,8) True Inr budget s1 Cons.prems(5)
        show ?thesis by (simp add: row)
      next
        case False
        with step Inr budget s1 Cons.prems(5) show ?thesis by (auto simp: row measured_clean_def)
      qed
    qed
  qed
qed


section \<open>The whole run\<close>

definition finished :: "grade_state \<Rightarrow> bool" where
  "finished s \<longleftrightarrow> sound_state s \<and> measured_clean s \<and> (gs_reward s = Some 1 \<longrightarrow> list_all settled (gs_results s))"

definition step_ok :: "grade_state \<times> grade_exception option \<Rightarrow> bool" where
  "step_ok r \<longleftrightarrow> (case r of (s, None) \<Rightarrow> finished s | (s, Some e) \<Rightarrow> sound_state s \<and> gs_cleanup s \<and> short_exception e)"

lemma step_ok_simps [simp]:
  "step_ok (s, None) = finished s" "step_ok (s, Some e) = (sound_state s \<and> gs_cleanup s \<and> short_exception e)"
  by (simp_all add: step_ok_def)

lemma finished_zero:
  "sound_state s \<Longrightarrow> short_reason m \<Longrightarrow> sound_verdict d r \<Longrightarrow> r \<noteq> Some 1 \<Longrightarrow> gs_cleanup s \<or> r = None
     \<Longrightarrow> finished (verdict d r m s)"
  by (auto simp: finished_def measured_clean_def verdict_sound)

lemma run_cases_ok:
  assumes "world_ok w" "sound_state s" "gs_cleanup s" "rows_from 0 rows (gs_results s)"
  shows "step_ok (run_cases w cap rows s)"
proof -
  obtain s' failure where run: "run_cases w cap rows s = (s', failure)" by fastforce
  from run_cases_sound [OF assms _ this] show ?thesis
    by (cases failure) (auto simp: run finished_def)
qed

text \<open>A manifest with its loaded inputs, and the results before any case has run.\<close>

definition ready :: "loaded_verifier \<Rightarrow> realized_case list \<Rightarrow> grade_state \<Rightarrow> bool" where
  "ready checked cases s \<longleftrightarrow> sound_state s \<and> gs_cleanup s \<and> gs_manifest s \<noteq> None \<and> cases \<noteq> []
     \<and> length (lv_inputs checked) = length cases \<and> length (lv_expected checked) = length cases
     \<and> (\<forall>c \<in> set cases. rz_mandatory c \<and> valid_realized c) \<and> map cr_case_id (gs_results s) = map rz_case_id cases"

lemma ready_rows:
  assumes "ready checked cases s"
  shows "rows_from 0 (zip [0..<length cases] (zip cases (zip (lv_inputs checked) (lv_expected checked)))) (gs_results s)"
proof -
  have len: "length (gs_results s) = length cases" using assms unfolding ready_def by (metis length_map)
  have "cr_case_id (gs_results s ! i) = rz_case_id (cases ! i)" if "i < length cases" for i
    using assms that len unfolding ready_def by (metis nth_map)
  with assms len show ?thesis
    by (auto simp: rows_from_def ready_def in_set_zip)
qed

lemma build_step:
  assumes "world_ok w" "ready checked cases s" "gs_source s \<noteq> None"
  shows "step_ok (grade_build w checked cases s)"
proof -
  have build: "build_ok (gw_build w)" using assms(1) by (simp add: world_ok_def)
  have s: "sound_state s" "gs_cleanup s" using assms(2) by (simp_all add: ready_def)
  show ?thesis
  proof (cases "gw_build w")
    case (Build_succeeded ev cost)
    let ?s = "verdict D_SUCCESS (Some 1) ''all repository observations match frozen H outputs''
      (s\<lparr>gs_build_evidence := Some ev, gs_runtime_evidence := gs_runtime_evidence s @ [ev], gs_costs := gs_costs s @ [cost]\<rparr>)"
    have "gs_results s \<noteq> []" using assms(2) by (auto simp: ready_def)
    then have "sound_state ?s" using build Build_succeeded s(1) assms(2,3)
      by (simp add: sound_state_def ready_def short_bound reason_lengths)
    moreover have "gs_cleanup ?s" "rows_from 0 (zip [0..<length cases] (zip cases (zip (lv_inputs checked) (lv_expected checked)))) (gs_results ?s)"
      using s(2) ready_rows [OF assms(2)] by simp_all
    ultimately show ?thesis unfolding grade_build_def Build_succeeded build_outcome.case by (rule run_cases_ok [OF assms(1)])
  next
    case (Build_failed ev category cleanup reason)
    have short: "short_reason (''build '' @ reason)"
      by (rule short_prefixed [of _ _ 1000]) (use build Build_failed in \<open>simp_all add: reason_lengths\<close>)
    let ?s = "s\<lparr>gs_failed := Some C_construction, gs_build_evidence := Some ev,
      gs_runtime_evidence := gs_runtime_evidence s @ [ev], gs_cleanup := cleanup\<rparr>"
    have "sound_state ?s" using s(1) build Build_failed by (simp add: sound_state_def)
    from finished_zero [OF this short] show ?thesis
      by (cases category; cases cleanup) (simp_all add: grade_build_def Build_failed)
  next
    case (Build_raised e)
    with s build show ?thesis by (simp add: grade_build_def sound_state_def)
  qed
qed


lemma stored_ref: "store_bytes vc objs data kind = Inr (ref, objs') \<Longrightarrow> valid_ref ref"
  by (auto simp: store_bytes_def Let_def from_objects_def put_bytes_def raise_if_eq_Inr dest: put_Inr(3) split: sum.splits)

lemma store_short: "fails_short (store_bytes vc objs data kind)"
  by (simp add: store_bytes_def Let_def from_objects_short)

lemma fails_short_Inl: "fails_short m \<Longrightarrow> m = Inl e \<Longrightarrow> short_exception e"
  by simp

lemma source_step:
  assumes "world_ok w" "ready checked cases s"
  shows "step_ok (grade_source w checked cases files s)"
proof -
  have s: "sound_state s" "gs_cleanup s" using assms(2) by (simp_all add: ready_def)
  let ?put = "bind_result (case to_tar (uc_tar (vc_submissions (gw_client w))) files of
      Inl e \<Rightarrow> Inl (source_exception e) | Inr text \<Rightarrow> Inr text)
    (\<lambda>text. store_bytes (gw_client w) (gs_objects s) text ''source-archive'')"
  have short: "fails_short ?put"
    by (intro bind_short store_short) (simp add: source_exception_short split: sum.split)
  show ?thesis
  proof (cases ?put)
    case (Inl e)
    with short s show ?thesis by (simp add: grade_source_def)
  next
    case (Inr r)
    obtain ref objs where r: "r = (ref, objs)" by (cases r)
    have ref: "valid_ref ref" using Inr stored_ref by (auto simp: r result_simps)
    let ?s = "s\<lparr>gs_source := Some ref, gs_objects := objs\<rparr>"
    have sound: "sound_state ?s" using s(1) ref by (simp add: sound_state_def)
    have opens: "fails_short (bind_result (gw_recipe w) (\<lambda>_. gw_open_workspace w))"
      using assms(1) by (intro bind_short) (simp_all add: world_ok_def)
    show ?thesis
    proof (cases "bind_result (gw_recipe w) (\<lambda>_. gw_open_workspace w)")
      case (Inl e)
      with Inr opens sound s(2) show ?thesis by (simp add: grade_source_def r)
    next
      case opened: (Inr u)
      have "ready checked cases (?s\<lparr>gs_open := True\<rparr>)"
        using assms(2) sound by (simp add: ready_def sound_state_def)
      from build_step [OF assms(1) this] Inr opened show ?thesis by (simp add: grade_source_def r)
    qed
  qed
qed

definition loaded_ok :: "loaded_verifier \<Rightarrow> realized_case list \<Rightarrow> bool" where
  "loaded_ok checked cases \<longleftrightarrow> cases \<noteq> [] \<and> distinct (map rz_case_id cases)
     \<and> length (lv_inputs checked) = length cases \<and> length (lv_expected checked) = length cases
     \<and> (\<forall>c \<in> set cases. rz_mandatory c \<and> valid_realized c)"

lemma loaded_step:
  assumes "world_ok w" "sound_state s" "gs_cleanup s" "gs_reward s = None" "loaded_ok checked (cm_cases manifest)"
  shows "step_ok (grade_loaded w submission checked policy manifest s)"
proof -
  let ?s = "s\<lparr>gs_results := map (\<lambda>c. case_record c Case_not_run None [] None ''not executed'') (cm_cases manifest)\<rparr>"
  have ids: "map cr_case_id (gs_results ?s) = map rz_case_id (cm_cases manifest)"
    by (simp add: case_record_def)
  have reason: "short_reason ''not executed''" by (simp add: short_bound reason_lengths)
  have "valid_case_result (case_record c Case_not_run None [] None ''not executed'')" if "c \<in> set (cm_cases manifest)" for c
    using assms(5) that valid_case_record(2) [OF _ _ reason, of c "rz_input_plan c"]
    by (simp add: loaded_ok_def valid_realized_def)
  then have sound: "sound_state ?s"
    using assms(2,4,5) unfolding sound_state_def loaded_ok_def ids by (simp add: list_all_iff)
  let ?put = "store_bytes (gw_client w) (gs_objects ?s)
    (canonical_json (uc_runtime (vc_submissions (gw_client w))) (gw_doc_manifest w manifest)) ''m4-case-manifest''"
  show ?thesis
  proof (cases ?put)
    case (Inl e)
    with sound assms(3) fails_short_Inl [OF store_short Inl] show ?thesis by (simp add: grade_loaded_def Let_def)
  next
    case (Inr r)
    obtain ref objs where r: "r = (ref, objs)" by (cases r)
    let ?s1 = "?s\<lparr>gs_manifest := Some ref, gs_objects := objs\<rparr>"
    let ?files = "resolve (vc_submissions (gw_client w)\<lparr>uc_policy := policy\<rparr>) objs submission (tb_baseline (lv_task checked))
      (rc_allowed_changes (lv_contract checked))"
    have sound1: "sound_state ?s1" using sound stored_ref [OF Inr [unfolded r]] by (simp add: sound_state_def)
    have reject: "short_reason (''source submission rejected: '' @ clip 800 m)" for m
      by (rule short_prefixed [OF _ clip_bound]) (simp_all add: reason_lengths)
    show ?thesis
    proof (cases ?files)
      case (Inl e)
      with Inr assms(3) sound1 finished_zero [OF sound1 reject] show ?thesis
        by (cases "rejects_submission e") (simp_all add: grade_loaded_def Let_def r source_exception_short)
    next
      case (Inr files)
      have "ready checked (cm_cases manifest) ?s1"
        using sound1 assms(3,5) ids by (simp add: ready_def loaded_ok_def)
      from source_step [OF assms(1) this] Inr \<open>?put = Inr r\<close> show ?thesis by (simp add: grade_loaded_def Let_def r)
    qed
  qed
qed


lemma typed_ref: "typed_artifact vc objs ref cast = Inr x \<Longrightarrow> valid_ref ref"
  by (auto simp: typed_artifact_def Let_def result_simps from_objects_def get_artifact_Inr split: sum.splits)

lemma validated_bundle:
  assumes "validate_verifier_bundle vc objs v contract environment baseline = Inr (c, recipe, inputs, expected)"
  shows "distinct (map cd_case_id (vb_cases v))" "vb_cases v \<noteq> []"
    "length inputs = length (vb_cases v)" "length expected = length (vb_cases v)"
  using assms
  by (auto simp: validate_verifier_bundle_def Let_def result_simps map_result_Inr_iff valid_verifier_bundle_def
      manifest_matches_checks_def unique_checks_def dest: list_all2_lengthD)

lemma loaded_facts:
  assumes "load_verifier vc objs task = Inr checked"
  shows "valid_ref (tb_private_oracle (lv_task checked))"
    and "materialize_manifest checked seed = Inr manifest \<Longrightarrow> loaded_ok checked (cm_cases manifest)"
proof -
  obtain v contract recipe inputs expected where v: "typed_artifact vc objs (tb_private_oracle (lv_task checked)) as_verifier = Inr v"
    "lv_verifier checked = v" "lv_inputs checked = inputs" "lv_expected checked = expected"
    "validate_verifier_bundle vc objs v (tb_contract (lv_task checked)) (tb_environment (lv_task checked))
       (tb_baseline (lv_task checked)) = Inr (contract, recipe, inputs, expected)"
    using assms by (auto simp: load_verifier_def result_simps)
  show "valid_ref (tb_private_oracle (lv_task checked))" by (rule typed_ref [OF v(1)])
  assume "materialize_manifest checked seed = Inr manifest"
  then have "cm_cases manifest = map (\<lambda>c. \<lparr>rz_case_id = cd_case_id c, rz_requirement_ids = cd_requirement_ids c,
      rz_input_plan = cd_inputs c, rz_expected = cd_expected c, rz_mandatory = True\<rparr>) (vb_cases v)"
    and "list_all valid_realized (cm_cases manifest)"
    by (auto simp: materialize_manifest_def Let_def result_simps v(2) valid_case_manifest_def)
  with validated_bundle [OF v(5)] show "loaded_ok checked (cm_cases manifest)"
    by (auto simp: loaded_ok_def v(3,4) comp_def list_all_iff)
qed

lemma start_sound: "sound_state (start_state objs)"
  by (simp add: start_state_def sound_state_def short_bound reason_lengths)

lemma body_step:
  assumes "world_ok w"
  shows "step_ok (grade_body w task submission seed (start_state objs))"
proof -
  let ?s = "start_state objs"
  have s: "gs_cleanup ?s" "gs_reward ?s = None" by (simp_all add: start_state_def)
  show ?thesis
  proof (cases "load_verifier (gw_client w) (gs_objects ?s) task")
    case (Inl e)
    with start_sound s fails_short_Inl [OF load_verifier_short Inl] show ?thesis by (simp add: grade_body_def)
  next
    case loaded: (Inr checked)
    show ?thesis
    proof (cases "gw_select_task w checked")
      case (Inl e)
      have "fails_short (gw_select_task w checked)" using assms by (simp add: world_ok_def)
      with Inl loaded start_sound s show ?thesis by (simp add: grade_body_def)
    next
      case chosen: (Inr policy)
      let ?s1 = "?s\<lparr>gs_verifier := Some (tb_private_oracle (lv_task checked))\<rparr>"
      have s1: "sound_state ?s1" using start_sound loaded_facts(1) [OF loaded] by (simp add: sound_state_def)
      show ?thesis
      proof (cases "materialize_manifest checked seed")
        case (Inl e)
        with loaded chosen s1 s fails_short_Inl [OF materialize_short Inl] show ?thesis by (simp add: grade_body_def Let_def)
      next
        case (Inr manifest)
        from loaded_step [OF assms s1 _ _ loaded_facts(2) [OF loaded Inr]] loaded chosen Inr s
        show ?thesis by (simp add: grade_body_def Let_def)
      qed
    qed
  qed
qed

lemma separated:
  "code_points (t @ '': '' @ m) = code_points t + 2 + code_points m" "1 \<le> code_points (t @ '': '' @ m)"
  using code_points_nonneg [of t] code_points_nonneg [of m] by (simp_all add: code_points_Cons del: code_points_nonneg)

lemma handled:
  assumes "sound_state s" "gs_cleanup s" "short_exception e"
  shows "finished (handle_exception e s) \<and> gs_open (handle_exception e s) = gs_open s"
proof -
  have lit: "short_reason (''offline dependency resolution unavailable: '' @ clip 800 m)"
    "short_reason (''candidate declarations rejected: '' @ clip 800 m)"
    "short_reason (''invalid or unsupported verifier: '' @ clip 800 m)" for m
    by (rule short_prefixed [OF _ clip_bound]; simp add: reason_lengths)+
  have tail: "short_reason (t @ '': '' @ clip 800 m)" if "code_points t \<le> 200" for t m
    using that clip_bound [of 800 m] separated [of t "clip 800 m"] by (simp add: short_bound del: append_Cons)
  show ?thesis
  proof (cases e)
    case (EvidencePublicationFailed m retried)
    have "short_reason (clip 900 m)"
      using assms(3) clip_bound [of 900 m] clip_nonempty [of m 900] by (simp add: EvidencePublicationFailed short_bound)
    moreover have "sound_state (case retried of Some ref \<Rightarrow> s\<lparr>gs_runtime_evidence := gs_runtime_evidence s @ [ref]\<rparr>
        | None \<Rightarrow> s\<lparr>gs_pending := True\<rparr>)"
      using assms(1,3) by (cases retried) (simp_all add: EvidencePublicationFailed sound_state_def)
    ultimately show ?thesis
      by (auto simp: EvidencePublicationFailed intro!: finished_zero split: option.split)
  qed (use assms lit tail in \<open>auto intro!: finished_zero\<close>)
qed

lemma closed:
  assumes "world_ok w" "finished s"
  shows "finished (close_workspace w s)"
proof (cases "gs_open s \<and> gw_close w \<noteq> None")
  case True
  then obtain t m where fail: "gw_close w = Some (t, m)" by auto
  have "code_points t \<le> 200" using assms(1) by (simp add: world_ok_def fail)
  then have "short_reason (''workspace cleanup unverified: '' @ t @ '': '' @ clip 700 m)"
    using clip_bound [of 700 m] separated [of t "clip 700 m"]
    by (intro short_prefixed [of _ _ 902]) (simp_all add: reason_lengths del: append_Cons)
  moreover have "sound_state (s\<lparr>gs_cleanup := False\<rparr>)" using assms(2) by (simp add: finished_def sound_state_def)
  ultimately show ?thesis using True fail by (simp add: close_workspace_def finished_zero)
qed (use assms in \<open>auto simp: close_workspace_def split: option.split\<close>)

lemma run_finished:
  assumes "world_ok w"
  shows "finished (grade_run w task submission seed objs)"
proof -
  obtain s failure where run: "grade_body w task submission seed (start_state objs) = (s, failure)" by fastforce
  with body_step [OF assms, of task submission seed objs] assms show ?thesis
    by (cases failure) (auto simp: grade_run_def closed handled)
qed


section \<open>The receipt\<close>

lemma coherent_receipt:
  assumes "finished s"
  shows "passes (receipt_coherent_checks (receipt_of w task submission seed s))"
proof -
  have s: "distinct (map cr_case_id (gs_results s))" "sound_verdict (gs_disposition s) (gs_reward s)"
    "gs_reward s = Some 1 \<longrightarrow> gs_manifest s \<noteq> None \<and> gs_source s \<noteq> None \<and> gs_build_evidence s \<noteq> None
       \<and> gs_results s \<noteq> [] \<and> list_all settled (gs_results s)"
    using assms unfolding finished_def sound_state_def by blast+
  have clean: "gs_cleanup s \<or> gs_reward s = None" using assms unfolding finished_def measured_clean_def by simp
  have v: "(gs_disposition s \<in> {D_SUCCESS, D_REJECTED}) = (gs_reward s \<noteq> None)"
    "gs_disposition s = D_SUCCESS \<longleftrightarrow> gs_reward s = Some 1" "gs_disposition s = D_REJECTED \<longleftrightarrow> gs_reward s = Some 0"
    using s(2) unfolding sound_verdict_def by auto
  show ?thesis
  proof (cases "gs_reward s = Some 1")
    case True
    then have all: "gs_results s \<noteq> []" "\<forall>c \<in> set (gs_results s). settled c" using s(3) by (auto simp: list_all_iff)
    then have "list_ex cr_mandatory (gs_results s)" by (auto simp: list_ex_iff settled_def neq_Nil_conv)
    moreover have "\<not> list_ex (\<lambda>c. cr_status c \<noteq> Case_completed \<or> (cr_mandatory c \<and> cr_passed c \<noteq> Some True)) (gs_results s)"
      using all(2) by (auto simp: list_ex_iff settled_def)
    ultimately show ?thesis using True all(1) s clean v
      by (simp add: receipt_coherent_checks_def receipt_of_def unique_checks_def)
  next
    case False
    with s clean v show ?thesis by (auto simp: receipt_coherent_checks_def receipt_of_def unique_checks_def)
  qed
qed

lemma finished_receipt:
  assumes "finished s" "is_revision (gw_revision w)" "valid_request (GradeRequest task submission seed)" "seed < 2^63"
  shows "valid_grade_receipt (receipt_of w task submission seed s)"
proof -
  have s: "option_all valid_ref (gs_verifier s)" "option_all valid_ref (gs_manifest s)" "option_all valid_ref (gs_source s)"
    "option_all valid_ref (gs_build_evidence s)" "list_all valid_ref (gs_runtime_evidence s)"
    "list_all valid_case_result (gs_results s)" "short_reason (gs_reason s)" "sound_verdict (gs_disposition s) (gs_reward s)"
    using assms(1) unfolding finished_def sound_state_def by blast+
  have "option_all (\<lambda>n. 0 \<le> n \<and> n \<le> 1) (gs_reward s)" using s(8) unfolding sound_verdict_def by auto
  moreover have "list_all name_ok (map cr_case_id (gs_results s))"
    using s(6) by (auto simp: list_all_iff valid_case_result_def)
  ultimately show ?thesis
    using s assms(2-) coherent_receipt [OF assms(1)] by (simp add: valid_grade_receipt_def receipt_of_def)
qed

text \<open>
  C39: grading always ends in a receipt that its own validators accept. Whatever the worker runtime
  answers (build failures, exceptions with messages of any length, cases that time out or break the
  observation protocol, a failing cleanup), the receipt of a well-formed request is well typed and
  coherent: reward and disposition agree, unverified cleanup has no reward, and a reward of one comes
  with the complete execution identity and every case passed.
\<close>

theorem receipt_valid:
  assumes "world_ok w" and "valid_request (GradeRequest task submission seed)" and "seed < 2^63"
  shows "\<exists>r. valid_grade_receipt r \<and> gr_task r = task \<and> gr_submission r = submission \<and> gr_case_seed r = seed
    \<and> (grade w task submission seed objs = Publication_failed r
       \<or> (\<exists>receipt objs'. grade w task submission seed objs = Published r receipt objs'))"
proof -
  let ?s = "grade_run w task submission seed objs"
  let ?r = "receipt_of w task submission seed ?s"
  have "is_revision (gw_revision w)" using assms(1) by (simp add: world_ok_def)
  then have valid: "valid_grade_receipt ?r" by (rule finished_receipt [OF run_finished [OF assms(1)] _ assms(2,3)])
  have "gr_task ?r = task \<and> gr_submission ?r = submission \<and> gr_case_seed ?r = seed" by (simp add: receipt_of_def)
  moreover have "grade w task submission seed objs = Publication_failed ?r
      \<or> (\<exists>receipt objs'. grade w task submission seed objs = Published ?r receipt objs')"
    using assms(2,3) valid by (auto simp: grade_def Let_def publish_grade_def split: sum.split)
  ultimately show ?thesis using valid by blast
qed

section \<open>The reward\<close>

text \<open>A case earns its part of the reward: started within the budget, executed, observed and matching.\<close>

definition case_passes ::
  "grade_world \<Rightarrow> int \<Rightarrow> objects \<Rightarrow> nat \<times> realized_case \<times> behavioral_input \<times> process_observation \<Rightarrow> bool" where
  "case_passes w cap objs row = (let (i, c, inp, expected) = row in
     gw_elapsed w i < gw_max_wall_seconds w
     \<and> (\<exists>request out observed. execution_request (gw_client w) objs (gw_runtime_policy w) inp = Inr request
          \<and> gw_execute w i request = Inr out \<and> observe out cap = Inr observed \<and> matches inp observed expected))"

lemma settle_case_reward:
  assumes "settle_case cap i c inp expected output s = (s', goes_on)" "rz_mandatory c"
  shows "gs_reward s' = Some 1 \<longleftrightarrow> gs_reward s = Some 1
      \<and> (\<exists>observed. observe output cap = Inr observed \<and> matches inp observed expected)"
    "goes_on \<or> gs_reward s' = None"
  using assms by (auto simp: settle_case_def Let_def split: if_splits sum.splits dest!: observe_clean)

lemma run_cases_reward:
  assumes "\<forall>(i, c, inp, expected) \<in> set rows. rz_mandatory c" "run_cases w cap rows s = (s', failure)"
  shows "gs_reward s' = Some 1 \<and> failure = None \<longleftrightarrow>
    gs_reward s = Some 1 \<and> list_all (case_passes w cap (gs_objects s)) rows"
  using assms
proof (induction rows arbitrary: s)
  case (Cons row rows)
  obtain i c inp expected where row: "row = (i, c, inp, expected)" by (cases row)
  let ?run = "bind_result (execution_request (gw_client w) (gs_objects s) (gw_runtime_policy w) inp) (gw_execute w i)"
  show ?case
  proof (cases "gw_elapsed w i < gw_max_wall_seconds w")
    case False
    then show ?thesis using Cons.prems(2) by (auto simp: row case_passes_def)
  next
    case budget: True
    show ?thesis
    proof (cases ?run)
      case (Inl e)
      then show ?thesis using budget Cons.prems(2)
        by (auto simp: row case_passes_def)
    next
      case (Inr out)
      obtain s1 goes_on where s1: "settle_case cap i c inp expected out s = (s1, goes_on)" by fastforce
      have mandatory: "rz_mandatory c" using Cons.prems(1) by (simp add: row)
      have passes: "case_passes w cap (gs_objects s) row
          \<longleftrightarrow> (\<exists>observed. observe out cap = Inr observed \<and> matches inp observed expected)"
        using Inr budget by (auto simp: row case_passes_def result_simps)
      note step = settle_case_reward [OF s1 mandatory]
      have objs: "gs_objects s1 = gs_objects s" by (rule settle_case_frame(8) [OF s1])
      show ?thesis
      proof (cases goes_on)
        case True
        then have "run_cases w cap rows s1 = (s', failure)" using Cons.prems(2) budget Inr s1 by (simp add: row)
        from Cons.IH [OF _ this] Cons.prems(1) step(1) passes objs show ?thesis by auto
      next
        case False
        then have "s' = s1" "failure = None" using Cons.prems(2) budget Inr s1 by (simp_all add: row)
        with False step passes show ?thesis by auto
      qed
    qed
  qed
qed auto


lemma run_cases_open: "gs_open (fst (run_cases w cap rows s)) = gs_open s"
proof (induction w cap rows s rule: run_cases.induct)
  case (2 w cap i c inp expected rows s)
  then show ?case
    by (auto simp: settle_case_frame(9) split: sum.split prod.split)
qed simp

definition earned :: "grade_state \<times> grade_exception option \<Rightarrow> bool" where
  "earned r \<longleftrightarrow> gs_reward (fst r) = Some 1 \<and> snd r = None"

lemma earned_simps [simp]:
  "\<not> earned (s, Some e)" "earned (s, None) \<longleftrightarrow> gs_reward s = Some 1"
  by (simp_all add: earned_def)

definition case_rows :: "loaded_verifier \<Rightarrow> realized_case list \<Rightarrow> (nat \<times> realized_case \<times> behavioral_input \<times> process_observation) list" where
  "case_rows checked cases = zip [0..<length cases] (zip cases (zip (lv_inputs checked) (lv_expected checked)))"

definition output_cap :: "loaded_verifier \<Rightarrow> int" where
  "output_cap checked = vp_output_limit_bytes (vb_permissions (lv_verifier checked))"

lemma build_earned:
  assumes "\<forall>c \<in> set cases. rz_mandatory c"
  shows "earned (grade_build w checked cases s) \<longleftrightarrow> (\<exists>ev cost. gw_build w = Build_succeeded ev cost
      \<and> list_all (case_passes w (output_cap checked) (gs_objects s)) (case_rows checked cases))"
    "earned (grade_build w checked cases s) \<Longrightarrow> gs_open (fst (grade_build w checked cases s)) = gs_open s"
proof -
  have "\<forall>(i, c, inp, expected) \<in> set (case_rows checked cases). rz_mandatory c"
    using assms by (auto simp: case_rows_def in_set_zip)
  from run_cases_reward [OF this]
  have run: "earned (run_cases w cap (case_rows checked cases) t)
      \<longleftrightarrow> gs_reward t = Some 1 \<and> list_all (case_passes w cap (gs_objects t)) (case_rows checked cases)" for cap t
    unfolding earned_def by (metis prod.collapse)
  show "earned (grade_build w checked cases s) \<longleftrightarrow> (\<exists>ev cost. gw_build w = Build_succeeded ev cost
      \<and> list_all (case_passes w (output_cap checked) (gs_objects s)) (case_rows checked cases))"
    by (cases "gw_build w") (simp_all add: grade_build_def Let_def run case_rows_def [symmetric] output_cap_def)
  show "earned (grade_build w checked cases s) \<Longrightarrow> gs_open (fst (grade_build w checked cases s)) = gs_open s"
    by (cases "gw_build w") (simp_all add: grade_build_def Let_def run_cases_open split: if_splits)
qed

definition source_saved :: "grade_world \<Rightarrow> source_archive \<Rightarrow> objects \<Rightarrow> objects \<Rightarrow> bool" where
  "source_saved w files objs objs' \<longleftrightarrow> (\<exists>text ref. to_tar (uc_tar (vc_submissions (gw_client w))) files = Inr text
     \<and> store_bytes (gw_client w) objs text ''source-archive'' = Inr (ref, objs'))"

lemma source_earned:
  assumes "\<forall>c \<in> set cases. rz_mandatory c"
  shows "earned (grade_source w checked cases files s) \<longleftrightarrow> (\<exists>objs ev cost. source_saved w files (gs_objects s) objs
      \<and> gw_recipe w = Inr () \<and> gw_open_workspace w = Inr () \<and> gw_build w = Build_succeeded ev cost
      \<and> list_all (case_passes w (output_cap checked) objs) (case_rows checked cases))"
    "earned (grade_source w checked cases files s) \<Longrightarrow> gs_open (fst (grade_source w checked cases files s))"
proof -
  let ?put = "bind_result (case to_tar (uc_tar (vc_submissions (gw_client w))) files of
      Inl e \<Rightarrow> Inl (source_exception e) | Inr text \<Rightarrow> Inr text)
    (\<lambda>text. store_bytes (gw_client w) (gs_objects s) text ''source-archive'')"
  have saved: "source_saved w files (gs_objects s) objs \<longleftrightarrow> (\<exists>ref. ?put = Inr (ref, objs))" for objs
    by (auto simp: source_saved_def result_simps split: sum.splits)
  have opened: "bind_result (gw_recipe w) (\<lambda>_. gw_open_workspace w) = Inr () \<longleftrightarrow> gw_recipe w = Inr () \<and> gw_open_workspace w = Inr ()"
    by (auto simp: result_simps)
  show "earned (grade_source w checked cases files s) \<longleftrightarrow> (\<exists>objs ev cost. source_saved w files (gs_objects s) objs
      \<and> gw_recipe w = Inr () \<and> gw_open_workspace w = Inr () \<and> gw_build w = Build_succeeded ev cost
      \<and> list_all (case_passes w (output_cap checked) objs) (case_rows checked cases))"
    unfolding saved
    by (cases ?put; cases "bind_result (gw_recipe w) (\<lambda>_. gw_open_workspace w)")
      (auto simp: grade_source_def Let_def build_earned(1) [OF assms] opened result_simps)
  show "earned (grade_source w checked cases files s) \<Longrightarrow> gs_open (fst (grade_source w checked cases files s))"
    using build_earned(2) [OF assms, of w checked]
    by (auto simp: grade_source_def Let_def split: sum.splits)
qed


definition manifest_saved :: "grade_world \<Rightarrow> case_manifest \<Rightarrow> objects \<Rightarrow> objects \<Rightarrow> bool" where
  "manifest_saved w manifest objs objs' \<longleftrightarrow> (\<exists>ref. store_bytes (gw_client w) objs
     (canonical_json (uc_runtime (vc_submissions (gw_client w))) (gw_doc_manifest w manifest)) ''m4-case-manifest'' = Inr (ref, objs'))"

abbreviation resolved_source :: "grade_world \<Rightarrow> sandbox_policy \<Rightarrow> loaded_verifier \<Rightarrow> artifact_ref \<Rightarrow> objects \<Rightarrow> source_error + source_archive" where
  "resolved_source w policy checked submission objs \<equiv> resolve (vc_submissions (gw_client w)\<lparr>uc_policy := policy\<rparr>) objs submission
     (tb_baseline (lv_task checked)) (rc_allowed_changes (lv_contract checked))"

lemma loaded_earned:
  assumes "\<forall>c \<in> set (cm_cases manifest). rz_mandatory c"
  shows "earned (grade_loaded w submission checked policy manifest s) \<longleftrightarrow> (\<exists>objs1 objs2 files ev cost.
      manifest_saved w manifest (gs_objects s) objs1 \<and> resolved_source w policy checked submission objs1 = Inr files
      \<and> source_saved w files objs1 objs2 \<and> gw_recipe w = Inr () \<and> gw_open_workspace w = Inr ()
      \<and> gw_build w = Build_succeeded ev cost
      \<and> list_all (case_passes w (output_cap checked) objs2) (case_rows checked (cm_cases manifest)))"
    "earned (grade_loaded w submission checked policy manifest s) \<Longrightarrow>
      gs_open (fst (grade_loaded w submission checked policy manifest s))"
proof -
  let ?put = "store_bytes (gw_client w) (gs_objects s)
    (canonical_json (uc_runtime (vc_submissions (gw_client w))) (gw_doc_manifest w manifest)) ''m4-case-manifest''"
  show "earned (grade_loaded w submission checked policy manifest s) \<longleftrightarrow> (\<exists>objs1 objs2 files ev cost.
      manifest_saved w manifest (gs_objects s) objs1 \<and> resolved_source w policy checked submission objs1 = Inr files
      \<and> source_saved w files objs1 objs2 \<and> gw_recipe w = Inr () \<and> gw_open_workspace w = Inr ()
      \<and> gw_build w = Build_succeeded ev cost
      \<and> list_all (case_passes w (output_cap checked) objs2) (case_rows checked (cm_cases manifest)))"
  proof (cases ?put)
    case (Inr r)
    obtain ref objs where r: "r = (ref, objs)" by (cases r)
    show ?thesis
    proof (cases "resolved_source w policy checked submission objs")
      case (Inl e)
      with Inr show ?thesis
        by (cases "rejects_submission e") (auto simp: grade_loaded_def Let_def manifest_saved_def r)
    next
      case (Inr files)
      with \<open>?put = Inr r\<close> show ?thesis
        by (auto simp: grade_loaded_def Let_def manifest_saved_def r source_earned(1) [OF assms])
    qed
  qed (simp add: grade_loaded_def Let_def manifest_saved_def)
  show "earned (grade_loaded w submission checked policy manifest s) \<Longrightarrow>
      gs_open (fst (grade_loaded w submission checked policy manifest s))"
    using source_earned(2) [OF assms]
    by (auto simp: grade_loaded_def Let_def split: sum.splits option.splits)
qed

lemma manifest_mandatory:
  "materialize_manifest checked seed = Inr manifest \<Longrightarrow> \<forall>c \<in> set (cm_cases manifest). rz_mandatory c"
  by (auto simp: materialize_manifest_def Let_def result_simps)

lemma body_earned:
  "earned (grade_body w task submission seed s) \<longleftrightarrow> (\<exists>checked policy manifest.
      load_verifier (gw_client w) (gs_objects s) task = Inr checked \<and> gw_select_task w checked = Inr policy
      \<and> materialize_manifest checked seed = Inr manifest
      \<and> earned (grade_loaded w submission checked policy manifest
           (s\<lparr>gs_verifier := Some (tb_private_oracle (lv_task checked))\<rparr>)))"
    "earned (grade_body w task submission seed s) \<Longrightarrow> gs_open (fst (grade_body w task submission seed s))"
  using loaded_earned(2) [OF manifest_mandatory]
  by (auto simp: grade_body_def Let_def split: sum.splits)

lemma handled_reward: "gs_reward (handle_exception e s) \<noteq> Some 1"
  by (cases e) (auto split: option.split)

lemma run_earned:
  "gs_reward (grade_run w task submission seed objs) = Some 1 \<longleftrightarrow>
     earned (grade_body w task submission seed (start_state objs)) \<and> gw_close w = None"
proof -
  obtain s failure where body: "grade_body w task submission seed (start_state objs) = (s, failure)" by fastforce
  have close: "gs_reward (close_workspace w t) = Some 1 \<longleftrightarrow> gs_reward t = Some 1 \<and> (\<not> gs_open t \<or> gw_close w = None)" for t
    by (auto simp: close_workspace_def split: option.split)
  show ?thesis
  proof (cases failure)
    case None
    then show ?thesis
      using body_earned(2) [of w task submission seed "start_state objs"] by (auto simp: grade_run_def body close)
  qed (simp add: grade_run_def body close handled_reward)
qed

text \<open>
  C40: the reward is one exactly when every stage of the grading succeeded: the frozen verifier loads and
  yields its case manifest, the submission resolves against the task's baseline, the environment opens and
  builds, every single case starts within the wall budget, executes, is observed cleanly under the output
  limit and matches what was frozen, and the workspace closes. No partial credit, no skipped case.
\<close>

theorem reward_one_iff:
  "gs_reward (grade_run w task submission seed objs) = Some 1 \<longleftrightarrow>
    (\<exists>checked policy manifest objs1 files objs2 ev cost.
       load_verifier (gw_client w) objs task = Inr checked \<and> gw_select_task w checked = Inr policy
     \<and> materialize_manifest checked seed = Inr manifest \<and> manifest_saved w manifest objs objs1
     \<and> resolved_source w policy checked submission objs1 = Inr files \<and> source_saved w files objs1 objs2
     \<and> gw_recipe w = Inr () \<and> gw_open_workspace w = Inr () \<and> gw_build w = Build_succeeded ev cost
     \<and> list_all (case_passes w (output_cap checked) objs2) (case_rows checked (cm_cases manifest))
     \<and> gw_close w = None)"
(is "?reward \<longleftrightarrow> ?stages")
proof -
  let ?s = "\<lambda>checked. start_state objs\<lparr>gs_verifier := Some (tb_private_oracle (lv_task checked))\<rparr>"
  have start: "gs_objects (start_state objs) = objs" by (simp add: start_state_def)
  have loaded: "earned (grade_loaded w submission checked policy manifest (?s checked)) \<longleftrightarrow> (\<exists>objs1 objs2 files ev cost.
      manifest_saved w manifest objs objs1 \<and> resolved_source w policy checked submission objs1 = Inr files
      \<and> source_saved w files objs1 objs2 \<and> gw_recipe w = Inr () \<and> gw_open_workspace w = Inr ()
      \<and> gw_build w = Build_succeeded ev cost
      \<and> list_all (case_passes w (output_cap checked) objs2) (case_rows checked (cm_cases manifest)))"
    if "materialize_manifest checked seed = Inr manifest" for checked policy manifest
    unfolding loaded_earned(1) [OF manifest_mandatory [OF that]] by (simp add: start)
  have run: "?reward \<longleftrightarrow> (\<exists>checked policy manifest. load_verifier (gw_client w) objs task = Inr checked
      \<and> gw_select_task w checked = Inr policy \<and> materialize_manifest checked seed = Inr manifest
      \<and> earned (grade_loaded w submission checked policy manifest (?s checked))) \<and> gw_close w = None"
    unfolding run_earned body_earned(1) start ..
  show ?thesis unfolding run using loaded by blast
qed


section \<open>The properties at work\<close>

text \<open>A controller over the store of the sample submission, asked to grade a task that is not stored there.\<close>

definition grading_client :: verifier_client where
  "grading_client = \<lparr>vc_submissions = sample_uc, vc_input = \<lambda>_. None, vc_observation = \<lambda>_. None, vc_validation = \<lambda>_. None\<rparr>"

definition timed_out_run :: execution_result where
  "timed_out_run = \<lparr>xr_reason = Timed_out, xr_failure_category = Candidate_failure, xr_exit_code = None, xr_stdout = [],
     xr_stderr = [], xr_cleanup_verified = True, xr_evidence = blob_ref CHR ''a'' ''execution-receipt'', xr_cost = discovery_cost\<rparr>"

definition stalling_world :: grade_world where
  "stalling_world = \<lparr>gw_client = grading_client, gw_revision = replicate 40 CHR ''a'', gw_max_wall_seconds = 600,
     gw_select_task = \<lambda>_. Inr (uc_policy sample_uc), gw_runtime_policy = uc_policy sample_uc, gw_recipe = Inr (),
     gw_open_workspace = Inr (), gw_build = Build_succeeded (blob_ref CHR ''9'' ''build-receipt'') discovery_cost,
     gw_execute = \<lambda>_ _. Inr timed_out_run, gw_elapsed = \<lambda>i. of_nat i, gw_close = None, gw_failed_wall = 0,
     gw_failed_cpu = None, gw_controller_wall = 1, gw_controller_cpu = 1, gw_now = ''2024-01-01T00:00:00Z'',
     gw_doc_manifest = \<lambda>_. JNull, gw_doc_receipt = \<lambda>_. JNull\<rparr>"

definition sample_task :: artifact_ref where
  "sample_task = \<lparr>ref_sha256 = sample_digest CHR ''7'', ref_kind = ''TaskBundle'',
     ref_schema_version = the (ARTIFACT_SCHEMA_VERSIONS ''TaskBundle''), ref_visibility = V_PRIVATE, ref_encoding = Enc_json\<rparr>"

lemma stalling_world_ok: "world_ok stalling_world"
proof -
  have "valid_ref (blob_ref CHR ''9'' ''build-receipt'')" "valid_ref (blob_ref CHR ''a'' ''execution-receipt'')"
    "valid_cost discovery_cost" "is_revision (replicate 40 CHR ''a'')" by code_simp+
  then show ?thesis by (simp add: world_ok_def stalling_world_def timed_out_run_def execution_ok_def)
qed

theorem receipt_valid_witness:
  "\<exists>r. valid_grade_receipt r \<and> gr_task r = sample_task \<and> gr_submission r = blob_ref CHR ''e'' ''m4-submission'' \<and> gr_case_seed r = 11
    \<and> (grade stalling_world sample_task (blob_ref CHR ''e'' ''m4-submission'') 11 submitted_store = Publication_failed r
       \<or> (\<exists>receipt objs'. grade stalling_world sample_task (blob_ref CHR ''e'' ''m4-submission'') 11 submitted_store
            = Published r receipt objs'))"
proof (rule receipt_valid [OF stalling_world_ok])
  show "valid_request (GradeRequest sample_task (blob_ref CHR ''e'' ''m4-submission'') 11)" by code_simp
qed simp

end
