(* ===== verification/Spec2Isabelle.thy ===== *)
theory Spec2Isabelle
  imports RegistryGuarantees EvaluationStatistics RegistryApiGuarantees AuditGuarantees TrainingGuarantees GradingGuarantees
begin

text \<open>
  A verification library for the Python package \<^verbatim>\<open>feature_rl\<close> (\<^verbatim>\<open>src/src/feature_rl\<close>). File names below
  are relative to that directory.

  \<^bold>\<open>The program.\<close> The package turns historical feature requests into frozen tasks, grades candidate
  implementations of them in an isolated runtime, and trains and evaluates agents on released tasks. All
  durable data are immutable objects in a content-addressed store (\<^verbatim>\<open>artifacts/store.py\<close>), whose typed
  payloads are the strict models of \<^verbatim>\<open>contracts/models.py\<close>. A registry (\<^verbatim>\<open>registry/\<close>) is an append-only
  event log over those objects: it registers artifacts with their dependencies, runs jobs through claims and
  attempts, keeps a cost ledger and quarantines bad roots. The split planner (\<^verbatim>\<open>splits/closure.py\<close>) and the
  study freeze (\<^verbatim>\<open>evaluation/freeze.py\<close>) keep related sources in one partition; submissions
  (\<^verbatim>\<open>submission/\<close>) are source deltas against a baseline archive (\<^verbatim>\<open>environments/archive.py\<close>); a verifier
  (\<^verbatim>\<open>verifiers/\<close>) is a list of frozen commands with expected observations, and grading (\<^verbatim>\<open>grading/\<close>)
  joins store, verifier, submission and runtime into one receipt, whose reward training
  (\<^verbatim>\<open>training/core.py\<close>, \<^verbatim>\<open>training/state.py\<close>), evaluation (\<^verbatim>\<open>evaluation/statistics.py\<close>) and audits
  (\<^verbatim>\<open>audits/\<close>) consume.

  \<^bold>\<open>Conventions.\<close> A Python string is the list of its UTF-8 bytes; a dict is an association list in insertion
  order; a model is a record and its pydantic constraints and validators are one \<^verbatim>\<open>valid_\<close> predicate, with each
  validator an ordered list of guarded messages (\<^verbatim>\<open>Prelude\<close>). A function that may raise returns a sum, the error
  on the left. Unbounded Python integers are \<^verbatim>\<open>int\<close>; floats are exact rationals, and where the source
  rounds, the rounding, square root and random draws are arguments. SHA-256, the float text, JSON
  parsing, pydantic's parsing of JSON texts, \<^verbatim>\<open>tarfile\<close>, clocks and fresh tokens are arguments as well; what
  a theorem needs of them (a parser inverts the printer, distinct texts have distinct digests) is a named hypothesis, shown
  satisfiable by its witness.

  \<^bold>\<open>Contracts, JSON, documents.\<close> \<^verbatim>\<open>Contracts\<close>, \<^verbatim>\<open>ContractArtifacts\<close> and \<^verbatim>\<open>ContractRuns\<close> hold every model of
  \<^verbatim>\<open>contracts/models.py\<close>; \<^verbatim>\<open>Json\<close> is \<^verbatim>\<open>canonical_json\<close> as an executable printer with the proof that equal texts mean
  equal documents up to key order; \<^verbatim>\<open>Documents\<close> renders the models that enter identities.

  \<^bold>\<open>Registry.\<close> \<^verbatim>\<open>RegistryModels\<close> and \<^verbatim>\<open>RegistryState\<close> are \<^verbatim>\<open>registry/models.py\<close> and \<^verbatim>\<open>registry/state.py\<close>: the state
  record and \<^verbatim>\<open>State.apply\<close> for every event; \<^verbatim>\<open>DependencyGraph\<close> is \<^verbatim>\<open>State.install\<close> with its Kahn pass.
  \<^verbatim>\<open>RegistryInvariants\<close>, \<^verbatim>\<open>RegistryHistory\<close>, \<^verbatim>\<open>RegistryAccounting\<close>, \<^verbatim>\<open>RegistryImpact\<close> and \<^verbatim>\<open>RegistryLifecycle\<close> prove,
  through the locales \<^verbatim>\<open>event_log\<close> and \<^verbatim>\<open>monotone_log\<close> interpreted on \<^verbatim>\<open>State.apply\<close>, the state invariant, that
  accepted events only extend history, the ledger laws, that quarantine is the least closure, and that jobs
  refine a five-state machine. \<^verbatim>\<open>RegistryStorage\<close> is \<^verbatim>\<open>registry/storage.py\<close>: event table, journal file and the
  change transaction as steps of a disk that may crash in between. \<^verbatim>\<open>ClosureCheck\<close> and \<^verbatim>\<open>RegistryApi\<close> are
  \<^verbatim>\<open>registry/core.py\<close> over store and disk. \<^verbatim>\<open>RegistryGuarantees\<close> (C1 to C13) and \<^verbatim>\<open>RegistryApiGuarantees\<close>
  (C26 to C29) state the properties, on the sample history of \<^verbatim>\<open>RegistrySamples\<close>.

  \<^bold>\<open>Splits and evaluation.\<close> \<^verbatim>\<open>SplitClosure\<close> models the disjoint-set forest with path halving; \<^verbatim>\<open>find_root\<close> is a
  partial function, and C14 proves that every walk ends; C15 and C16 identify the result with the connected
  components. \<^verbatim>\<open>EvaluationStudy\<close> (C17 to C19) and \<^verbatim>\<open>EvaluationStatistics\<close> (C20, C21) are the freeze, the
  preregistered grid and the summaries.

  \<^bold>\<open>Store, submissions, grading.\<close> \<^verbatim>\<open>Base64\<close> and \<^verbatim>\<open>ArtifactStore\<close> are the store with its locale
  \<^verbatim>\<open>immutable_store\<close>; \<^verbatim>\<open>StoreGuarantees\<close> (C22 to C25) has the round trips and the confinement of roles.
  \<^verbatim>\<open>Sources\<close> is archives, delta rules and the submission service, \<^verbatim>\<open>SourceGuarantees\<close> (C37, C38) their
  confinement and round trip. \<^verbatim>\<open>Verifiers\<close> loads and cross-checks frozen verifiers, stages and compares
  commands; \<^verbatim>\<open>Grading\<close> is \<^verbatim>\<open>GradingService.grade\<close> with every handler, where an exception keeps the
  state reached so far. \<^verbatim>\<open>GradingGuarantees\<close> (C39, C40) proves that every run ends in a valid receipt and what a
  reward of one means. The worker runtime (\<^verbatim>\<open>environments/runtime.py\<close>) is the record \<^verbatim>\<open>grade_world\<close> of its answers.

  \<^bold>\<open>Audits and training.\<close> \<^verbatim>\<open>AuditSampling\<close>, \<^verbatim>\<open>AuditEstimates\<close> and \<^verbatim>\<open>AuditGuarantees\<close> (C30 to C32) are the
  stratified selection and the weighted estimates; \<^verbatim>\<open>TrainingGroups\<close> and \<^verbatim>\<open>TrainingGuarantees\<close> (C33 to C36)
  the group advantages, the balanced sampler with its checkpoint and the policy barrier.

  \<^bold>\<open>Bounds.\<close> The program's own limits (record counts, byte limits, 64 cases, seeds below \<open>2^63\<close>) are part of
  the definitions. No function of the model takes fuel: recursions are structural or have a measure, and the
  walks of \<^verbatim>\<open>SplitClosure\<close> are partial functions proved to return.

  \<^bold>\<open>Not modelled.\<close> File locking, SQLite pragmas, directory descriptors and fsync of the store and the registry;
  the container runtime and its images, dependency resolution, repository inference and toolchains
  (\<^verbatim>\<open>environments/\<close> apart from archives and the result records); git history and GitHub intake; authoring by
  a language model (\<^verbatim>\<open>generation/\<close>, \<^verbatim>\<open>requirements/\<close>); the agent runner; tensor training; the services
  that only sequence modelled operations around such calls (\<^verbatim>\<open>pipeline/\<close>, \<^verbatim>\<open>qualification/\<close>,
  \<^verbatim>\<open>evaluation/service.py\<close>, \<^verbatim>\<open>audits/service.py\<close>, \<^verbatim>\<open>training/service.py\<close>); and the command line. They drive processes,
  sockets, containers or GPUs, and their results depend on what those answer.
\<close>

end
